(* ===== verification/J5_Prelude.thy ===== *)
theory J5_Prelude
  imports Complex_Main "HOL-Library.Word"
begin

text \<open>
  Shared vocabulary of the johnny-five development: the JavaScript values the
  components exchange (numbers, pins, plain objects used as records of named
  numbers), the calls they make on the hardware-capability object \<open>io\<close> (recorded
  as a log of \<open>io_event\<close>s), and the two numeric helpers of \<open>lib/fn.js\<close> and
  \<open>lib/board.js\<close> that both the joystick and the ESC use (\<open>fscale\<close> and
  \<open>constrain\<close>). JavaScript numbers are modelled as \<open>real\<close>: the development
  reasons about the exact arithmetic the code writes and not about IEEE rounding.
  Generic lemmas on these helpers are collected in \<open>j5_simps\<close>.
\<close>

unbundle bit_operations_syntax

named_theorems j5_simps "evaluation rules of the shared JavaScript helpers"

type_synonym number = real

subsection \<open>Pins, levels and the hardware-capability calls\<close>

text \<open>
  A pin is a number (\<open>12\<close>, \<open>18\<close>), a name (\<open>"A0"\<close>), or \<open>undefined\<close> when the
  code reads a pin array past its end.
\<close>

datatype pin = PinNum nat | PinName string | PinUndefined

datatype level = LOW | HIGH

datatype pin_mode = INPUT | OUTPUT | ANALOG | SERVO

text \<open>
  The calls of the consumed capability contract (spec section 6), in the order the
  code issues them. \<open>AnalogRead\<close> registers a listener for the pin's reports;
  \<open>RemoveListener\<close> removes the listener of an \<open>"analog-read-N"\<close> event.
\<close>

datatype io_event =
    PinMode pin pin_mode
  | DigitalWrite pin level
  | AnalogRead pin
  | RemoveListener string
  | ServoWrite pin number
  | I2CWrite nat "8 word list"

text \<open>Reading an array index in JavaScript: past the end gives \<open>undefined\<close>.\<close>

definition pin_at :: "pin list \<Rightarrow> nat \<Rightarrow> pin" where
  "pin_at ps i = (if i < length ps then ps ! i else PinUndefined)"

subsection \<open>Plain objects with number-valued properties\<close>

text \<open>
  An object literal such as \<open>{x: 0, y: 0}\<close> is an association list from property
  names to values; \<open>Object.keys\<close> lists the names in insertion order, and an
  assignment \<open>o[k] = v\<close> overwrites an existing property in place or appends a new
  one at the end.
\<close>

type_synonym js_object = "(string \<times> number) list"

fun js_set :: "string \<Rightarrow> number \<Rightarrow> js_object \<Rightarrow> js_object" where
  "js_set k v [] = [(k, v)]"
| "js_set k v ((k', v') # ps) = (if k = k' then (k, v) # ps else (k', v') # js_set k v ps)"

definition js_keys :: "js_object \<Rightarrow> string list" where
  "js_keys ps = map fst ps"

text \<open>A callback that may or may not emit a value, collected into a list of emissions.\<close>

definition emitted :: "'a option \<Rightarrow> 'a list" where
  "emitted e = (case e of None \<Rightarrow> [] | Some v \<Rightarrow> [v])"

subsection \<open>Numeric helpers of lib/fn.js and lib/board.js\<close>

text \<open>
  \<open>fscale(value, fromLow, fromHigh, toLow, toHigh)\<close> interpolates linearly without
  rounding; \<open>Board.constrain(value, lower, upper)\<close> is
  \<open>Math.min(upper, Math.max(lower, value))\<close>.
\<close>

definition fscale :: "number \<Rightarrow> number \<Rightarrow> number \<Rightarrow> number \<Rightarrow> number \<Rightarrow> number" where
  "fscale value fromLow fromHigh toLow toHigh =
     (value - fromLow) * (toHigh - toLow) / (fromHigh - fromLow) + toLow"

definition constrain :: "number \<Rightarrow> number \<Rightarrow> number \<Rightarrow> number" where
  "constrain value lower upper = min upper (max lower value)"

subsection \<open>Lemmas on the helpers\<close>

lemma js_set_keys_present [j5_simps]:
  "k \<in> set (js_keys ps) \<Longrightarrow> js_keys (js_set k v ps) = js_keys ps"
  by (induction ps) (auto simp: js_keys_def rev_image_eqI)

lemma js_set_keys_absent [j5_simps]:
  "k \<notin> set (js_keys ps) \<Longrightarrow> js_keys (js_set k v ps) = js_keys ps @ [k]"
  by (induction ps) (auto simp: js_keys_def rev_image_eqI)

lemma map_of_js_set [j5_simps]: "map_of (js_set k v ps) = (map_of ps)(k \<mapsto> v)"
  by (induction ps) (auto simp: fun_eq_iff)

lemma js_set_twice [j5_simps]: "js_set k b (js_set k a ps) = js_set k b ps"
  by (induction ps) auto

lemma emitted_simps [simp]: "emitted None = []" "emitted (Some v) = [v]"
  by (simp_all add: emitted_def)

lemma fscale_low [j5_simps]: "fromHigh \<noteq> fromLow \<Longrightarrow> fscale fromLow fromLow fromHigh toLow toHigh = toLow"
  by (simp add: fscale_def)

lemma fscale_high [j5_simps]: "fromHigh \<noteq> fromLow \<Longrightarrow> fscale fromHigh fromLow fromHigh toLow toHigh = toHigh"
  by (simp add: fscale_def)

lemma fscale_mono:
  "fromLow < fromHigh \<Longrightarrow> toLow \<le> toHigh \<Longrightarrow> a \<le> b \<Longrightarrow>
   fscale a fromLow fromHigh toLow toHigh \<le> fscale b fromLow fromHigh toLow toHigh"
  by (simp add: fscale_def divide_right_mono mult_right_mono)

lemma constrain_bounds [j5_simps]:
  "lower \<le> upper \<Longrightarrow> lower \<le> constrain v lower upper \<and> constrain v lower upper \<le> upper"
  by (simp add: constrain_def)

lemma constrain_id [j5_simps]: "lower \<le> v \<Longrightarrow> v \<le> upper \<Longrightarrow> constrain v lower upper = v"
  by (simp add: constrain_def)

lemma constrain_above [j5_simps]: "lower \<le> upper \<Longrightarrow> upper \<le> v \<Longrightarrow> constrain v lower upper = upper"
  by (simp add: constrain_def)

lemma constrain_below [j5_simps]: "lower \<le> upper \<Longrightarrow> v \<le> lower \<Longrightarrow> constrain v lower upper = lower"
  by (simp add: constrain_def)

end
