(* ===== verification/Multiplexer.thy ===== *)
theory Multiplexer
  imports J5_Prelude
begin

text \<open>
  The \<open>Multiplexer\<close> of \<open>src/lib/joystick.js\<close> (lines 8--24): four digital
  control lines address one of sixteen analog channels. Construction puts the four
  pins in OUTPUT mode; \<open>select(channel)\<close> writes line \<open>i\<close> HIGH exactly when bit
  \<open>i\<close> of the channel is set. The object keeps no state beyond its pins, so the
  model is the record of pins and the list of \<open>io\<close> calls each method makes.
  The lemmas show which level each line receives, and that the channel the lines
  encode is the requested channel modulo 16 (the round trip select/decode).
\<close>

record multiplexer =
  mux_pins :: "pin list"

text \<open>\<open>new Multiplexer({pins, io})\<close>: store the pins and set the four to OUTPUT.\<close>

definition new_multiplexer :: "pin list \<Rightarrow> multiplexer \<times> io_event list" where
  "new_multiplexer pins =
     (\<lparr>mux_pins = pins\<rparr>,
      [PinMode (pin_at pins 0) OUTPUT, PinMode (pin_at pins 1) OUTPUT,
       PinMode (pin_at pins 2) OUTPUT, PinMode (pin_at pins 3) OUTPUT])"

text \<open>\<open>channel & mask ? io.HIGH : io.LOW\<close>, with JavaScript's \<open>&\<close> on an integral channel.\<close>

definition line_level :: "int \<Rightarrow> int \<Rightarrow> level" where
  "line_level channel bitmask = (if channel AND bitmask \<noteq> 0 then HIGH else LOW)"

definition select :: "multiplexer \<Rightarrow> int \<Rightarrow> io_event list" where
  "select m channel =
     [DigitalWrite (pin_at (mux_pins m) 0) (line_level channel 1),
      DigitalWrite (pin_at (mux_pins m) 1) (line_level channel 2),
      DigitalWrite (pin_at (mux_pins m) 2) (line_level channel 4),
      DigitalWrite (pin_at (mux_pins m) 3) (line_level channel 8)]"

subsection \<open>Decoding the lines\<close>

text \<open>
  What the multiplexer chip sees: each control line holds the level of the last
  digital write to its pin in the \<open>io\<close> log (\<open>line_state\<close>, \<open>None\<close> before the first
  write), and the chip routes the channel whose bit \<open>i\<close> is the level of line \<open>i\<close>,
  line \<open>i\<close> being the pin \<open>pins[i]\<close> of the multiplexer. Other calls in the log do not
  touch the lines.
\<close>

fun line_state :: "pin \<Rightarrow> io_event list \<Rightarrow> level option" where
  "line_state p [] = None"
| "line_state p (DigitalWrite q l # evs) =
     (case line_state p evs of None \<Rightarrow> (if q = p then Some l else None) | s \<Rightarrow> s)"
| "line_state p (_ # evs) = line_state p evs"

definition level_bit :: "level \<Rightarrow> int" where
  "level_bit l = (case l of HIGH \<Rightarrow> 1 | LOW \<Rightarrow> 0)"

definition mux_channel :: "multiplexer \<Rightarrow> io_event list \<Rightarrow> int option" where
  "mux_channel m trace =
     (case (line_state (pin_at (mux_pins m) 0) trace, line_state (pin_at (mux_pins m) 1) trace,
            line_state (pin_at (mux_pins m) 2) trace, line_state (pin_at (mux_pins m) 3) trace) of
        (Some l0, Some l1, Some l2, Some l3) \<Rightarrow>
          Some (level_bit l0 + 2 * level_bit l1 + 4 * level_bit l2 + 8 * level_bit l3)
      | _ \<Rightarrow> None)"

text \<open>A multiplexer whose four control pins are four different pins.\<close>

definition mux_wf :: "multiplexer \<Rightarrow> bool" where
  "mux_wf m \<longleftrightarrow> length (mux_pins m) = 4 \<and> distinct (mux_pins m)"

lemma line_level_bit [j5_simps]:
  "line_level channel (2 ^ n) = (if bit channel n then HIGH else LOW)"
  by (simp add: line_level_def and_exp_eq_0_iff_not_bit)

lemma take_bit_four:
  "take_bit 4 (c::int) =
     of_bool (bit c 0) + 2 * of_bool (bit c 1) + 4 * of_bool (bit c 2) + 8 * of_bool (bit c 3)"
proof -
  have "take_bit (Suc (Suc (Suc (Suc 0)))) c =
     of_bool (bit c 0) + 2 * of_bool (bit c (Suc 0)) + 4 * of_bool (bit c (Suc (Suc 0)))
       + 8 * of_bool (bit c (Suc (Suc (Suc 0))))"
    by (simp only: take_bit_Suc take_bit_0 bit_Suc bit_0 of_bool_odd_eq_mod_2)
      (simp add: algebra_simps)
  then show ?thesis by (simp add: numeral_eq_Suc)
qed

lemma select_levels:
  "select m channel =
     [DigitalWrite (pin_at (mux_pins m) 0) (if bit channel 0 then HIGH else LOW),
      DigitalWrite (pin_at (mux_pins m) 1) (if bit channel 1 then HIGH else LOW),
      DigitalWrite (pin_at (mux_pins m) 2) (if bit channel 2 then HIGH else LOW),
      DigitalWrite (pin_at (mux_pins m) 3) (if bit channel 3 then HIGH else LOW)]"
  using line_level_bit [of channel 0] line_level_bit [of channel 1]
    line_level_bit [of channel 2] line_level_bit [of channel 3]
  by (simp add: select_def)

lemma length_select [simp]: "length (select m channel) = 4"
  by (simp add: select_def)

lemma line_state_append:
  "line_state p (trace @ evs) = (case line_state p evs of None \<Rightarrow> line_state p trace | s \<Rightarrow> s)"
  by (induction p trace rule: line_state.induct) (auto split: option.split)

lemma line_state_AnalogRead [simp]: "line_state p (evs @ [AnalogRead q]) = line_state p evs"
  by (simp add: line_state_append)

lemma mux_channel_AnalogRead [simp]: "mux_channel m (evs @ [AnalogRead q]) = mux_channel m evs"
  by (simp add: mux_channel_def)

lemma mux_wf_pins:
  "mux_wf m \<Longrightarrow> \<exists>p0 p1 p2 p3. mux_pins m = [p0, p1, p2, p3] \<and> distinct [p0, p1, p2, p3]"
  by (auto simp: mux_wf_def numeral_eq_Suc length_Suc_conv)

lemma line_state_select:
  assumes "mux_wf m" and "k < 4"
  shows "line_state (pin_at (mux_pins m) k) (trace @ select m channel) =
           Some (if bit channel k then HIGH else LOW)"
proof -
  obtain p0 p1 p2 p3 where ps: "mux_pins m = [p0, p1, p2, p3]" and d: "distinct [p0, p1, p2, p3]"
    using mux_wf_pins [OF assms(1)] by blast
  have neq: "p0 \<noteq> p1" "p0 \<noteq> p2" "p0 \<noteq> p3" "p1 \<noteq> p2" "p1 \<noteq> p3" "p2 \<noteq> p3"
    "p1 \<noteq> p0" "p2 \<noteq> p0" "p3 \<noteq> p0" "p2 \<noteq> p1" "p3 \<noteq> p1" "p3 \<noteq> p2"
    using d by auto
  have at: "pin_at (mux_pins m) 0 = p0" "pin_at (mux_pins m) 1 = p1"
    "pin_at (mux_pins m) 2 = p2" "pin_at (mux_pins m) 3 = p3"
    by (simp_all add: ps pin_at_def)
  have sel: "select m channel =
     [DigitalWrite p0 (if bit channel 0 then HIGH else LOW), DigitalWrite p1 (if bit channel 1 then HIGH else LOW),
      DigitalWrite p2 (if bit channel 2 then HIGH else LOW), DigitalWrite p3 (if bit channel 3 then HIGH else LOW)]"
    by (simp only: select_levels at)
  have "k = 0 \<or> k = 1 \<or> k = 2 \<or> k = 3" using assms(2) by arith
  then show ?thesis
    by (elim disjE) (simp_all only: at sel line_state_append line_state.simps neq if_False if_True
        option.case refl)
qed

lemma mux_channel_after_select [j5_simps]:
  assumes "mux_wf m"
  shows "mux_channel m (trace @ select m channel) = Some (channel mod 16)"
proof -
  have "channel mod 16 = take_bit 4 channel" by (simp add: take_bit_eq_mod)
  then show ?thesis
    using line_state_select [OF assms, of 0 trace channel] line_state_select [OF assms, of 1 trace channel]
      line_state_select [OF assms, of 2 trace channel] line_state_select [OF assms, of 3 trace channel]
    by (simp add: mux_channel_def take_bit_four level_bit_def)
qed

text \<open>
  Claim C15. With four distinct control pins, \<open>select\<close> leaves on line \<open>i\<close> (the
  pin \<open>pins[i]\<close>) the level of bit \<open>i\<close> of the channel, whatever the lines held
  before, so that the chip routes exactly the selected channel for every channel in
  [0, 15].
\<close>

theorem select_roundtrip:
  assumes "mux_wf m" and "0 \<le> channel" and "channel < 16"
  shows "mux_channel m (trace @ select m channel) = Some channel"
  using mux_channel_after_select [OF assms(1)] assms(2,3) by simp

theorem select_roundtrip_witness:
  "select \<lparr>mux_pins = [PinNum 18, PinNum 19, PinNum 20, PinNum 21]\<rparr> 11 =
     [DigitalWrite (PinNum 18) HIGH, DigitalWrite (PinNum 19) HIGH,
      DigitalWrite (PinNum 20) LOW, DigitalWrite (PinNum 21) HIGH] \<and>
   mux_channel \<lparr>mux_pins = [PinNum 18, PinNum 19, PinNum 20, PinNum 21]\<rparr>
     (select \<lparr>mux_pins = [PinNum 18, PinNum 19, PinNum 20, PinNum 21]\<rparr> 4 @
      select \<lparr>mux_pins = [PinNum 18, PinNum 19, PinNum 20, PinNum 21]\<rparr> 11) = Some 11"
proof -
  have "mux_wf \<lparr>mux_pins = [PinNum 18, PinNum 19, PinNum 20, PinNum 21]\<rparr>" by (simp add: mux_wf_def)
  then have "mux_channel \<lparr>mux_pins = [PinNum 18, PinNum 19, PinNum 20, PinNum 21]\<rparr>
     (select \<lparr>mux_pins = [PinNum 18, PinNum 19, PinNum 20, PinNum 21]\<rparr> 4 @
      select \<lparr>mux_pins = [PinNum 18, PinNum 19, PinNum 20, PinNum 21]\<rparr> 11) = Some 11"
    by (rule select_roundtrip) simp_all
  then show ?thesis by (simp add: select_def line_level_def pin_at_def)
qed

end
