(* ===== verification/Joystick_Controllers.thy ===== *)
theory Joystick_Controllers
  imports Multiplexer
begin

text \<open>
  The acquisition pipelines of \<open>src/lib/joystick.js\<close> (the \<open>Controllers\<close> table,
  lines 26--113). Each controller's \<open>initialize(opts, dataHandler)\<close> sets up
  analog reads and keeps, in its closure, a round counter \<open>count\<close> and an object
  \<open>dataPoints = {x: 0, y: 0}\<close>; every second reading it passes \<open>dataPoints\<close> to
  \<open>dataHandler\<close>. The closure state is a record here, each callback is a function
  from the state and the reading to the new state and the optional emission, and a
  sequence of callbacks is a run over a list of inputs.
  \<^item> ANALOG: two pins, each with its own \<open>analogRead\<close> callback.
  \<^item> ESPLORA: one analog pin (4) shared through a \<open>Multiplexer\<close> on pins 18--21;
    each read selects channel 11 or 12 (toggling \<open>index\<close> by \<open>^= 1\<close>), the
    callback removes itself and re-arms the next read after a 10 ms timeout. The
    pending timeout is the phase \<open>Settling\<close>, the registered listener the phase
    \<open>Reading\<close>.
  Both controllers use the same \<open>toAxis\<close>, modelled in \<open>Joystick\<close>.
\<close>

subsection \<open>Axis names\<close>

text \<open>\<open>var axes = ["x", "y"]\<close>; \<open>axes[index]\<close> past the end is \<open>undefined\<close>, which
  becomes the property name \<open>"undefined"\<close>.\<close>

definition axes :: "string list" where
  "axes = [''x'', ''y'']"

definition axis_key :: "nat \<Rightarrow> string" where
  "axis_key i = (if i < length axes then axes ! i else ''undefined'')"

definition initial_points :: js_object where
  "initial_points = [(''x'', 0), (''y'', 0)]"

subsection \<open>ANALOG: two independently read pins\<close>

record analog_state =
  a_count :: nat
  a_points :: js_object

definition analog_initial :: analog_state where
  "analog_initial = \<lparr>a_count = 0, a_points = initial_points\<rparr>"

text \<open>\<open>opts.pins.forEach(pin => { pinMode(pin, ANALOG); analogRead(pin, cb) })\<close>.\<close>

definition analog_initialize :: "pin list \<Rightarrow> io_event list" where
  "analog_initialize pins = concat (map (\<lambda>p. [PinMode p ANALOG, AnalogRead p]) pins)"

text \<open>The callback of the pin at position \<open>index\<close>, on a reported \<open>value\<close>.\<close>

definition analog_on_read :: "nat \<Rightarrow> number \<Rightarrow> analog_state \<Rightarrow> analog_state \<times> js_object option" where
  "analog_on_read index value st =
     (let points = js_set (axis_key index) value (a_points st);
          count = Suc (a_count st)
      in if count = 2 then (\<lparr>a_count = 0, a_points = points\<rparr>, Some points)
         else (\<lparr>a_count = count, a_points = points\<rparr>, None))"

fun analog_run :: "(nat \<times> number) list \<Rightarrow> analog_state \<Rightarrow> analog_state \<times> js_object list" where
  "analog_run [] st = (st, [])"
| "analog_run ((i, v) # rs) st =
     (let (st1, e) = analog_on_read i v st;
          (st2, es) = analog_run rs st1
      in (st2, emitted e @ es))"

subsection \<open>ESPLORA: one pin behind a multiplexer\<close>

datatype esplora_phase = Reading | Settling

record esplora_state =
  e_index :: nat
  e_count :: nat
  e_points :: js_object
  e_phase :: esplora_phase

definition esplora_pins :: "pin list" where
  "esplora_pins = [PinNum 18, PinNum 19, PinNum 20, PinNum 21]"

definition esplora_channels :: "int list" where
  "esplora_channels = [11, 12]"

text \<open>\<open>channels[index]\<close>; \<open>undefined\<close> past the end, which \<open>&\<close> reads as 0.\<close>

definition channel_at :: "nat \<Rightarrow> int" where
  "channel_at i = (if i < length esplora_channels then esplora_channels ! i else 0)"

definition esplora_mux :: multiplexer where
  "esplora_mux = fst (new_multiplexer esplora_pins)"

definition esplora_initial :: esplora_state where
  "esplora_initial = \<lparr>e_index = 1, e_count = 0, e_points = initial_points, e_phase = Settling\<rparr>"

text \<open>\<open>read()\<close>: \<open>multiplexer.select(channels[index ^= 1]); io.analogRead(4, handler)\<close>.\<close>

definition esplora_read :: "esplora_state \<Rightarrow> esplora_state \<times> io_event list" where
  "esplora_read st =
     (let index = e_index st XOR 1
      in (st\<lparr>e_index := index, e_phase := Reading\<rparr>,
          select esplora_mux (channel_at index) @ [AnalogRead (PinNum 4)]))"

text \<open>The body of \<open>initialize\<close>: the multiplexer, analog mode on pin 4, the first read.\<close>

definition esplora_initialize :: "esplora_state \<times> io_event list" where
  "esplora_initialize =
     (let (_, mux_io) = new_multiplexer esplora_pins;
          (st, read_io) = esplora_read esplora_initial
      in (st, mux_io @ [PinMode (PinNum 4) ANALOG] @ read_io))"

text \<open>\<open>handler(value)\<close>: store, count, emit on the second reading, remove the listener
  and schedule the next \<open>read\<close> (phase \<open>Settling\<close> until the timeout fires).\<close>

definition esplora_on_read :: "number \<Rightarrow> esplora_state \<Rightarrow> esplora_state \<times> js_object option \<times> io_event list" where
  "esplora_on_read value st =
     (let points = js_set (axis_key (e_index st)) value (e_points st);
          count = Suc (e_count st)
      in if count = 2
         then (st\<lparr>e_points := points, e_count := 0, e_phase := Settling\<rparr>, Some points,
               [RemoveListener ''analog-read-4''])
         else (st\<lparr>e_points := points, e_count := count, e_phase := Settling\<rparr>, None,
               [RemoveListener ''analog-read-4'']))"

text \<open>
  The events the closure can receive: a report on pin 4 (delivered only while the
  handler is registered) and the settle timeout (only while one is pending). An event
  with no receiver changes nothing.
\<close>

datatype esplora_input = ReadReport number | SettleTimeout

fun esplora_step :: "esplora_input \<Rightarrow> esplora_state \<Rightarrow> esplora_state \<times> js_object option \<times> io_event list" where
  "esplora_step (ReadReport v) st =
     (if e_phase st = Reading then esplora_on_read v st else (st, None, []))"
| "esplora_step SettleTimeout st =
     (if e_phase st = Settling then (let (st', io) = esplora_read st in (st', None, io))
      else (st, None, []))"

fun esplora_run :: "esplora_input list \<Rightarrow> esplora_state \<Rightarrow> esplora_state \<times> js_object list \<times> io_event list" where
  "esplora_run [] st = (st, [], [])"
| "esplora_run (i # is) st =
     (let (st1, e, io1) = esplora_step i st;
          (st2, es, io2) = esplora_run is st1
      in (st2, emitted e @ es, io1 @ io2))"

subsection \<open>Invariants and schedules of the ESPLORA closure\<close>

text \<open>
  What the ESPLORA closure keeps true between callbacks: \<open>index\<close> is 0 or 1, the
  data object has exactly the properties \<open>x\<close> and \<open>y\<close>, and the counter agrees
  with the index (while the handler waits, \<open>count\<close> readings of this round are
  done and \<open>index\<close> is the axis it will write).
\<close>

definition esplora_inv :: "esplora_state \<Rightarrow> bool" where
  "esplora_inv st \<longleftrightarrow>
     e_index st < 2 \<and> js_keys (e_points st) = [''x'', ''y''] \<and>
     (if e_phase st = Reading then e_count st = e_index st else e_count st + e_index st = 1)"

text \<open>While the handler waits, the \<open>io\<close> log ends with the selection of the channel of
  \<open>index\<close> and the read request.\<close>

definition awaiting_channel :: "esplora_state \<Rightarrow> io_event list \<Rightarrow> bool" where
  "awaiting_channel st trace \<longleftrightarrow>
     (e_phase st = Reading \<longrightarrow>
      (\<exists>pre. trace = pre @ select esplora_mux (channel_at (e_index st)) @ [AnalogRead (PinNum 4)]))"

text \<open>One round of the intended schedule: report, settle, report, settle.\<close>

definition esplora_round :: "number \<Rightarrow> number \<Rightarrow> esplora_input list" where
  "esplora_round a b = [ReadReport a, SettleTimeout, ReadReport b, SettleTimeout]"

definition round_start :: "esplora_state \<Rightarrow> bool" where
  "round_start st \<longleftrightarrow>
     e_phase st = Reading \<and> e_count st = 0 \<and> e_index st = 0 \<and> js_keys (e_points st) = [''x'', ''y'']"

subsection \<open>Lemmas on the ANALOG pipeline\<close>

lemma axis_key_simps [simp]:
  "axis_key 0 = ''x''" "axis_key (Suc 0) = ''y''" "2 \<le> i \<Longrightarrow> axis_key i = ''undefined''"
  by (simp_all add: axis_key_def axes_def)

lemma axis_key_xy: "i < 2 \<Longrightarrow> axis_key i \<in> set (js_keys initial_points)"
  by (cases i) (auto simp: initial_points_def js_keys_def axis_key_def axes_def)

lemma analog_run_Cons:
  "analog_run ((i, v) # rs) st =
     (fst (analog_run rs (fst (analog_on_read i v st))),
      emitted (snd (analog_on_read i v st)) @ snd (analog_run rs (fst (analog_on_read i v st))))"
  by (simp add: split_def Let_def)

declare analog_run.simps(2) [simp del] analog_run_Cons [simp]

lemma analog_on_read_cases:
  assumes "a_count st < 2"
  obtains "a_count st = 0" "a_count (fst (analog_on_read i v st)) = 1" "snd (analog_on_read i v st) = None"
  | "a_count st = 1" "a_count (fst (analog_on_read i v st)) = 0"
    "snd (analog_on_read i v st) = Some (js_set (axis_key i) v (a_points st))"
  using assms by (cases "a_count st") (auto simp: analog_on_read_def Let_def)

text \<open>
  Claim C5. The ANALOG pipeline emits one combined sample per two readings: from a
  state whose counter is below 2, a run over any readings emits exactly
  (counter + number of readings) div 2 samples, whichever pins report.
\<close>

theorem analog_emissions_per_round:
  assumes "a_count st < 2"
  shows "length (snd (analog_run rs st)) = (a_count st + length rs) div 2"
  using assms
proof (induction rs arbitrary: st)
  case Nil
  then show ?case by simp
next
  case (Cons r rs)
  obtain i v where r: "r = (i, v)" by (cases r)
  from Cons.prems show ?case
  proof (cases rule: analog_on_read_cases [where i = i and v = v])
    case 1
    then show ?thesis using Cons.IH [of "fst (analog_on_read i v st)"]
      by (simp add: r)
  next
    case 2
    then show ?thesis using Cons.IH [of "fst (analog_on_read i v st)"]
      by (simp add: r)
  qed
qed

text \<open>
  Claim C6. A round in which the two pins report once each, in either order, emits
  exactly one object, holding each pin's reading under its axis name.
\<close>

theorem analog_round_combines:
  assumes "a_count st = 0" and "i < 2" and "j < 2" and "i \<noteq> j"
  shows "\<exists>p. snd (analog_run [(i, a), (j, b)] st) = [p] \<and>
           map_of p (axis_key i) = Some a \<and> map_of p (axis_key j) = Some b"
proof -
  have "axis_key i \<noteq> axis_key j"
    using assms(2-4) by (auto simp: axis_key_def axes_def less_2_cases_iff)
  then show ?thesis
    using assms(1) by (auto simp: analog_on_read_def Let_def map_of_js_set)
qed

text \<open>
  Claim C7. The round counter counts readings, not axes: when the x pin reports
  twice before the y pin reports, a sample is still emitted, carrying the newer x
  reading and the y value of an earlier round.
\<close>

theorem analog_same_pin_twice:
  assumes "a_count st = 0"
  shows "snd (analog_run [(0, a), (0, b)] st) = [js_set ''x'' b (a_points st)] \<and>
         map_of (js_set ''x'' b (a_points st)) ''y'' = map_of (a_points st) ''y''"
  using assms by (simp add: analog_on_read_def Let_def map_of_js_set js_set_twice)

subsection \<open>Lemmas on the ESPLORA pipeline\<close>

lemma esplora_run_Cons:
  "esplora_run (i # is) st =
     (fst (esplora_run is (fst (esplora_step i st))),
      emitted (fst (snd (esplora_step i st))) @ fst (snd (esplora_run is (fst (esplora_step i st)))),
      snd (snd (esplora_step i st)) @ snd (snd (esplora_run is (fst (esplora_step i st)))))"
  by (simp add: split_def Let_def)

declare esplora_run.simps(2) [simp del] esplora_run_Cons [simp]

lemma esplora_run_append:
  "esplora_run (xs @ ys) st =
     (fst (esplora_run ys (fst (esplora_run xs st))),
      fst (snd (esplora_run xs st)) @ fst (snd (esplora_run ys (fst (esplora_run xs st)))),
      snd (snd (esplora_run xs st)) @ snd (snd (esplora_run ys (fst (esplora_run xs st)))))"
  by (induction xs arbitrary: st) simp_all

lemma esplora_step_inv:
  assumes "esplora_inv st"
  shows "esplora_inv (fst (esplora_step i st))"
proof -
  from assms have "e_index st < 2" by (simp add: esplora_inv_def)
  then have idx: "e_index st = 0 \<or> e_index st = 1" by arith
  show ?thesis
  proof (cases i)
    case (ReadReport v)
    with idx assms show ?thesis
      by (auto simp: esplora_inv_def esplora_on_read_def Let_def js_set_keys_present)
  next
    case SettleTimeout
    with idx assms show ?thesis
      by (auto simp: esplora_inv_def esplora_read_def Let_def)
  qed
qed

lemma esplora_run_inv: "esplora_inv st \<Longrightarrow> esplora_inv (fst (esplora_run is st))"
  by (induction "is" arbitrary: st) (simp_all add: esplora_step_inv)

lemma esplora_initialize_state:
  "fst esplora_initialize = \<lparr>e_index = 0, e_count = 0, e_points = initial_points, e_phase = Reading\<rparr>"
  by (simp add: esplora_initialize_def esplora_read_def esplora_initial_def split_def Let_def)

lemma esplora_initialize_inv: "esplora_inv (fst esplora_initialize)"
  by (simp add: esplora_initialize_state esplora_inv_def initial_points_def js_keys_def)

lemma esplora_step_awaiting:
  assumes "awaiting_channel st trace"
  shows "awaiting_channel (fst (esplora_step i st)) (trace @ snd (snd (esplora_step i st)))"
proof (cases i)
  case (ReadReport v)
  with assms show ?thesis
    by (auto simp: awaiting_channel_def esplora_on_read_def Let_def)
next
  case SettleTimeout
  with assms show ?thesis
    by (auto simp: awaiting_channel_def esplora_read_def Let_def)
qed

lemma esplora_run_awaiting:
  "awaiting_channel st trace \<Longrightarrow>
   awaiting_channel (fst (esplora_run is st)) (trace @ snd (snd (esplora_run is st)))"
proof (induction "is" arbitrary: st trace)
  case Nil
  then show ?case by simp
next
  case (Cons i "is")
  from Cons.prems have "awaiting_channel (fst (esplora_step i st)) (trace @ snd (snd (esplora_step i st)))"
    by (rule esplora_step_awaiting)
  then have "awaiting_channel (fst (esplora_run is (fst (esplora_step i st))))
     ((trace @ snd (snd (esplora_step i st))) @ snd (snd (esplora_run is (fst (esplora_step i st)))))"
    by (rule Cons.IH)
  then show ?case by simp
qed

lemma esplora_initialize_awaiting: "awaiting_channel (fst esplora_initialize) (snd esplora_initialize)"
  unfolding awaiting_channel_def
  by (auto simp: esplora_initialize_def esplora_read_def esplora_initial_def split_def Let_def)

lemma channel_at_cases: "channel_at i \<in> {11, 12, 0}"
  by (cases i) (auto simp: channel_at_def esplora_channels_def nth_Cons')

lemma channel_at_mod: "channel_at i mod 16 = channel_at i"
  using channel_at_cases [of i] by auto

lemma esplora_mux_wf: "mux_wf esplora_mux"
  by (simp add: mux_wf_def esplora_mux_def esplora_pins_def new_multiplexer_def)

lemma js_keys_two: "js_keys ps = [k1, k2] \<Longrightarrow> \<exists>p q. ps = [(k1, p), (k2, q)]"
  by (cases ps rule: list.exhaust[case_product list.exhaust[case_product list.exhaust]])
    (auto simp: js_keys_def)

lemma esplora_one_round:
  assumes "round_start st"
  shows "round_start (fst (esplora_run (esplora_round a b) st)) \<and>
         fst (snd (esplora_run (esplora_round a b) st)) = [[(''x'', a), (''y'', b)]]"
proof -
  from assms obtain p q where "e_points st = [(''x'', p), (''y'', q)]"
    by (auto simp: round_start_def dest: js_keys_two)
  with assms show ?thesis
    by (simp add: round_start_def esplora_round_def esplora_on_read_def esplora_read_def Let_def js_keys_def)
qed

lemma esplora_rounds_run:
  assumes "round_start st"
  shows "fst (snd (esplora_run (concat (map (\<lambda>(a, b). esplora_round a b) ps)) st)) =
         map (\<lambda>(a, b). [(''x'', a), (''y'', b)]) ps"
  using assms
proof (induction ps arbitrary: st)
  case Nil
  then show ?case by simp
next
  case (Cons r ps)
  obtain a b where r: "r = (a, b)" by (cases r)
  from Cons.prems have one: "round_start (fst (esplora_run (esplora_round a b) st))"
    and em: "fst (snd (esplora_run (esplora_round a b) st)) = [[(''x'', a), (''y'', b)]]"
    using esplora_one_round by blast+
  from Cons.IH [OF one] em show ?case
    by (simp add: r esplora_run_append)
qed

text \<open>
  Claim C8. Every state the ESPLORA closure reaches from \<open>initialize\<close>, under any
  interleaving of reports and timeouts, satisfies the closure invariant: the index
  is 0 or 1, the data object has exactly the properties x and y, and the counter
  agrees with the index.
\<close>

theorem esplora_reachable_inv: "esplora_inv (fst (esplora_run is (fst esplora_initialize)))"
  by (rule esplora_run_inv [OF esplora_initialize_inv])

text \<open>
  Claim C4. Whenever the ESPLORA handler waits for a report, the multiplexer's
  four control lines (pins 18 to 21, each at the level of its last write in the io
  log) select the channel of the axis the handler will write: channel 11 for x and
  channel 12 for y.
\<close>

theorem esplora_mux_routing:
  assumes "esplora_run is (fst esplora_initialize) = (st, samples, io)"
    and "e_phase st = Reading"
  shows "mux_channel esplora_mux (snd esplora_initialize @ io) = Some (channel_at (e_index st)) \<and>
         axis_key (e_index st) = (if channel_at (e_index st) = 11 then ''x'' else ''y'')"
proof -
  have "awaiting_channel st (snd esplora_initialize @ io)"
    using esplora_run_awaiting [OF esplora_initialize_awaiting, of "is"] assms(1) by simp
  with assms(2) obtain pre where
    tr: "snd esplora_initialize @ io = pre @ select esplora_mux (channel_at (e_index st)) @ [AnalogRead (PinNum 4)]"
    by (auto simp: awaiting_channel_def)
  have "e_index st < 2"
    using esplora_run_inv [OF esplora_initialize_inv, of "is"] assms(1) by (simp add: esplora_inv_def)
  then have "axis_key (e_index st) = (if channel_at (e_index st) = 11 then ''x'' else ''y'')"
    by (auto simp: channel_at_def esplora_channels_def less_2_cases_iff)
  moreover have "mux_channel esplora_mux (snd esplora_initialize @ io) = Some (channel_at (e_index st))"
    unfolding tr using mux_channel_after_select [OF esplora_mux_wf, of pre "channel_at (e_index st)"]
      mux_channel_AnalogRead [of esplora_mux "pre @ select esplora_mux (channel_at (e_index st))" "PinNum 4"]
    by (simp add: channel_at_mod)
  ultimately show ?thesis by simp
qed

text \<open>
  Claim C3. Under the intended schedule (report, settle, report, settle), the
  ESPLORA pipeline started by \<open>initialize\<close> emits exactly one combined sample per
  two reads, and the first read of every pair is the x axis: n rounds with readings
  (a, b) emit exactly the n objects {x: a, y: b}, in order.
\<close>

theorem esplora_samples_pair_reads:
  "fst (snd (esplora_run (concat (map (\<lambda>(a, b). esplora_round a b) ps)) (fst esplora_initialize))) =
   map (\<lambda>(a, b). [(''x'', a), (''y'', b)]) ps"
proof (rule esplora_rounds_run)
  show "round_start (fst esplora_initialize)"
    by (simp add: round_start_def esplora_initialize_state initial_points_def js_keys_def)
qed

theorem analog_emissions_per_round_witness:
  "a_count analog_initial < 2 \<and> length (snd (analog_run [(0, 1), (1, 2), (0, 3)] analog_initial)) = 1"
  using analog_emissions_per_round [of analog_initial "[(0, 1), (1, 2), (0, 3)]"]
  by (simp add: analog_initial_def)

theorem analog_round_combines_witness:
  "\<exists>p. snd (analog_run [(1, 560), (0, 512)] analog_initial) = [p] \<and>
       map_of p ''y'' = Some 560 \<and> map_of p ''x'' = Some 512"
  using analog_round_combines [of analog_initial 1 0 560 512]
  by (simp add: analog_initial_def)

theorem analog_same_pin_twice_witness:
  "snd (analog_run [(0, 3), (0, 4)] analog_initial) = [[(''x'', 4), (''y'', 0)]]"
  using analog_same_pin_twice [of analog_initial 3 4]
  by (simp add: analog_initial_def initial_points_def)

theorem esplora_mux_routing_witness:
  "\<exists>st samples io. esplora_run [ReadReport 7, SettleTimeout] (fst esplora_initialize) = (st, samples, io) \<and>
     e_phase st = Reading \<and> mux_channel esplora_mux (snd esplora_initialize @ io) = Some 12 \<and>
     axis_key (e_index st) = ''y''"
proof -
  obtain st samples io where r: "esplora_run [ReadReport 7, SettleTimeout] (fst esplora_initialize) = (st, samples, io)"
    by (cases "esplora_run [ReadReport 7, SettleTimeout] (fst esplora_initialize)") auto
  have st: "e_phase st = Reading" "e_index st = 1"
    using r by (auto simp: esplora_initialize_state esplora_on_read_def esplora_read_def Let_def)
  have "mux_channel esplora_mux (snd esplora_initialize @ io) = Some (channel_at (e_index st)) \<and>
        axis_key (e_index st) = (if channel_at (e_index st) = 11 then ''x'' else ''y'')"
    by (rule esplora_mux_routing [OF r st(1)])
  then show ?thesis
    using r st by (auto simp: channel_at_def esplora_channels_def)
qed

end
