(* ===== verification/Joystick.thy ===== *)
theory Joystick
  imports Joystick_Controllers
begin

text \<open>
  The \<open>Joystick\<close> constructor of \<open>src/lib/joystick.js\<close> (lines 130--225) and the data
  handler it passes to its controller's \<open>initialize\<close> (the change detector, lines
  173--205). The private \<open>state\<close> object \<open>{x: {value, previous, zeroV}, y: {...}}\<close>
  is a record of two sensor records; the handler also writes properties \<open>x\<close> and
  \<open>y\<close> onto each sensor object (\<open>sensor.x = this.x\<close>), which are
  \<open>undefined\<close> until first written and are the fields \<open>s_x\<close>, \<open>s_y\<close> here.
  A thrown \<open>TypeError\<close> is an \<open>Inl\<close> value that carries the state as far as the
  handler had mutated it. Events emitted through \<open>EventEmitter.emit\<close> are returned
  as a list of \<open>joystick_event\<close>s. A whole joystick is the controller, the resolved
  \<open>toAxis\<close>, the sensor state and the state of the controller's closure; a step
  feeds it one hardware callback.
\<close>

datatype js_error = TypeError string

record sensor =
  s_value :: number
  s_previous :: number
  s_zeroV :: "number option"
  s_x :: "number option"
  s_y :: "number option"

record joystick_state =
  st_x :: sensor
  st_y :: sensor

definition initial_sensor :: sensor where
  "initial_sensor = \<lparr>s_value = 0, s_previous = 0, s_zeroV = None, s_x = None, s_y = None\<rparr>"

definition initial_state :: joystick_state where
  "initial_state = \<lparr>st_x = initial_sensor, st_y = initial_sensor\<rparr>"

text \<open>\<open>state[axis]\<close>: only \<open>"x"\<close> and \<open>"y"\<close> name sensors; any other name reads
  \<open>undefined\<close>, and reading \<open>undefined.zeroV\<close> throws.\<close>

definition state_get :: "joystick_state \<Rightarrow> string \<Rightarrow> sensor option" where
  "state_get st axis =
     (if axis = ''x'' then Some (st_x st) else if axis = ''y'' then Some (st_y st) else None)"

definition state_put :: "string \<Rightarrow> sensor \<Rightarrow> joystick_state \<Rightarrow> joystick_state" where
  "state_put axis s st = (if axis = ''x'' then st\<lparr>st_x := s\<rparr> else st\<lparr>st_y := s\<rparr>)"

text \<open>\<open>zeroV < 0 ? zeroV * -1 : zeroV\<close>, added to the value; \<open>null\<close> adds as 0.\<close>

definition zero_offset :: "number option \<Rightarrow> number" where
  "zero_offset z = (case z of None \<Rightarrow> 0 | Some v \<Rightarrow> if v < 0 then v * -1 else v)"

subsection \<open>The data handler\<close>

text \<open>
  One iteration of \<open>Object.keys(data).forEach(function(axis) {...})\<close>: store the
  offset value in \<open>state[axis]\<close>, then compare the getters \<open>this.x\<close> and \<open>this.y\<close>
  (which apply \<open>toAxis\<close> to the stored values) with the properties \<open>x\<close> and \<open>y\<close> of
  this same sensor object, copying them over and raising \<open>isChange\<close> when they differ.
\<close>

definition update_axis ::
  "(number \<Rightarrow> number) \<Rightarrow> string \<Rightarrow> number \<Rightarrow> joystick_state \<times> bool \<Rightarrow>
   (js_error \<times> joystick_state) + (joystick_state \<times> bool)" where
  "update_axis toAxis axis value acc =
     (let (st, isChange) = acc in
      case state_get st axis of
        None \<Rightarrow> Inl (TypeError ''Cannot read property zeroV of undefined'', st)
      | Some sensor \<Rightarrow>
          let sensor1 = sensor\<lparr>s_value := value + zero_offset (s_zeroV sensor)\<rparr>;
              st1 = state_put axis sensor1 st;
              thisx = toAxis (s_value (st_x st1));
              (sensor2, ch1) = (if s_x sensor1 \<noteq> Some thisx
                                then (sensor1\<lparr>s_x := Some thisx\<rparr>, True) else (sensor1, isChange));
              st2 = state_put axis sensor2 st1;
              thisy = toAxis (s_value (st_y st2));
              (sensor3, ch2) = (if s_y sensor2 \<noteq> Some thisy
                                then (sensor2\<lparr>s_y := Some thisy\<rparr>, True) else (sensor2, ch1))
          in Inr (state_put axis sensor3 st2, ch2))"

fun handle_axes ::
  "(number \<Rightarrow> number) \<Rightarrow> js_object \<Rightarrow> joystick_state \<times> bool \<Rightarrow>
   (js_error \<times> joystick_state) + (joystick_state \<times> bool)" where
  "handle_axes toAxis [] acc = Inr acc"
| "handle_axes toAxis ((axis, value) # ds) acc =
     (case update_axis toAxis axis value acc of
        Inl e \<Rightarrow> Inl e
      | Inr acc' \<Rightarrow> handle_axes toAxis ds acc')"

datatype joystick_event = DataEvent number number | ChangeEvent number number

text \<open>The whole handler: the loop, then \<open>emit("data", ...)\<close> always and
  \<open>emit("change", ...)\<close> when a comparison differed; both carry \<open>state.x.value\<close> and
  \<open>state.y.value\<close>.\<close>

definition on_data ::
  "(number \<Rightarrow> number) \<Rightarrow> js_object \<Rightarrow> joystick_state \<Rightarrow>
   (js_error \<times> joystick_state) + (joystick_state \<times> joystick_event list)" where
  "on_data toAxis data st =
     (case handle_axes toAxis data (st, False) of
        Inl e \<Rightarrow> Inl e
      | Inr (st', isChange) \<Rightarrow>
          Inr (st', DataEvent (s_value (st_x st')) (s_value (st_y st')) #
                    (if isChange then [ChangeEvent (s_value (st_x st')) (s_value (st_y st'))] else [])))"

subsection \<open>Controllers, toAxis and the constructor\<close>

text \<open>
  \<open>opts.controller\<close> is a name (looked up in \<open>Controllers\<close> after
  \<open>toUpperCase()\<close>) or an object of property descriptors, possibly providing
  \<open>toAxis\<close> and \<open>initialize\<close>.
\<close>

datatype controller = Analog | Esplora | Custom "(number \<Rightarrow> number) option" bool

datatype controller_option =
    ControllerName string
  | ControllerObject "(number \<Rightarrow> number) option" bool

record joystick_options =
  opt_pins :: "pin list"
  opt_controller :: "controller_option option"
  opt_toAxis :: "(number \<Rightarrow> number) option"

definition js_upper_char :: "char \<Rightarrow> char" where
  "js_upper_char c = (let n = (of_char c :: nat) in if 97 \<le> n \<and> n \<le> 122 then char_of (n - 32) else c)"

definition js_upper :: "string \<Rightarrow> string" where
  "js_upper s = map js_upper_char s"

definition controller_table :: "string \<Rightarrow> controller option" where
  "controller_table name =
     (if name = ''ANALOG'' then Some Analog else if name = ''ESPLORA'' then Some Esplora else None)"

text \<open>
  Lines 154--162: a non-empty name is looked up (unknown names give \<open>undefined\<close>,
  which \<open>== null\<close> replaces by ANALOG); an object is used as it is; no option gives
  ANALOG. The empty string is falsy: it is kept as the controller, and
  \<open>Object.defineProperties(this, "")\<close> defines nothing.
\<close>

definition resolve_controller :: "controller_option option \<Rightarrow> controller" where
  "resolve_controller opt =
     (case opt of
        None \<Rightarrow> Analog
      | Some (ControllerName s) \<Rightarrow>
          if s \<noteq> [] then (case controller_table (js_upper s) of None \<Rightarrow> Analog | Some c \<Rightarrow> c)
          else Custom None False
      | Some (ControllerObject t i) \<Rightarrow> Custom t i)"

text \<open>\<open>toAxis\<close> of both built-in controllers: \<open>fscale(raw - 512, -512, 512, -1, 1)\<close>.\<close>

definition default_toAxis :: "number \<Rightarrow> number" where
  "default_toAxis raw = fscale (raw - 512) (-512) 512 (-1) 1"

text \<open>Lines 164--168: the controller's (non-writable) \<open>toAxis\<close> if it has one,
  else \<open>opts.toAxis\<close>, else the identity.\<close>

definition resolve_toAxis :: "controller \<Rightarrow> (number \<Rightarrow> number) option \<Rightarrow> (number \<Rightarrow> number)" where
  "resolve_toAxis c opt =
     (case c of
        Analog \<Rightarrow> default_toAxis
      | Esplora \<Rightarrow> default_toAxis
      | Custom (Some t) _ \<Rightarrow> t
      | Custom None _ \<Rightarrow> (case opt of Some f \<Rightarrow> f | None \<Rightarrow> (\<lambda>raw. raw)))"

datatype pipeline =
    AnalogPipe analog_state
  | EsploraPipe esplora_state
  | CustomPipe
  | NoPipe

record joystick =
  j_controller :: controller
  j_pins :: "pin list"
  j_toAxis :: "number \<Rightarrow> number"
  j_state :: joystick_state
  j_pipe :: pipeline

text \<open>\<open>new Joystick(opts)\<close>: resolve the controller and \<open>toAxis\<close>, create the state,
  and run the controller's \<open>initialize\<close> when it has one.\<close>

definition new_joystick :: "joystick_options \<Rightarrow> joystick \<times> io_event list" where
  "new_joystick opts =
     (let c = resolve_controller (opt_controller opts);
          (pipe, io) = (case c of
              Analog \<Rightarrow> (AnalogPipe analog_initial, analog_initialize (opt_pins opts))
            | Esplora \<Rightarrow> (EsploraPipe (fst esplora_initialize), snd esplora_initialize)
            | Custom _ True \<Rightarrow> (CustomPipe, [])
            | Custom _ False \<Rightarrow> (NoPipe, []))
      in (\<lparr>j_controller = c, j_pins = opt_pins opts,
           j_toAxis = resolve_toAxis c (opt_toAxis opts),
           j_state = initial_state, j_pipe = pipe\<rparr>, io))"

text \<open>The getters \<open>x\<close>, \<open>y\<close> and the method \<open>hasAxis\<close> (lines 208--224).\<close>

definition joystick_x :: "joystick \<Rightarrow> number" where
  "joystick_x j = j_toAxis j (s_value (st_x (j_state j)))"

definition joystick_y :: "joystick \<Rightarrow> number" where
  "joystick_y j = j_toAxis j (s_value (st_y (j_state j)))"

definition hasAxis :: "joystick \<Rightarrow> string \<Rightarrow> bool" where
  "hasAxis j axis = (state_get (j_state j) axis \<noteq> None)"

subsection \<open>Hardware callbacks into a joystick\<close>

text \<open>
  A report on the pin at a position of \<open>opts.pins\<close> (ANALOG), an ESPLORA input, or
  a sample that a custom \<open>initialize\<close> passes to the handler. A callback that was
  never registered (a position past the pins, an input for another controller)
  changes nothing.
\<close>

datatype joystick_input =
    PinReport nat number
  | EsploraEvent esplora_input
  | CustomSample js_object

definition deliver ::
  "joystick \<Rightarrow> js_object option \<Rightarrow> (js_error \<times> joystick) + (joystick \<times> joystick_event list)" where
  "deliver j e =
     (case e of
        None \<Rightarrow> Inr (j, [])
      | Some d \<Rightarrow>
          (case on_data (j_toAxis j) d (j_state j) of
             Inl (err, st) \<Rightarrow> Inl (err, j\<lparr>j_state := st\<rparr>)
           | Inr (st, evs) \<Rightarrow> Inr (j\<lparr>j_state := st\<rparr>, evs)))"

fun joystick_step ::
  "joystick_input \<Rightarrow> joystick \<Rightarrow> (js_error \<times> joystick) + (joystick \<times> joystick_event list \<times> io_event list)" where
  "joystick_step (PinReport i v) j =
     (case j_pipe j of
        AnalogPipe a \<Rightarrow>
          if i < length (j_pins j) then
            (let (a', e) = analog_on_read i v a
             in case deliver (j\<lparr>j_pipe := AnalogPipe a'\<rparr>) e of
                  Inl err \<Rightarrow> Inl err
                | Inr (j', evs) \<Rightarrow> Inr (j', evs, []))
          else Inr (j, [], [])
      | _ \<Rightarrow> Inr (j, [], []))"
| "joystick_step (EsploraEvent inp) j =
     (case j_pipe j of
        EsploraPipe s \<Rightarrow>
          (let (s', e, io) = esplora_step inp s
           in case deliver (j\<lparr>j_pipe := EsploraPipe s'\<rparr>) e of
                Inl err \<Rightarrow> Inl err
              | Inr (j', evs) \<Rightarrow> Inr (j', evs, io))
      | _ \<Rightarrow> Inr (j, [], []))"
| "joystick_step (CustomSample d) j =
     (case j_pipe j of
        CustomPipe \<Rightarrow>
          (case deliver j (Some d) of
             Inl err \<Rightarrow> Inl err
           | Inr (j', evs) \<Rightarrow> Inr (j', evs, []))
      | _ \<Rightarrow> Inr (j, [], []))"

text \<open>A sequence of callbacks; a thrown error ends the run with the error.\<close>

fun joystick_run ::
  "joystick_input list \<Rightarrow> joystick \<Rightarrow> (js_error \<times> joystick) + (joystick \<times> joystick_event list \<times> io_event list)" where
  "joystick_run [] j = Inr (j, [], [])"
| "joystick_run (i # is) j =
     (case joystick_step i j of
        Inl err \<Rightarrow> Inl err
      | Inr (j1, evs1, io1) \<Rightarrow>
          (case joystick_run is j1 of
             Inl err \<Rightarrow> Inl err
           | Inr (j2, evs2, io2) \<Rightarrow> Inr (j2, evs1 @ evs2, io1 @ io2)))"

subsection \<open>Cache consistency of the change detector\<close>

text \<open>
  After the handler has processed an object with properties x and y, each sensor
  caches the transformed values it saw: the y sensor the new pair, the x sensor the
  new x. \<open>settled\<close> names this state of the caches.
\<close>

definition settled :: "(number \<Rightarrow> number) \<Rightarrow> joystick_state \<Rightarrow> bool" where
  "settled T st \<longleftrightarrow>
     s_x (st_x st) = Some (T (s_value (st_x st))) \<and>
     s_x (st_y st) = Some (T (s_value (st_x st))) \<and>
     s_y (st_y st) = Some (T (s_value (st_y st)))"

text \<open>The state after the samples {x: 0, y: 0} and {x: 0, y: 5} with the built-in toAxis.\<close>

definition two_samples_state :: joystick_state where
  "two_samples_state =
     \<lparr>st_x = initial_sensor\<lparr>s_x := Some (default_toAxis 0), s_y := Some (default_toAxis 0)\<rparr>,
      st_y = initial_sensor\<lparr>s_value := 5, s_x := Some (default_toAxis 0), s_y := Some (default_toAxis 5)\<rparr>\<rparr>"

definition three_pin_options :: joystick_options where
  "three_pin_options =
     \<lparr>opt_pins = [PinName ''A0'', PinName ''A1'', PinName ''A2''], opt_controller = None, opt_toAxis = None\<rparr>"

subsection \<open>Lemmas on the handler\<close>

lemma update_axis_x:
  "update_axis T ''x'' a (st, c) =
     Inr (st\<lparr>st_x := (st_x st)\<lparr>s_value := a + zero_offset (s_zeroV (st_x st)),
                s_x := Some (T (a + zero_offset (s_zeroV (st_x st)))),
                s_y := Some (T (s_value (st_y st)))\<rparr>\<rparr>,
          c \<or> s_x (st_x st) \<noteq> Some (T (a + zero_offset (s_zeroV (st_x st))))
            \<or> s_y (st_x st) \<noteq> Some (T (s_value (st_y st))))"
  by (simp add: update_axis_def state_get_def state_put_def Let_def split_def)

lemma update_axis_y:
  "update_axis T ''y'' b (st, c) =
     Inr (st\<lparr>st_y := (st_y st)\<lparr>s_value := b + zero_offset (s_zeroV (st_y st)),
                s_x := Some (T (s_value (st_x st))),
                s_y := Some (T (b + zero_offset (s_zeroV (st_y st))))\<rparr>\<rparr>,
          c \<or> s_x (st_y st) \<noteq> Some (T (s_value (st_x st)))
            \<or> s_y (st_y st) \<noteq> Some (T (b + zero_offset (s_zeroV (st_y st)))))"
  by (simp add: update_axis_def state_get_def state_put_def Let_def split_def)

lemma update_axis_unknown:
  "state_get st axis = None \<Longrightarrow>
   update_axis T axis v (st, c) = Inl (TypeError ''Cannot read property zeroV of undefined'', st)"
  by (simp add: update_axis_def)

text \<open>The handler on an object \<open>{x: a, y: b}\<close>, in closed form.\<close>

lemma on_data_xy:
  "on_data T [(''x'', a), (''y'', b)] st =
     (let ax = a + zero_offset (s_zeroV (st_x st)); by = b + zero_offset (s_zeroV (st_y st));
          ch = (s_x (st_x st) \<noteq> Some (T ax) \<or> s_y (st_x st) \<noteq> Some (T (s_value (st_y st))) \<or>
                s_x (st_y st) \<noteq> Some (T ax) \<or> s_y (st_y st) \<noteq> Some (T by))
      in Inr (\<lparr>st_x = (st_x st)\<lparr>s_value := ax, s_x := Some (T ax), s_y := Some (T (s_value (st_y st)))\<rparr>,
               st_y = (st_y st)\<lparr>s_value := by, s_x := Some (T ax), s_y := Some (T by)\<rparr>\<rparr>,
               DataEvent ax by # (if ch then [ChangeEvent ax by] else [])))"
  by (simp add: on_data_def update_axis_x update_axis_y Let_def)

lemma handle_axes_undefined:
  "\<exists>st'. handle_axes T [(''x'', a), (''y'', b), (''undefined'', c)] (st, ch) =
     Inl (TypeError ''Cannot read property zeroV of undefined'', st')"
  by (simp add: update_axis_x update_axis_y update_axis_unknown state_get_def)

lemma first_sample:
  "\<exists>st'. on_data T [(''x'', a), (''y'', b)] initial_state =
     Inr (st', [DataEvent a b, ChangeEvent a b]) \<and> settled T st'"
  by (simp add: on_data_xy initial_state_def initial_sensor_def zero_offset_def settled_def)

lemma two_samples_state_reached:
  "\<exists>st1 evs1 evs2. on_data default_toAxis [(''x'', 0), (''y'', 0)] initial_state = Inr (st1, evs1) \<and>
      on_data default_toAxis [(''x'', 0), (''y'', 5)] st1 = Inr (two_samples_state, evs2)"
  by (simp add: on_data_xy initial_state_def initial_sensor_def zero_offset_def two_samples_state_def)

lemma two_samples_state_settled: "settled default_toAxis two_samples_state"
  by (simp add: settled_def two_samples_state_def initial_sensor_def)

lemma default_toAxis_eq: "default_toAxis raw = raw / 512 - 1"
  by (simp add: default_toAxis_def fscale_def)

lemma new_joystick_analog:
  "opt_controller opts = None \<Longrightarrow>
   new_joystick opts =
     (\<lparr>j_controller = Analog, j_pins = opt_pins opts, j_toAxis = default_toAxis,
       j_state = initial_state, j_pipe = AnalogPipe analog_initial\<rparr>, analog_initialize (opt_pins opts))"
  by (simp add: new_joystick_def resolve_controller_def resolve_toAxis_def)

lemma joystick_run_NoPipe: "j_pipe j = NoPipe \<Longrightarrow> joystick_run is j = Inr (j, [], [])"
proof (induction "is")
  case Nil
  then show ?case by simp
next
  case (Cons i "is")
  then show ?case by (cases i) simp_all
qed

subsection \<open>Properties of the change detector\<close>

text \<open>
  Claim C1. The change detector, on a sample {x: a, y: b} from a state whose caches
  are settled, stores a and b plus their zero offsets, stays settled, caches in the
  x sensor the y value stored before the sample, and emits exactly "data" with the
  stored pair followed by "change" with the stored pair, the latter exactly when the
  transformed pair differs from the previously stored one or the y value the x
  sensor cached at the previous sample differs from the stored y value.
\<close>

theorem change_detection:
  assumes "settled T st" and "on_data T [(''x'', a), (''y'', b)] st = Inr (st', evs)"
  shows "settled T st' \<and>
         s_value (st_x st') = a + zero_offset (s_zeroV (st_x st)) \<and>
         s_value (st_y st') = b + zero_offset (s_zeroV (st_y st)) \<and>
         s_y (st_x st') = Some (T (s_value (st_y st))) \<and>
         evs = DataEvent (a + zero_offset (s_zeroV (st_x st))) (b + zero_offset (s_zeroV (st_y st))) #
           (if T (a + zero_offset (s_zeroV (st_x st))) \<noteq> T (s_value (st_x st)) \<or>
               T (b + zero_offset (s_zeroV (st_y st))) \<noteq> T (s_value (st_y st)) \<or>
               s_y (st_x st) \<noteq> Some (T (s_value (st_y st)))
            then [ChangeEvent (a + zero_offset (s_zeroV (st_x st))) (b + zero_offset (s_zeroV (st_y st)))]
            else [])"
  using assms by (auto simp: on_data_xy settled_def Let_def)

theorem change_detection_witness:
  "\<exists>st' evs. settled default_toAxis two_samples_state \<and>
     on_data default_toAxis [(''x'', 0), (''y'', 6)] two_samples_state = Inr (st', evs) \<and>
     settled default_toAxis st' \<and> s_value (st_x st') = 0 \<and> s_value (st_y st') = 6 \<and>
     evs = [DataEvent 0 6, ChangeEvent 0 6]"
proof -
  obtain st' evs where h: "on_data default_toAxis [(''x'', 0), (''y'', 6)] two_samples_state = Inr (st', evs)"
    by (simp add: on_data_xy Let_def)
  have z: "s_zeroV (st_x two_samples_state) = None" "s_zeroV (st_y two_samples_state) = None"
    "s_value (st_x two_samples_state) = 0" "s_value (st_y two_samples_state) = 5"
    "s_y (st_x two_samples_state) = Some (default_toAxis 0)"
    by (simp_all add: two_samples_state_def initial_sensor_def)
  have "settled default_toAxis st' \<and>
        s_value (st_x st') = 0 + zero_offset (s_zeroV (st_x two_samples_state)) \<and>
        s_value (st_y st') = 6 + zero_offset (s_zeroV (st_y two_samples_state)) \<and>
        s_y (st_x st') = Some (default_toAxis (s_value (st_y two_samples_state))) \<and>
        evs = DataEvent (0 + zero_offset (s_zeroV (st_x two_samples_state))) (6 + zero_offset (s_zeroV (st_y two_samples_state))) #
          (if default_toAxis (0 + zero_offset (s_zeroV (st_x two_samples_state))) \<noteq> default_toAxis (s_value (st_x two_samples_state)) \<or>
              default_toAxis (6 + zero_offset (s_zeroV (st_y two_samples_state))) \<noteq> default_toAxis (s_value (st_y two_samples_state)) \<or>
              s_y (st_x two_samples_state) \<noteq> Some (default_toAxis (s_value (st_y two_samples_state)))
           then [ChangeEvent (0 + zero_offset (s_zeroV (st_x two_samples_state))) (6 + zero_offset (s_zeroV (st_y two_samples_state)))]
           else [])"
    by (rule change_detection [OF two_samples_state_settled h])
  then have "settled default_toAxis st' \<and> s_value (st_x st') = 0 \<and> s_value (st_y st') = 6 \<and>
             evs = [DataEvent 0 6, ChangeEvent 0 6]"
    using z by (simp add: zero_offset_def default_toAxis_eq)
  then show ?thesis using two_samples_state_settled h by blast
qed

text \<open>
  Claim C2. A sample identical to the stored one still raises "change" when the
  previous sample changed y: the comparison against the x sensor's cached y looks
  one sample further back. The sequence {0, 0}, {0, 5}, {0, 5} reports a change on
  its third, unchanged sample.
\<close>

theorem repeated_sample_reports_change:
  assumes "settled T st" and "s_zeroV (st_x st) = None" and "s_zeroV (st_y st) = None"
    and "s_y (st_x st) \<noteq> Some (T (s_value (st_y st)))"
  shows "\<exists>st'. on_data T [(''x'', s_value (st_x st)), (''y'', s_value (st_y st))] st =
           Inr (st', [DataEvent (s_value (st_x st)) (s_value (st_y st)),
                      ChangeEvent (s_value (st_x st)) (s_value (st_y st))])"
  using assms by (simp add: on_data_xy settled_def zero_offset_def Let_def)

theorem repeated_sample_reports_change_witness:
  "(\<exists>st1 evs1 evs2. on_data default_toAxis [(''x'', 0), (''y'', 0)] initial_state = Inr (st1, evs1) \<and>
      on_data default_toAxis [(''x'', 0), (''y'', 5)] st1 = Inr (two_samples_state, evs2)) \<and>
   (\<exists>st'. on_data default_toAxis [(''x'', 0), (''y'', 5)] two_samples_state =
      Inr (st', [DataEvent 0 5, ChangeEvent 0 5]))"
proof
  show "\<exists>st1 evs1 evs2. on_data default_toAxis [(''x'', 0), (''y'', 0)] initial_state = Inr (st1, evs1) \<and>
      on_data default_toAxis [(''x'', 0), (''y'', 5)] st1 = Inr (two_samples_state, evs2)"
    by (rule two_samples_state_reached)
  have "s_y (st_x two_samples_state) \<noteq> Some (default_toAxis (s_value (st_y two_samples_state)))"
    by (simp add: two_samples_state_def initial_sensor_def default_toAxis_eq)
  then show "\<exists>st'. on_data default_toAxis [(''x'', 0), (''y'', 5)] two_samples_state =
      Inr (st', [DataEvent 0 5, ChangeEvent 0 5])"
    using repeated_sample_reports_change [OF two_samples_state_settled]
    by (simp add: two_samples_state_def initial_sensor_def)
qed

text \<open>
  Claim C9. The "data" event carries the stored raw values (reading plus zero
  offset), not the transformed axes, whatever \<open>toAxis\<close> is.
\<close>

theorem data_event_untransformed:
  "\<exists>st' rest. on_data T [(''x'', a), (''y'', b)] st =
     Inr (st', DataEvent (a + zero_offset (s_zeroV (st_x st))) (b + zero_offset (s_zeroV (st_y st))) # rest)"
  by (simp add: on_data_xy Let_def)

text \<open>
  Claim C10. ANALOG with three pins (as the constructor's comment
  \<open>[x, y[, z]]\<close> invites): once the third pin and then the first have reported, the
  emitted object has a property "undefined", and the handler throws a TypeError.
\<close>

theorem third_pin_throws:
  assumes "opt_controller opts = None" and "length (opt_pins opts) = 3"
  shows "\<exists>j'. joystick_run [PinReport 2 v, PinReport 0 w] (fst (new_joystick opts)) =
           Inl (TypeError ''Cannot read property zeroV of undefined'', j')"
proof -
  have a1: "analog_on_read 2 v analog_initial =
      (\<lparr>a_count = Suc 0, a_points = [(''x'', 0), (''y'', 0), (''undefined'', v)]\<rparr>, None)"
    by (simp add: analog_on_read_def analog_initial_def initial_points_def)
  have a2: "analog_on_read 0 w \<lparr>a_count = Suc 0, a_points = [(''x'', 0), (''y'', 0), (''undefined'', v)]\<rparr> =
      (\<lparr>a_count = 0, a_points = [(''x'', w), (''y'', 0), (''undefined'', v)]\<rparr>,
       Some [(''x'', w), (''y'', 0), (''undefined'', v)])"
    by (simp add: analog_on_read_def Let_def)
  obtain st' where h: "handle_axes default_toAxis [(''x'', w), (''y'', 0), (''undefined'', v)] (initial_state, False) =
      Inl (TypeError ''Cannot read property zeroV of undefined'', st')"
    using handle_axes_undefined by blast
  show ?thesis
    using assms by (simp add: new_joystick_analog a1 a2 deliver_def on_data_def h del: handle_axes.simps)
qed

theorem third_pin_throws_witness:
  "\<exists>j'. joystick_run [PinReport 2 100, PinReport 0 512] (fst (new_joystick three_pin_options)) =
     Inl (TypeError ''Cannot read property zeroV of undefined'', j')"
  by (rule third_pin_throws) (simp_all add: three_pin_options_def)

subsection \<open>Properties of the constructor\<close>

text \<open>
  Claim C11. With a built-in controller the joystick's \<open>toAxis\<close> is the built-in
  rescaling, whatever \<open>opts.toAxis\<close> says: a caller's transform is ignored.
\<close>

theorem builtin_ignores_toAxis_option:
  assumes "resolve_controller (opt_controller opts) \<in> {Analog, Esplora}"
  shows "j_toAxis (fst (new_joystick opts)) = default_toAxis"
  using assms by (auto simp: new_joystick_def resolve_toAxis_def Let_def split_def split: controller.splits)

theorem builtin_ignores_toAxis_option_witness:
  "resolve_controller (opt_controller \<lparr>opt_pins = [PinName ''A0'', PinName ''A1''], opt_controller = None,
      opt_toAxis = Some (\<lambda>r. r)\<rparr>) \<in> {Analog, Esplora} \<and>
   j_toAxis (fst (new_joystick \<lparr>opt_pins = [PinName ''A0'', PinName ''A1''], opt_controller = None,
      opt_toAxis = Some (\<lambda>r. r)\<rparr>)) = default_toAxis"
  using builtin_ignores_toAxis_option [of "\<lparr>opt_pins = [PinName ''A0'', PinName ''A1''], opt_controller = None,
      opt_toAxis = Some (\<lambda>r. r)\<rparr>"]
  by (simp add: resolve_controller_def)

text \<open>
  Claim C12. The built-in \<open>toAxis\<close> is \<open>raw / 512 - 1\<close>: it maps the sensor range
  [0, 1024] into [-1, 1], with 512 at 0, 0 at -1 and 1023 rounding to 1.
\<close>

theorem toAxis_range:
  assumes "0 \<le> raw" and "raw \<le> 1024"
  shows "-1 \<le> default_toAxis raw \<and> default_toAxis raw \<le> 1 \<and> default_toAxis raw = raw / 512 - 1"
  using assms by (simp add: default_toAxis_eq)

theorem toAxis_range_witness:
  "default_toAxis 512 = 0 \<and> default_toAxis 0 = -1 \<and> round (default_toAxis 1023) = 1 \<and>
   -1 \<le> default_toAxis 1023 \<and> default_toAxis 1023 \<le> 1"
  using toAxis_range [of 1023] by (simp add: default_toAxis_eq round_def)

text \<open>
  Claim C13. A controller given as the empty string is kept as it is (the string is
  falsy) and defines neither \<open>initialize\<close> nor \<open>toAxis\<close>: the joystick makes no
  \<open>io\<close> call and no callback ever changes it or emits an event.
\<close>

theorem empty_controller_name_inert:
  "j_pipe (fst (new_joystick (opts\<lparr>opt_controller := Some (ControllerName '''')\<rparr>))) = NoPipe \<and>
   snd (new_joystick (opts\<lparr>opt_controller := Some (ControllerName '''')\<rparr>)) = [] \<and>
   joystick_run is (fst (new_joystick (opts\<lparr>opt_controller := Some (ControllerName '''')\<rparr>))) =
     Inr (fst (new_joystick (opts\<lparr>opt_controller := Some (ControllerName '''')\<rparr>)), [], [])"
  by (simp add: new_joystick_def resolve_controller_def joystick_run_NoPipe Let_def)

text \<open>
  Claim C14. A non-empty controller name that is not ANALOG or ESPLORA in any case
  (a misspelling) silently selects the ANALOG controller.
\<close>

theorem unknown_controller_name_is_analog:
  assumes "s \<noteq> []" and "js_upper s \<noteq> ''ANALOG''" and "js_upper s \<noteq> ''ESPLORA''"
  shows "resolve_controller (Some (ControllerName s)) = Analog"
  using assms by (simp add: resolve_controller_def controller_table_def)

theorem unknown_controller_name_is_analog_witness:
  "''espora'' \<noteq> [] \<and> js_upper ''espora'' \<noteq> ''ANALOG'' \<and> js_upper ''espora'' \<noteq> ''ESPLORA'' \<and>
   resolve_controller (Some (ControllerName ''espora'')) = Analog"
  using unknown_controller_name_is_analog [of "''espora''"]
  by (simp add: js_upper_def js_upper_char_def char_of_def bit_0)

end
