(* ===== verification/ESC.thy ===== *)
theory ESC
  imports J5_Prelude
begin

text \<open>
  The electronic speed controller (\<open>lib/esc.js\<close>, which is not among the sources
  under \<open>src/\<close>; the model follows spec sections 3, 4.1, 4.2 and 7 and the
  expectations of \<open>src/test/esc.js\<close>). One ESC is a record; \<open>speed\<close> clamps its
  target and, unless the target repeats the last committed speed, either writes it
  at once (the first command, as the tests expect) or replaces the ramp by a fresh
  interval handle; each firing of the interval moves the current value one unit
  toward the target and writes it through the output driver (a servo write, or a
  PCA9685 register frame over I2C, which \<open>pca9685_decode\<close> reads back as the chip
  does). Interval handles are numbers drawn from a counter that the caller threads
  through (\<open>next_timer\<close>), so that ramp identity can be compared. The directional
  wrapper maps \<open>forward\<close>/\<open>reverse\<close> of a FORWARD_REVERSE ESC onto \<open>speed\<close> around
  the neutral point (other ESCs ignore them); \<open>brake\<close> is one direct write.
\<close>

datatype esc_variant = DEFAULT | PCA9685 | FORWARD_REVERSE

datatype esc_error =
    ConfigurationError string
  | NoSuchESC nat
  | UndefinedNeutral nat
  | NoESCOnPin nat

record esc =
  esc_id :: nat
  esc_pin :: nat
  esc_range :: "number \<times> number"
  esc_pwmRange :: "number \<times> number"
  esc_variant :: esc_variant
  esc_address :: nat
  esc_neutral :: "number option"
  esc_startAt :: "number option"
  esc_current :: number
  esc_value :: number
  esc_last_speed :: "number option"
  esc_last_value :: "number option"
  esc_ramp :: "nat option"

definition range_lo :: "esc \<Rightarrow> number" where
  "range_lo e = fst (esc_range e)"

definition range_hi :: "esc \<Rightarrow> number" where
  "range_hi e = snd (esc_range e)"

subsection \<open>Output drivers\<close>

text \<open>Normalised value to device value: \<open>lo + v * (hi - lo) / 100\<close>, not rounded.\<close>

definition pwm_value :: "esc \<Rightarrow> number \<Rightarrow> number" where
  "pwm_value e v =
     fst (esc_pwmRange e) + v * (snd (esc_pwmRange e) - fst (esc_pwmRange e)) / 100"

text \<open>
  PCA9685: the pulse width in microseconds is turned into a count of the 12-bit
  counter at 4 microseconds per count, truncated, and sent as the register frame
  \<open>[LED0_ON_L + 4 * channel, onLow, onHigh, offLow, offHigh]\<close> with \<open>on = 0\<close>.
  Each byte is the low 8 bits of the number written (the bus transports bytes).
\<close>

definition pca9685_counts :: "number \<Rightarrow> nat" where
  "pca9685_counts pwm = nat \<lfloor>pwm / 4\<rfloor>"

definition pca9685_frame :: "nat \<Rightarrow> nat \<Rightarrow> 8 word list" where
  "pca9685_frame channel off =
     (let on = (0::nat)
      in [word_of_nat (channel * 4 + 6), word_of_nat on, word_of_nat (on div 256),
          word_of_nat off, word_of_nat (off div 256)])"

definition esc_write :: "esc \<Rightarrow> number \<Rightarrow> io_event list" where
  "esc_write e v =
     (case esc_variant e of
        PCA9685 \<Rightarrow> [I2CWrite (esc_address e) (pca9685_frame (esc_pin e) (pca9685_counts (pwm_value e v)))]
      | _ \<Rightarrow> [ServoWrite (PinNum (esc_pin e)) (pwm_value e v)])"

text \<open>
  How the PCA9685 reads such a frame: the first byte selects the register
  \<open>LED0_ON_L + 4 * channel\<close>, and with auto-increment the next four bytes are the
  on and off counts of that channel, low byte first.
\<close>

definition pca9685_decode :: "8 word list \<Rightarrow> (nat \<times> nat \<times> nat) option" where
  "pca9685_decode frame =
     (case frame of
        [reg, onL, onH, offL, offH] \<Rightarrow>
          if 6 \<le> unat reg \<and> (unat reg - 6) mod 4 = 0
          then Some ((unat reg - 6) div 4, unat onL + 256 * unat onH, unat offL + 256 * unat offH)
          else None
      | _ \<Rightarrow> None)"

subsection \<open>The speed ramp\<close>

text \<open>One unit toward the target, never past it.\<close>

definition step_toward :: "number \<Rightarrow> number \<Rightarrow> number" where
  "step_toward c t = (if \<bar>t - c\<bar> \<le> 1 then t else if c < t then c + 1 else c - 1)"

text \<open>
  \<open>speed(target)\<close>: clamp; a repeat of the last committed speed is a no-op;
  otherwise cancel the ramp and commit the target. The very first command (nothing
  committed yet) is written directly through the output driver, as the tests of
  \<open>src/test/esc.js\<close> expect (one write for \<open>speed(1)\<close> on a fresh ESC, the frame of
  10 first for \<open>speed(10)\<close> on the PCA9685); every later command starts a new ramp
  (a fresh handle) unless the current value already is the target. Returns the ESC,
  the next free handle and the writes made synchronously.
\<close>

definition esc_speed :: "number \<Rightarrow> esc \<Rightarrow> nat \<Rightarrow> esc \<times> nat \<times> io_event list" where
  "esc_speed v e next_timer =
     (let t = constrain v (range_lo e) (range_hi e) in
      if esc_last_speed e = Some t then (e, next_timer, [])
      else
        let e1 = e\<lparr>esc_ramp := None, esc_value := t, esc_last_speed := Some t\<rparr>
        in if esc_last_speed e = None
           then (e1\<lparr>esc_current := t, esc_last_value := Some t\<rparr>, next_timer, esc_write e t)
           else if esc_current e = t then (e1, next_timer, [])
           else (e1\<lparr>esc_ramp := Some next_timer\<rparr>, Suc next_timer, []))"

text \<open>One firing of the ramp's interval: step, write, and stop at the target.\<close>

definition esc_tick :: "esc \<Rightarrow> esc \<times> io_event list" where
  "esc_tick e =
     (case esc_ramp e of
        None \<Rightarrow> (e, [])
      | Some _ \<Rightarrow>
          let c = step_toward (esc_current e) (esc_value e)
          in (e\<lparr>esc_current := c, esc_last_value := Some c,
                esc_ramp := (if c = esc_value e then None else esc_ramp e)\<rparr>,
              esc_write e c))"

fun esc_ticks :: "nat \<Rightarrow> esc \<Rightarrow> esc \<times> io_event list" where
  "esc_ticks 0 e = (e, [])"
| "esc_ticks (Suc n) e =
     (let (e1, io1) = esc_tick e; (e2, io2) = esc_ticks n e1 in (e2, io1 @ io2))"

text \<open>The number of firings the current ramp still needs.\<close>

definition ramp_steps :: "esc \<Rightarrow> nat" where
  "ramp_steps e = nat \<lceil>\<bar>esc_value e - esc_current e\<bar>\<rceil>"

subsection \<open>Directional wrapper and brake\<close>

text \<open>
  \<open>forward(s)\<close> and \<open>reverse(s)\<close> of a FORWARD_REVERSE device: 0 means neutral,
  otherwise \<open>s\<close> in [0, 100] is scaled from the neutral point toward the top
  (forward) or the bottom (reverse) of the range. The spec defines the wrapper for
  FORWARD_REVERSE devices only; on other devices the calls do nothing
  (\<open>Inr None\<close>). A FORWARD_REVERSE device without a neutral point has no target to
  scale from (JavaScript would compute with \<open>undefined\<close>); the model stops with
  \<open>UndefinedNeutral\<close>, a state that construction never lets arise.
\<close>

definition direction_target :: "bool \<Rightarrow> number \<Rightarrow> esc \<Rightarrow> esc_error + number option" where
  "direction_target fwd s e =
     (case esc_variant e of
        FORWARD_REVERSE \<Rightarrow>
          (case esc_neutral e of
             None \<Rightarrow> Inl (UndefinedNeutral (esc_id e))
           | Some n \<Rightarrow> Inr (Some (if s = 0 then n else fscale s 0 100 n (if fwd then range_hi e else range_lo e))))
      | _ \<Rightarrow> Inr None)"

definition esc_forward :: "number \<Rightarrow> esc \<Rightarrow> nat \<Rightarrow> esc_error + (esc \<times> nat \<times> io_event list)" where
  "esc_forward s e next_timer =
     (case direction_target True s e of
        Inl err \<Rightarrow> Inl err
      | Inr None \<Rightarrow> Inr (e, next_timer, [])
      | Inr (Some t) \<Rightarrow> Inr (esc_speed t e next_timer))"

definition esc_reverse :: "number \<Rightarrow> esc \<Rightarrow> nat \<Rightarrow> esc_error + (esc \<times> nat \<times> io_event list)" where
  "esc_reverse s e next_timer =
     (case direction_target False s e of
        Inl err \<Rightarrow> Inl err
      | Inr None \<Rightarrow> Inr (e, next_timer, [])
      | Inr (Some t) \<Rightarrow> Inr (esc_speed t e next_timer))"

text \<open>\<open>brake()\<close>: one synchronous write of the neutral point (0 without one).\<close>

definition esc_brake :: "esc \<Rightarrow> io_event list" where
  "esc_brake e = esc_write e (case esc_neutral e of None \<Rightarrow> 0 | Some n \<Rightarrow> n)"

subsection \<open>Construction\<close>

record esc_options =
  o_pin :: nat
  o_range :: "(number \<times> number) option"
  o_pwmRange :: "(number \<times> number) option"
  o_variant :: esc_variant
  o_address :: "nat option"
  o_neutral :: "number option"
  o_startAt :: "number option"

text \<open>
  Default device ranges: the direct write gets the servo domain [0, 180]
  (\<open>src/test/esc.js\<close> expects 18 for speed 10 and 90 for the neutral 50); the
  PCA9685 gets pulse widths [544, 2400] microseconds (which gives the spec's frame
  \<open>[6, 0, 0, 182, 0]\<close> for speed 10).
\<close>

definition default_pwmRange :: "esc_variant \<Rightarrow> number \<times> number" where
  "default_pwmRange v = (case v of PCA9685 \<Rightarrow> (544, 2400) | _ \<Rightarrow> (0, 180))"

definition esc_of_options :: "nat \<Rightarrow> esc_options \<Rightarrow> esc" where
  "esc_of_options i opts =
     (let r = (case o_range opts of None \<Rightarrow> (0, 100) | Some r \<Rightarrow> r);
          c0 = constrain 0 (fst r) (snd r)
      in \<lparr>esc_id = i, esc_pin = o_pin opts, esc_range = r,
          esc_pwmRange = (case o_pwmRange opts of None \<Rightarrow> default_pwmRange (o_variant opts) | Some p \<Rightarrow> p),
          esc_variant = o_variant opts,
          esc_address = (case o_address opts of None \<Rightarrow> 64 | Some a \<Rightarrow> a),
          esc_neutral = o_neutral opts,
          esc_startAt = (if o_variant opts = FORWARD_REVERSE \<and> o_startAt opts = None
                         then o_neutral opts else o_startAt opts),
          esc_current = c0, esc_value = c0, esc_last_speed = None, esc_last_value = None,
          esc_ramp = None\<rparr>)"

subsection \<open>The setups of the ESC tests\<close>

text \<open>\<open>new ESC({pin: 12, board})\<close> (\<open>src/test/esc.js\<close>, setUp of "ESC").\<close>

definition test_esc_options :: esc_options where
  "test_esc_options = \<lparr>o_pin = 12, o_range = None, o_pwmRange = None, o_variant = DEFAULT,
     o_address = None, o_neutral = None, o_startAt = None\<rparr>"

text \<open>\<open>new ESC({pin: 0, controller: "PCA9685", address: 0x40})\<close>.\<close>

definition test_pca_options :: esc_options where
  "test_pca_options = \<lparr>o_pin = 0, o_range = None, o_pwmRange = None, o_variant = PCA9685,
     o_address = Some 64, o_neutral = None, o_startAt = None\<rparr>"

text \<open>\<open>new ESC({device: "FORWARD_REVERSE", neutral: 50, pin: 11})\<close>.\<close>

definition test_fr_options :: esc_options where
  "test_fr_options = \<lparr>o_pin = 11, o_range = None, o_pwmRange = None, o_variant = FORWARD_REVERSE,
     o_address = None, o_neutral = Some 50, o_startAt = None\<rparr>"

text \<open>The "range" test overwrites \<open>esc.range\<close> with [50, 60] after construction.\<close>

definition test_range_esc :: esc where
  "test_range_esc = (esc_of_options 0 test_esc_options)\<lparr>esc_range := (50, 60)\<rparr>"

subsection \<open>Well-formedness\<close>

text \<open>
  What every reachable ESC keeps: current value and target lie in the clamping
  interval of the range (\<open>[min lo hi, hi]\<close>, which is \<open>[lo, hi]\<close> for a proper
  range), a ramp is running exactly when the current value is not yet the target,
  and the last committed speed, once there is one, is the target.
\<close>

definition esc_wf :: "esc \<Rightarrow> bool" where
  "esc_wf e \<longleftrightarrow>
     min (range_lo e) (range_hi e) \<le> esc_current e \<and> esc_current e \<le> range_hi e \<and>
     min (range_lo e) (range_hi e) \<le> esc_value e \<and> esc_value e \<le> range_hi e \<and>
     (esc_ramp e = None \<longleftrightarrow> esc_current e = esc_value e) \<and>
     (\<forall>t. esc_last_speed e = Some t \<longrightarrow> t = esc_value e)"

subsection \<open>Lemmas on speed and the ramp\<close>

lemma constrain_in_range: "min lo hi \<le> constrain v lo hi \<and> constrain v lo hi \<le> hi"
  by (simp add: constrain_def)

lemma step_toward_between:
  "min c t \<le> step_toward c t \<and> step_toward c t \<le> max c t"
  by (auto simp: step_toward_def abs_if)

lemma esc_tick_state:
  "fst (esc_tick e) =
     (case esc_ramp e of
        None \<Rightarrow> e
      | Some _ \<Rightarrow> e\<lparr>esc_current := step_toward (esc_current e) (esc_value e),
                    esc_last_value := Some (step_toward (esc_current e) (esc_value e)),
                    esc_ramp := (if step_toward (esc_current e) (esc_value e) = esc_value e
                                 then None else esc_ramp e)\<rparr>)"
  by (cases "esc_ramp e") (simp_all add: esc_tick_def Let_def)

lemma esc_tick_frame [simp]:
  "esc_value (fst (esc_tick e)) = esc_value e"
  "esc_range (fst (esc_tick e)) = esc_range e"
  "esc_last_speed (fst (esc_tick e)) = esc_last_speed e"
  "esc_pin (fst (esc_tick e)) = esc_pin e"
  "esc_address (fst (esc_tick e)) = esc_address e"
  "esc_pwmRange (fst (esc_tick e)) = esc_pwmRange e"
  "esc_variant (fst (esc_tick e)) = esc_variant e"
  "esc_neutral (fst (esc_tick e)) = esc_neutral e"
  by (cases "esc_ramp e"; simp add: esc_tick_state)+

lemma esc_write_tick [simp]: "esc_write (fst (esc_tick e)) = esc_write e"
  by (rule ext) (simp add: esc_write_def pwm_value_def cong: esc_variant.case_cong)

lemma esc_speed_wf: "esc_wf e \<Longrightarrow> esc_wf (fst (esc_speed v e h))"
  using constrain_in_range [of "range_lo e" "range_hi e" v]
  by (auto simp: esc_wf_def esc_speed_def Let_def range_lo_def range_hi_def)

lemma esc_tick_wf: "esc_wf e \<Longrightarrow> esc_wf (fst (esc_tick e))"
proof (cases "esc_ramp e")
  case None
  then show "esc_wf e \<Longrightarrow> esc_wf (fst (esc_tick e))" by (simp add: esc_tick_state)
next
  case (Some h)
  have "min (esc_current e) (esc_value e) \<le> step_toward (esc_current e) (esc_value e) \<and>
        step_toward (esc_current e) (esc_value e) \<le> max (esc_current e) (esc_value e)"
    by (rule step_toward_between)
  with Some show "esc_wf e \<Longrightarrow> esc_wf (fst (esc_tick e))"
    by (auto simp: esc_wf_def esc_tick_state range_lo_def range_hi_def)
qed

lemma length_esc_write [simp]: "length (esc_write e v) = 1"
  by (simp add: esc_write_def split: esc_variant.splits)

lemma ceiling_unit: "0 < x \<Longrightarrow> x \<le> 1 \<Longrightarrow> \<lceil>x::real\<rceil> = 1"
  by (simp add: ceiling_eq_iff)

lemma ramp_steps_tick:
  assumes "esc_wf e" and "esc_ramp e \<noteq> None"
  shows "0 < ramp_steps e \<and> ramp_steps (fst (esc_tick e)) = ramp_steps e - 1"
proof -
  let ?c = "esc_current e" and ?t = "esc_value e"
  have ne: "?c \<noteq> ?t" using assms by (simp add: esc_wf_def)
  show ?thesis
  proof (cases "\<bar>?t - ?c\<bar> \<le> 1")
    case True
    have "0 < \<bar>?t - ?c\<bar>" using ne by simp
    with True have "ramp_steps e = 1" by (simp add: ramp_steps_def ceiling_unit)
    moreover have "ramp_steps (fst (esc_tick e)) = 0"
      using True assms(2) by (auto simp: esc_tick_state step_toward_def ramp_steps_def)
    ultimately show ?thesis by simp
  next
    case False
    then have d: "\<bar>?t - step_toward ?c ?t\<bar> = \<bar>?t - ?c\<bar> - 1"
      by (auto simp: step_toward_def)
    have "\<lceil>\<bar>?t - ?c\<bar> - 1\<rceil> = \<lceil>\<bar>?t - ?c\<bar>\<rceil> - 1"
      by (simp add: ceiling_diff_one)
    moreover have "1 < \<lceil>\<bar>?t - ?c\<bar>\<rceil>" using False by (simp add: less_ceiling_iff)
    ultimately show ?thesis
      using assms(2) d by (auto simp: esc_tick_state ramp_steps_def nat_diff_distrib)
  qed
qed

lemma esc_ticks_Suc:
  "esc_ticks (Suc n) e =
     (fst (esc_ticks n (fst (esc_tick e))), snd (esc_tick e) @ snd (esc_ticks n (fst (esc_tick e))))"
  by (simp add: split_def Let_def)

declare esc_ticks.simps(2) [simp del] esc_ticks_Suc [simp]


lemma esc_wf_ticks: "esc_wf e \<Longrightarrow> esc_wf (fst (esc_ticks n e))"
  by (induction n arbitrary: e) (simp_all add: esc_tick_wf)

lemma ramp_steps_zero: "esc_wf e \<Longrightarrow> ramp_steps e = 0 \<Longrightarrow> esc_ramp e = None"
  by (auto simp: esc_wf_def ramp_steps_def)

lemma length_esc_tick_io: "esc_ramp e \<noteq> None \<Longrightarrow> length (snd (esc_tick e)) = 1"
  by (auto simp: esc_tick_def Let_def)

lemma ramp_run:
  assumes "esc_wf e" and "ramp_steps e = n"
  shows "esc_ramp (fst (esc_ticks n e)) = None \<and> esc_current (fst (esc_ticks n e)) = esc_value e \<and>
         length (snd (esc_ticks n e)) = n \<and> (\<forall>k < n. esc_ramp (fst (esc_ticks k e)) \<noteq> None)"
  using assms
proof (induction n arbitrary: e)
  case 0
  then have "esc_ramp e = None" by (simp add: ramp_steps_zero)
  with "0.prems"(1) show ?case by (simp add: esc_wf_def)
next
  case (Suc n)
  have r: "esc_ramp e \<noteq> None" using Suc.prems by (auto simp: esc_wf_def ramp_steps_def)
  have st: "0 < ramp_steps e \<and> ramp_steps (fst (esc_tick e)) = ramp_steps e - 1"
    using Suc.prems(1) r by (rule ramp_steps_tick)
  have wf1: "esc_wf (fst (esc_tick e))" using Suc.prems(1) by (rule esc_tick_wf)
  have IH: "esc_ramp (fst (esc_ticks n (fst (esc_tick e)))) = None \<and>
      esc_current (fst (esc_ticks n (fst (esc_tick e)))) = esc_value (fst (esc_tick e)) \<and>
      length (snd (esc_ticks n (fst (esc_tick e)))) = n \<and>
      (\<forall>k < n. esc_ramp (fst (esc_ticks k (fst (esc_tick e)))) \<noteq> None)"
    using Suc.IH [OF wf1] st Suc.prems(2) by simp
  have "\<forall>k < Suc n. esc_ramp (fst (esc_ticks k e)) \<noteq> None"
  proof (intro allI impI)
    fix k assume "k < Suc n"
    then show "esc_ramp (fst (esc_ticks k e)) \<noteq> None"
      using IH r by (cases k) simp_all
  qed
  with IH r show ?case by (simp add: length_esc_tick_io)
qed

lemma step_toward_up: "c < t \<Longrightarrow> t - c = 1 + of_nat n \<Longrightarrow> step_toward c t = c + 1"
  by (auto simp: step_toward_def)

lemma ramp_writes_up:
  assumes "esc_wf e" and "esc_value e = esc_current e + of_nat n"
  shows "snd (esc_ticks n e) = concat (map (\<lambda>k. esc_write e (esc_current e + of_nat (Suc k))) [0..<n])"
  using assms
proof (induction n arbitrary: e)
  case 0
  then show ?case by simp
next
  case (Suc n)
  let ?c = "esc_current e"
  have r: "esc_ramp e \<noteq> None" using Suc.prems by (auto simp: esc_wf_def)
  have s: "step_toward ?c (esc_value e) = ?c + 1"
    using Suc.prems(2) by (intro step_toward_up) simp_all
  have c1: "esc_current (fst (esc_tick e)) = ?c + 1"
    using r s by (auto simp: esc_tick_state)
  have io1: "snd (esc_tick e) = esc_write e (?c + 1)"
    using r s by (auto simp: esc_tick_def Let_def)
  have "snd (esc_ticks n (fst (esc_tick e))) =
        concat (map (\<lambda>k. esc_write e (?c + 1 + of_nat (Suc k))) [0..<n])"
    using Suc.IH [OF esc_tick_wf [OF Suc.prems(1)]] Suc.prems(2) c1 by simp
  then show ?case
    by (simp add: io1 map_upt_Suc del: upt_Suc) (simp add: algebra_simps)
qed

lemma esc_speed_dup:
  "esc_last_speed e = Some (constrain v (range_lo e) (range_hi e)) \<Longrightarrow> esc_speed v e h = (e, h, [])"
  by (simp add: esc_speed_def)

lemma esc_speed_first:
  assumes "esc_last_speed e = None"
  shows "esc_speed v e h =
           (e\<lparr>esc_ramp := None, esc_value := constrain v (range_lo e) (range_hi e),
               esc_last_speed := Some (constrain v (range_lo e) (range_hi e)),
               esc_current := constrain v (range_lo e) (range_hi e),
               esc_last_value := Some (constrain v (range_lo e) (range_hi e))\<rparr>,
            h, esc_write e (constrain v (range_lo e) (range_hi e)))"
  using assms by (simp add: esc_speed_def Let_def)

lemma esc_speed_new:
  assumes "esc_last_speed e \<noteq> Some (constrain v (range_lo e) (range_hi e))" and "esc_last_speed e \<noteq> None"
  shows "esc_value (fst (esc_speed v e h)) = constrain v (range_lo e) (range_hi e) \<and>
         esc_last_speed (fst (esc_speed v e h)) = Some (constrain v (range_lo e) (range_hi e)) \<and>
         esc_current (fst (esc_speed v e h)) = esc_current e \<and> snd (snd (esc_speed v e h)) = [] \<and>
         (if esc_current e = constrain v (range_lo e) (range_hi e)
          then esc_ramp (fst (esc_speed v e h)) = None \<and> fst (snd (esc_speed v e h)) = h
          else esc_ramp (fst (esc_speed v e h)) = Some h \<and> fst (snd (esc_speed v e h)) = Suc h)"
  using assms by (auto simp: esc_speed_def Let_def)

lemma pca9685_decode_frame:
  assumes "channel < 16" and "off < 65536"
  shows "pca9685_decode (pca9685_frame channel off) = Some (channel, 0, off)"
proof -
  have r: "unat (word_of_nat (channel * 4 + 6) :: 8 word) = channel * 4 + 6"
    using assms(1) by (simp only: unat_of_nat) simp
  have z: "unat (word_of_nat (0 div 256) :: 8 word) = 0" "unat (word_of_nat 0 :: 8 word) = 0"
    by simp_all
  have hi: "unat (word_of_nat (off div 256) :: 8 word) = off div 256"
    using assms(2) by (simp only: unat_of_nat) simp
  have lo: "unat (word_of_nat off :: 8 word) = off mod 256" by (simp only: unat_of_nat) simp
  have "pca9685_decode (pca9685_frame channel off) =
          (if 6 \<le> channel * 4 + 6 \<and> (channel * 4 + 6 - 6) mod 4 = 0
           then Some ((channel * 4 + 6 - 6) div 4, 0 + 256 * 0, off mod 256 + 256 * (off div 256))
           else None)"
    by (simp only: pca9685_decode_def pca9685_frame_def Let_def list.case r z hi lo)
  then show ?thesis by simp
qed

lemma pca9685_counts_bounds:
  assumes "0 \<le> pwm"
  shows "4 * real (pca9685_counts pwm) \<le> pwm \<and> pwm < 4 * real (pca9685_counts pwm) + 4"
proof -
  have "0 \<le> \<lfloor>pwm / 4\<rfloor>" using assms by simp
  then have c: "real (pca9685_counts pwm) = of_int \<lfloor>pwm / 4\<rfloor>" by (simp add: pca9685_counts_def)
  have "of_int \<lfloor>pwm / 4\<rfloor> \<le> pwm / 4" and "pwm / 4 < of_int \<lfloor>pwm / 4\<rfloor> + 1" by linarith+
  then show ?thesis unfolding c by linarith
qed

lemma pca9685_counts_12bit:
  assumes "pwm < 16384"
  shows "pca9685_counts pwm < 4096"
proof -
  have "\<lfloor>pwm / 4\<rfloor> < 4096" using assms by (simp add: floor_less_iff)
  then have "nat \<lfloor>pwm / 4\<rfloor> < 4096" by linarith
  then show ?thesis by (simp only: pca9685_counts_def)
qed

subsection \<open>Properties of the ramp\<close>


text \<open>
  Claim C16. From any well-formed ESC the ramp ends: after exactly
  \<open>ramp_steps\<close> firings (the distance to the target, rounded up) the handle is
  cleared, the current value equals the committed target, and one write was made per
  firing; before that the ramp is still running.
\<close>

theorem ramp_converges:
  assumes "esc_wf e"
  shows "esc_ramp (fst (esc_ticks (ramp_steps e) e)) = None \<and>
         esc_current (fst (esc_ticks (ramp_steps e) e)) = esc_value e \<and>
         length (snd (esc_ticks (ramp_steps e) e)) = ramp_steps e \<and>
         (\<forall>k < ramp_steps e. esc_ramp (fst (esc_ticks k e)) \<noteq> None)"
  using ramp_run [OF assms refl] .

text \<open>The "constrainSpeed" test: \<open>speed(1)\<close>, \<open>speed(1000)\<close> make 1 + 99 = 100 writes.\<close>

theorem ramp_converges_witness:
  "esc_wf (fst (esc_speed 1000 (fst (esc_speed 1 (esc_of_options 0 test_esc_options) 0)) 0)) \<and>
   ramp_steps (fst (esc_speed 1000 (fst (esc_speed 1 (esc_of_options 0 test_esc_options) 0)) 0)) = 99 \<and>
   length (snd (snd (esc_speed 1 (esc_of_options 0 test_esc_options) 0)) @
           snd (esc_ticks 99 (fst (esc_speed 1000 (fst (esc_speed 1 (esc_of_options 0 test_esc_options) 0)) 0)))) = 100 \<and>
   esc_current (fst (esc_ticks 99 (fst (esc_speed 1000 (fst (esc_speed 1 (esc_of_options 0 test_esc_options) 0)) 0)))) = 100"
proof -
  define e1 where "e1 = fst (esc_speed 1 (esc_of_options 0 test_esc_options) 0)"
  define e where "e = fst (esc_speed 1000 e1 0)"
  have w1: "length (snd (snd (esc_speed 1 (esc_of_options 0 test_esc_options) 0))) = 1"
    by (simp add: esc_speed_def esc_of_options_def Let_def)
  have f1: "esc_current e1 = 1" "esc_last_speed e1 = Some 1" "esc_range e1 = (0, 100)"
    by (simp_all add: e1_def esc_speed_def esc_of_options_def test_esc_options_def constrain_def
        range_lo_def range_hi_def Let_def)
  have f: "esc_value e = 100" "esc_current e = 1" "esc_ramp e = Some 0" "esc_range e = (0, 100)"
    "esc_last_speed e = Some 100"
    using f1 by (simp_all add: e_def esc_speed_def constrain_def range_lo_def range_hi_def Let_def)
  have wf: "esc_wf e" using f by (simp add: esc_wf_def range_lo_def range_hi_def)
  have n: "ramp_steps e = 99" using f by (simp add: ramp_steps_def)
  have "esc_current (fst (esc_ticks 99 e)) = 100 \<and> length (snd (esc_ticks 99 e)) = 99"
    using ramp_converges [OF wf] n f(1) by simp
  then show ?thesis using wf n w1 unfolding e_def e1_def by simp
qed

text \<open>
  Claim C17. A ramp over an integral distance n upward writes n times, the k-th write
  carrying the current value plus k, in order: no value is skipped or repeated.
\<close>

theorem ramp_writes_unit_steps:
  assumes "esc_wf e" and "esc_value e = esc_current e + of_nat n"
  shows "snd (esc_ticks n e) = concat (map (\<lambda>k. esc_write e (esc_current e + of_nat (Suc k))) [0..<n])"
  using assms by (rule ramp_writes_up)

text \<open>
  The "speed" test: \<open>speed(1)\<close> writes 1.8 at once, \<open>speed(10)\<close> then ramps through
  2, ..., 10: ten writes in all, the last one 18.
\<close>

theorem ramp_writes_unit_steps_witness:
  "snd (snd (esc_speed 1 (esc_of_options 0 test_esc_options) 0)) = [ServoWrite (PinNum 12) (9 / 5)] \<and>
   snd (esc_ticks 9 (fst (esc_speed 10 (fst (esc_speed 1 (esc_of_options 0 test_esc_options) 0)) 0))) =
     map (\<lambda>k. ServoWrite (PinNum 12) ((of_nat k + 2) * 180 / 100)) [0..<9] \<and>
   last (snd (esc_ticks 9 (fst (esc_speed 10 (fst (esc_speed 1 (esc_of_options 0 test_esc_options) 0)) 0)))) =
     ServoWrite (PinNum 12) 18"
proof -
  define e1 where "e1 = fst (esc_speed 1 (esc_of_options 0 test_esc_options) 0)"
  define e where "e = fst (esc_speed 10 e1 0)"
  have w1: "snd (snd (esc_speed 1 (esc_of_options 0 test_esc_options) 0)) = [ServoWrite (PinNum 12) (9 / 5)]"
    by (simp add: esc_speed_def esc_of_options_def test_esc_options_def constrain_def range_lo_def
        range_hi_def esc_write_def pwm_value_def default_pwmRange_def Let_def)
  have f1: "esc_current e1 = 1" "esc_last_speed e1 = Some 1" "esc_range e1 = (0, 100)"
    "esc_pin e1 = 12" "esc_variant e1 = DEFAULT" "esc_pwmRange e1 = (0, 180)"
    by (simp_all add: e1_def esc_speed_def esc_of_options_def test_esc_options_def constrain_def
        range_lo_def range_hi_def default_pwmRange_def Let_def)
  have f: "esc_value e = 10" "esc_current e = 1" "esc_ramp e = Some 0" "esc_range e = (0, 100)"
    "esc_last_speed e = Some 10" "esc_pin e = 12" "esc_variant e = DEFAULT" "esc_pwmRange e = (0, 180)"
    using f1 by (simp_all add: e_def esc_speed_def constrain_def range_lo_def range_hi_def Let_def)
  have wf: "esc_wf e" using f by (simp add: esc_wf_def range_lo_def range_hi_def)
  have "snd (esc_ticks 9 e) = concat (map (\<lambda>k. esc_write e (esc_current e + of_nat (Suc k))) [0..<9])"
    using ramp_writes_unit_steps [OF wf] f by simp
  also have "\<dots> = map (\<lambda>k. ServoWrite (PinNum 12) ((of_nat k + 2) * 180 / 100)) [0..<9]"
    using f by (simp add: esc_write_def pwm_value_def concat_map_singleton algebra_simps)
  finally have "snd (esc_ticks 9 e) = map (\<lambda>k. ServoWrite (PinNum 12) ((of_nat k + 2) * 180 / 100)) [0..<9]" .
  then show ?thesis using w1 unfolding e_def e1_def by (simp add: last_map last_upt)
qed

subsection \<open>Properties of speed\<close>

text \<open>
  Claim C18. A speed request whose clamped target repeats the last committed speed
  changes nothing: no write, the in-flight ramp keeps its handle and no handle is
  consumed.
\<close>

theorem speed_duplicate_keeps_ramp:
  assumes "esc_last_speed e = Some (constrain v (range_lo e) (range_hi e))"
  shows "esc_speed v e h = (e, h, [])"
  using assms by (rule esc_speed_dup)

text \<open>The "speedIgnoresDupCommand" test: \<open>speed(1)\<close>, \<open>speed(50)\<close>, a firing, \<open>speed(50)\<close>.\<close>

theorem speed_duplicate_keeps_ramp_witness:
  "esc_speed 50 (fst (esc_tick (fst (esc_speed 50 (fst (esc_speed 1 (esc_of_options 0 test_esc_options) 0)) 0)))) 1 =
     (fst (esc_tick (fst (esc_speed 50 (fst (esc_speed 1 (esc_of_options 0 test_esc_options) 0)) 0))), 1, []) \<and>
   esc_ramp (fst (esc_tick (fst (esc_speed 50 (fst (esc_speed 1 (esc_of_options 0 test_esc_options) 0)) 0)))) = Some 0"
proof -
  define e1 where "e1 = fst (esc_speed 1 (esc_of_options 0 test_esc_options) 0)"
  define e where "e = fst (esc_tick (fst (esc_speed 50 e1 0)))"
  have f1: "esc_current e1 = 1" "esc_last_speed e1 = Some 1" "esc_range e1 = (0, 100)"
    by (simp_all add: e1_def esc_speed_def esc_of_options_def test_esc_options_def constrain_def
        range_lo_def range_hi_def Let_def)
  have f: "esc_last_speed e = Some 50" "esc_range e = (0, 100)" "esc_ramp e = Some 0"
    using f1 by (simp_all add: e_def esc_tick_state esc_speed_def constrain_def range_lo_def range_hi_def
        step_toward_def Let_def)
  then have "esc_last_speed e = Some (constrain 50 (range_lo e) (range_hi e))"
    by (simp add: constrain_def range_lo_def range_hi_def)
  then have "esc_speed 50 e 1 = (e, 1, [])" by (rule speed_duplicate_keeps_ramp)
  then show ?thesis using f unfolding e_def e1_def by simp
qed

text \<open>
  Claim C19. A request with a new clamped target during a ramp commits the new
  target and drops the running ramp's handle: the ESC's ramp afterwards is none or a
  fresh handle, never the old one.
\<close>

theorem speed_new_target_replaces_ramp:
  assumes "esc_ramp e = Some h0" and "h0 < h"
    and "esc_last_speed e \<noteq> Some (constrain v (range_lo e) (range_hi e))"
  shows "esc_ramp (fst (esc_speed v e h)) \<noteq> Some h0 \<and>
         esc_value (fst (esc_speed v e h)) = constrain v (range_lo e) (range_hi e) \<and>
         esc_last_speed (fst (esc_speed v e h)) = Some (constrain v (range_lo e) (range_hi e))"
  using assms by (auto simp: esc_speed_def Let_def)

text \<open>The "speedInterruptsInterval" test: \<open>speed(60)\<close> during the ramp to 50.\<close>

theorem speed_new_target_replaces_ramp_witness:
  "esc_ramp (fst (esc_tick (fst (esc_speed 50 (fst (esc_speed 1 (esc_of_options 0 test_esc_options) 0)) 0)))) = Some 0 \<and>
   esc_ramp (fst (esc_speed 60 (fst (esc_tick (fst (esc_speed 50 (fst (esc_speed 1 (esc_of_options 0 test_esc_options) 0)) 0)))) 1)) = Some 1"
proof -
  define e1 where "e1 = fst (esc_speed 1 (esc_of_options 0 test_esc_options) 0)"
  define e where "e = fst (esc_tick (fst (esc_speed 50 e1 0)))"
  have f1: "esc_current e1 = 1" "esc_last_speed e1 = Some 1" "esc_range e1 = (0, 100)"
    by (simp_all add: e1_def esc_speed_def esc_of_options_def test_esc_options_def constrain_def
        range_lo_def range_hi_def Let_def)
  have f: "esc_last_speed e = Some 50" "esc_range e = (0, 100)" "esc_ramp e = Some 0" "esc_current e = 2"
    using f1 by (simp_all add: e_def esc_tick_state esc_speed_def constrain_def range_lo_def range_hi_def
        step_toward_def Let_def)
  have c: "constrain 60 (range_lo e) (range_hi e) = 60"
    using f by (simp add: constrain_def range_lo_def range_hi_def)
  have "esc_ramp (fst (esc_speed 60 e 1)) \<noteq> Some 0"
    using speed_new_target_replaces_ramp [of e 0 1 60] f c by simp
  moreover have "esc_ramp (fst (esc_speed 60 e 1)) = Some 1"
    using f c by (simp add: esc_speed_def Let_def)
  ultimately show ?thesis using f unfolding e_def e1_def by simp
qed

text \<open>
  Claim C20. A speed request that is not a repeat commits the target clamped into
  the configured range. The first request writes that target at once and starts no
  ramp; a later one makes no write, leaves the current value to the ramp, and starts
  a ramp (with the next handle) exactly when the current value differs from the
  target.
\<close>

theorem speed_commits_clamped_target:
  assumes "esc_last_speed e \<noteq> Some (constrain v (range_lo e) (range_hi e))"
  shows "esc_value (fst (esc_speed v e h)) = constrain v (range_lo e) (range_hi e) \<and>
         esc_last_speed (fst (esc_speed v e h)) = Some (constrain v (range_lo e) (range_hi e)) \<and>
         (if esc_last_speed e = None
          then esc_current (fst (esc_speed v e h)) = constrain v (range_lo e) (range_hi e) \<and>
               esc_ramp (fst (esc_speed v e h)) = None \<and> fst (snd (esc_speed v e h)) = h \<and>
               snd (snd (esc_speed v e h)) = esc_write e (constrain v (range_lo e) (range_hi e))
          else esc_current (fst (esc_speed v e h)) = esc_current e \<and> snd (snd (esc_speed v e h)) = [] \<and>
               (if esc_current e = constrain v (range_lo e) (range_hi e)
                then esc_ramp (fst (esc_speed v e h)) = None \<and> fst (snd (esc_speed v e h)) = h
                else esc_ramp (fst (esc_speed v e h)) = Some h \<and> fst (snd (esc_speed v e h)) = Suc h))"
proof (cases "esc_last_speed e = None")
  case True
  then show ?thesis by (simp add: esc_speed_first)
next
  case False
  show ?thesis unfolding if_not_P [OF False] using esc_speed_new [OF assms False, of h] .
qed

text \<open>The "range" test: with the range set to [50, 60], 40 gives 50 and 70 gives 60.\<close>

theorem speed_commits_clamped_target_witness:
  "esc_value (fst (esc_speed 40 test_range_esc 0)) = 50 \<and>
   esc_value (fst (esc_speed 70 (fst (esc_speed 40 test_range_esc 0)) 0)) = 60"
proof -
  have r: "esc_range test_range_esc = (50, 60)" "esc_last_speed test_range_esc = None"
    by (simp_all add: test_range_esc_def esc_of_options_def Let_def)
  have c40: "constrain 40 (range_lo test_range_esc) (range_hi test_range_esc) = 50"
    using r by (simp add: constrain_def range_lo_def range_hi_def)
  have v1: "esc_value (fst (esc_speed 40 test_range_esc 0)) = 50"
    "esc_last_speed (fst (esc_speed 40 test_range_esc 0)) = Some 50"
    using speed_commits_clamped_target [of test_range_esc 40 0] r c40 by simp_all
  have r1: "esc_range (fst (esc_speed 40 test_range_esc 0)) = (50, 60)"
    using r by (simp add: esc_speed_def Let_def)
  have c70: "constrain 70 (range_lo (fst (esc_speed 40 test_range_esc 0))) (range_hi (fst (esc_speed 40 test_range_esc 0))) = 60"
    using r1 by (simp add: constrain_def range_lo_def range_hi_def)
  show ?thesis
    using speed_commits_clamped_target [of "fst (esc_speed 40 test_range_esc 0)" 70 0] v1 c70 by simp
qed

subsection \<open>Properties of the output driver and the directional wrapper\<close>

text \<open>
  Claim C21. A PCA9685 ESC on channel 0 to 15 writes, for any value whose pulse
  width lies in the counter's range, one frame to its address from which the chip
  reads back its own channel, an on count of 0 and an off count that is the pulse
  width quantised down to 4 microsecond steps (within one step below it) and fits
  the 12-bit counter.
\<close>

theorem pca9685_write_roundtrip:
  assumes "esc_variant e = PCA9685" and "esc_pin e < 16"
    and "0 \<le> pwm_value e v" and "pwm_value e v < 16384"
  shows "\<exists>frame. esc_write e v = [I2CWrite (esc_address e) frame] \<and>
           pca9685_decode frame = Some (esc_pin e, 0, pca9685_counts (pwm_value e v)) \<and>
           4 * real (pca9685_counts (pwm_value e v)) \<le> pwm_value e v \<and>
           pwm_value e v < 4 * real (pca9685_counts (pwm_value e v)) + 4 \<and>
           pca9685_counts (pwm_value e v) < 4096"
proof -
  have c: "pca9685_counts (pwm_value e v) < 4096" using assms(4) by (rule pca9685_counts_12bit)
  then have "pca9685_decode (pca9685_frame (esc_pin e) (pca9685_counts (pwm_value e v))) =
             Some (esc_pin e, 0, pca9685_counts (pwm_value e v))"
    using assms(2) by (intro pca9685_decode_frame) simp_all
  moreover have "esc_write e v = [I2CWrite (esc_address e) (pca9685_frame (esc_pin e) (pca9685_counts (pwm_value e v)))]"
    using assms(1) by (simp add: esc_write_def)
  ultimately show ?thesis using pca9685_counts_bounds [OF assms(3)] c by blast
qed

text \<open>Spec section 8 and the "ESC - PCA9685" test: \<open>speed(10)\<close> at 0x40 is [6, 0, 0, 182, 0].\<close>

theorem pca9685_write_roundtrip_witness:
  "esc_write (esc_of_options 0 test_pca_options) 10 = [I2CWrite 64 [6, 0, 0, 182, 0]] \<and>
   pca9685_decode [6, 0, 0, 182, 0] = Some (0, 0, 182)"
proof -
  define e where "e = esc_of_options 0 test_pca_options"
  have f: "esc_variant e = PCA9685" "esc_pin e = 0" "esc_address e = 64" "pwm_value e 10 = 3648 / 5"
    by (simp_all add: e_def esc_of_options_def test_pca_options_def pwm_value_def default_pwmRange_def Let_def)
  have c: "pca9685_counts (3648 / 5) = 182" by (simp add: pca9685_counts_def)
  obtain frame where w: "esc_write e 10 = [I2CWrite 64 frame]" and d: "pca9685_decode frame = Some (0, 0, 182)"
    using pca9685_write_roundtrip [of e 10] f c by auto
  have "frame = pca9685_frame 0 182" using w f c by (simp add: esc_write_def)
  then have "frame = [6, 0, 0, 182, 0]" by (simp add: pca9685_frame_def)
  then show ?thesis using w d unfolding e_def by simp
qed

text \<open>
  Claim C22. For a FORWARD_REVERSE ESC with neutral n, \<open>forward(s)\<close> and
  \<open>reverse(s)\<close> are \<open>speed\<close> of s scaled from n toward the top or the bottom of the
  range, with 0 meaning n: \<open>forward(100)\<close> is \<open>speed(hi)\<close>, \<open>reverse(100)\<close> is
  \<open>speed(lo)\<close>, and both with 0 are \<open>speed(n)\<close>.
\<close>

theorem direction_mapping:
  assumes "esc_variant e = FORWARD_REVERSE" and "esc_neutral e = Some n"
  shows "esc_forward s e h = Inr (esc_speed (if s = 0 then n else fscale s 0 100 n (range_hi e)) e h) \<and>
         esc_reverse s e h = Inr (esc_speed (if s = 0 then n else fscale s 0 100 n (range_lo e)) e h) \<and>
         esc_forward 100 e h = Inr (esc_speed (range_hi e) e h) \<and>
         esc_reverse 100 e h = Inr (esc_speed (range_lo e) e h) \<and>
         esc_forward 0 e h = Inr (esc_speed n e h) \<and> esc_reverse 0 e h = Inr (esc_speed n e h)"
  using assms by (simp add: esc_forward_def esc_reverse_def direction_target_def fscale_high)

theorem direction_mapping_witness:
  "esc_forward 100 (esc_of_options 0 test_fr_options) 0 = Inr (esc_speed 100 (esc_of_options 0 test_fr_options) 0) \<and>
   esc_forward 0 (esc_of_options 0 test_fr_options) 0 = Inr (esc_speed 50 (esc_of_options 0 test_fr_options) 0) \<and>
   esc_reverse 100 (esc_of_options 0 test_fr_options) 0 = Inr (esc_speed 0 (esc_of_options 0 test_fr_options) 0) \<and>
   esc_reverse 0 (esc_of_options 0 test_fr_options) 0 = Inr (esc_speed 50 (esc_of_options 0 test_fr_options) 0)"
proof -
  have e: "esc_variant (esc_of_options 0 test_fr_options) = FORWARD_REVERSE"
    "esc_neutral (esc_of_options 0 test_fr_options) = Some 50"
    "range_lo (esc_of_options 0 test_fr_options) = 0" "range_hi (esc_of_options 0 test_fr_options) = 100"
    by (simp_all add: esc_of_options_def test_fr_options_def range_lo_def range_hi_def Let_def)
  show ?thesis using direction_mapping [OF e(1,2), of 0 0] e(3,4) by simp
qed



end
