(* ===== verification/ESC_Group.thy ===== *)
theory ESC_Group
  imports ESC
begin

text \<open>
  ESCs on a board, and \<open>ESC.Array\<close> (the ESCGroup of spec section 4.3). Following
  spec section 9, the process-wide registry is an explicit part of a board record:
  \<open>b_escs\<close> is the store of all ESC objects (by id), \<open>b_registry\<close> the ids of the
  registered ESCs in creation order, \<open>b_drivers\<close> the addresses that have a PCA9685
  driver object, \<open>b_next_id\<close> and \<open>b_next_timer\<close> the counters for ESC ids and interval
  handles, \<open>b_io\<close> the log of hardware writes. A group is a list of ids (it does not
  own the ESCs). A thrown error is \<open>Inl\<close> with the board as the throw left it: a
  group call that throws at its k-th member keeps the effects on the members before.
  The operations together form a step relation; its reachable states keep
  \<open>board_inv\<close>.
\<close>

record board =
  b_escs :: "nat \<Rightarrow> esc option"
  b_registry :: "nat list"
  b_drivers :: "nat list"
  b_next_id :: nat
  b_next_timer :: nat
  b_io :: "io_event list"

type_synonym board_result = "(esc_error \<times> board) + board"

definition empty_board :: board where
  "empty_board = \<lparr>b_escs = Map.empty, b_registry = [], b_drivers = [], b_next_id = 0,
                  b_next_timer = 0, b_io = []\<rparr>"

subsection \<open>Construction\<close>

text \<open>
  \<open>new ESC(opts)\<close>: a FORWARD_REVERSE device without \<open>neutral\<close> throws; otherwise the
  ESC is created and registered, a PCA9685 driver is created for its address unless
  one exists, and \<open>speed(startAt)\<close> runs when there is a start value.
\<close>

definition new_esc :: "esc_options \<Rightarrow> board \<Rightarrow> (esc_error \<times> board) + (nat \<times> board)" where
  "new_esc opts b =
     (if o_variant opts = FORWARD_REVERSE \<and> o_neutral opts = None
      then Inl (ConfigurationError ''FORWARD_REVERSE ESC requires a neutral value'', b)
      else
        let i = b_next_id b;
            e = esc_of_options i opts;
            drivers = (if o_variant opts = PCA9685 \<and> esc_address e \<notin> set (b_drivers b)
                       then b_drivers b @ [esc_address e] else b_drivers b);
            (e', t, io) = (case esc_startAt e of
                             None \<Rightarrow> (e, b_next_timer b, [])
                           | Some s \<Rightarrow> esc_speed s e (b_next_timer b))
        in Inr (i, b\<lparr>b_escs := (b_escs b)(i \<mapsto> e'), b_registry := b_registry b @ [i],
                     b_drivers := drivers, b_next_id := Suc i, b_next_timer := t,
                     b_io := b_io b @ io\<rparr>))"

subsection \<open>Operations on one ESC of the board\<close>

definition with_esc :: "nat \<Rightarrow> board \<Rightarrow> (esc \<Rightarrow> board_result) \<Rightarrow> board_result" where
  "with_esc i b f = (case b_escs b i of None \<Rightarrow> Inl (NoSuchESC i, b) | Some e \<Rightarrow> f e)"

definition board_speed :: "nat \<Rightarrow> number \<Rightarrow> board \<Rightarrow> board_result" where
  "board_speed i v b =
     with_esc i b (\<lambda>e. let (e', t, io) = esc_speed v e (b_next_timer b)
                       in Inr (b\<lparr>b_escs := (b_escs b)(i \<mapsto> e'), b_next_timer := t, b_io := b_io b @ io\<rparr>))"

definition board_direction :: "bool \<Rightarrow> nat \<Rightarrow> number \<Rightarrow> board \<Rightarrow> board_result" where
  "board_direction fwd i s b =
     with_esc i b (\<lambda>e. case (if fwd then esc_forward s e (b_next_timer b) else esc_reverse s e (b_next_timer b)) of
                         Inl err \<Rightarrow> Inl (err, b)
                       | Inr (e', t, io) \<Rightarrow>
                           Inr (b\<lparr>b_escs := (b_escs b)(i \<mapsto> e'), b_next_timer := t, b_io := b_io b @ io\<rparr>))"

definition board_brake :: "nat \<Rightarrow> board \<Rightarrow> board_result" where
  "board_brake i b = with_esc i b (\<lambda>e. Inr (b\<lparr>b_io := b_io b @ esc_brake e\<rparr>))"

text \<open>The interval of ESC \<open>i\<close> fires (only an ESC with a running ramp has one).\<close>

definition board_tick :: "nat \<Rightarrow> board \<Rightarrow> board_result" where
  "board_tick i b =
     with_esc i b (\<lambda>e. let (e', io) = esc_tick e
                       in Inr (b\<lparr>b_escs := (b_escs b)(i \<mapsto> e'), b_io := b_io b @ io\<rparr>))"

subsection \<open>Groups\<close>

datatype group_source = AllESCs | PinList "nat list" | ESCList "nat list"

text \<open>A pin is resolved to the first registered ESC on that pin.\<close>

definition find_pin :: "board \<Rightarrow> nat \<Rightarrow> nat option" where
  "find_pin b p = find (\<lambda>i. case b_escs b i of None \<Rightarrow> False | Some e \<Rightarrow> esc_pin e = p) (b_registry b)"

fun resolve_pins :: "board \<Rightarrow> nat list \<Rightarrow> esc_error + nat list" where
  "resolve_pins b [] = Inr []"
| "resolve_pins b (p # ps) =
     (case find_pin b p of
        None \<Rightarrow> Inl (NoESCOnPin p)
      | Some i \<Rightarrow> (case resolve_pins b ps of Inl err \<Rightarrow> Inl err | Inr is \<Rightarrow> Inr (i # is)))"

definition new_group :: "group_source \<Rightarrow> board \<Rightarrow> esc_error + nat list" where
  "new_group src b =
     (case src of
        AllESCs \<Rightarrow> Inr (b_registry b)
      | PinList ps \<Rightarrow> resolve_pins b ps
      | ESCList is \<Rightarrow> Inr is)"

text \<open>A group call: the ESC method on every member, in order, stopping at a throw.\<close>

fun group_apply :: "(nat \<Rightarrow> board \<Rightarrow> board_result) \<Rightarrow> nat list \<Rightarrow> board \<Rightarrow> board_result" where
  "group_apply f [] b = Inr b"
| "group_apply f (i # is) b =
     (case f i b of
        Inl err \<Rightarrow> Inl err
      | Inr b' \<Rightarrow> group_apply f is b')"

definition group_speed :: "nat list \<Rightarrow> number \<Rightarrow> board \<Rightarrow> board_result" where
  "group_speed is v b = group_apply (\<lambda>i. board_speed i v) is b"

definition group_forward :: "nat list \<Rightarrow> number \<Rightarrow> board \<Rightarrow> board_result" where
  "group_forward is s b = group_apply (\<lambda>i. board_direction True i s) is b"

definition group_reverse :: "nat list \<Rightarrow> number \<Rightarrow> board \<Rightarrow> board_result" where
  "group_reverse is s b = group_apply (\<lambda>i. board_direction False i s) is b"

definition group_brake :: "nat list \<Rightarrow> board \<Rightarrow> board_result" where
  "group_brake is b = group_apply board_brake is b"

text \<open>\<open>ESC.purge()\<close>: empty the registry; the ESC objects themselves live on.\<close>

definition purge :: "board \<Rightarrow> board" where
  "purge b = b\<lparr>b_registry := []\<rparr>"

subsection \<open>The board as a state machine\<close>

datatype board_op =
    NewESC esc_options
  | Speed nat number
  | Forward nat number
  | Reverse nat number
  | Brake nat
  | Tick nat
  | Purge
  | GroupSpeed group_source number
  | GroupForward group_source number
  | GroupReverse group_source number
  | GroupBrake group_source

definition with_group :: "group_source \<Rightarrow> board \<Rightarrow> (nat list \<Rightarrow> board_result) \<Rightarrow> board_result" where
  "with_group src b f = (case new_group src b of Inl err \<Rightarrow> Inl (err, b) | Inr is \<Rightarrow> f is)"

fun board_apply :: "board_op \<Rightarrow> board \<Rightarrow> board_result" where
  "board_apply (NewESC opts) b = (case new_esc opts b of Inl err \<Rightarrow> Inl err | Inr (_, b') \<Rightarrow> Inr b')"
| "board_apply (Speed i v) b = board_speed i v b"
| "board_apply (Forward i s) b = board_direction True i s b"
| "board_apply (Reverse i s) b = board_direction False i s b"
| "board_apply (Brake i) b = board_brake i b"
| "board_apply (Tick i) b = board_tick i b"
| "board_apply Purge b = Inr (purge b)"
| "board_apply (GroupSpeed src v) b = with_group src b (\<lambda>is. group_speed is v b)"
| "board_apply (GroupForward src s) b = with_group src b (\<lambda>is. group_forward is s b)"
| "board_apply (GroupReverse src s) b = with_group src b (\<lambda>is. group_reverse is s b)"
| "board_apply (GroupBrake src) b = with_group src b (\<lambda>is. group_brake is b)"

text \<open>The board after an operation, whether it returned or threw.\<close>

definition board_after :: "board_result \<Rightarrow> board" where
  "board_after r = (case r of Inl (_, b) \<Rightarrow> b | Inr b \<Rightarrow> b)"

inductive board_reachable :: "board \<Rightarrow> bool" where
  start: "board_reachable empty_board"
| step: "board_reachable b \<Longrightarrow> board_reachable (board_after (board_apply op b))"

subsection \<open>The setups of the group tests\<close>

text \<open>
  The setup of "ESC.Array" in \<open>src/test/esc.js\<close>: after \<open>ESC.purge()\<close>, three ESCs
  on pins 3, 6 and 9.
\<close>

definition test_array_board :: board where
  "test_array_board =
     fold (\<lambda>p b. board_after (board_apply (NewESC (test_esc_options\<lparr>o_pin := p\<rparr>)) b)) [3, 6, 9]
       (purge empty_board)"

text \<open>
  The "brake" test: a FORWARD_REVERSE ESC with neutral 50 on pin 11, after
  \<open>forward(1)\<close>.
\<close>

definition test_fr_board :: board where
  "test_fr_board =
     board_after (board_apply (Forward 0 1) (board_after (board_apply (NewESC test_fr_options) empty_board)))"

subsection \<open>The board invariant\<close>

text \<open>
  What each stored ESC keeps (\<open>esc_entry_ok\<close>), that no two ESCs hold the same
  ramp handle (\<open>ramps_unique\<close>), and the registry and driver table facts. \<open>committed v e\<close>
  says that \<open>e\<close> has taken \<open>speed(v)\<close>: its target and last speed are \<open>v\<close> clamped
  into its range.
\<close>

definition esc_entry_ok :: "board \<Rightarrow> nat \<Rightarrow> esc \<Rightarrow> bool" where
  "esc_entry_ok b i e \<longleftrightarrow>
     esc_wf e \<and> esc_id e = i \<and> i < b_next_id b \<and>
     (\<forall>h. esc_ramp e = Some h \<longrightarrow> h < b_next_timer b) \<and>
     (esc_variant e = FORWARD_REVERSE \<longrightarrow> esc_neutral e \<noteq> None) \<and>
     (esc_variant e = PCA9685 \<longrightarrow> esc_address e \<in> set (b_drivers b))"

definition ramps_unique :: "(nat \<Rightarrow> esc option) \<Rightarrow> bool" where
  "ramps_unique m \<longleftrightarrow>
     (\<forall>i j e f h. m i = Some e \<longrightarrow> m j = Some f \<longrightarrow> esc_ramp e = Some h \<longrightarrow> esc_ramp f = Some h \<longrightarrow> i = j)"

definition board_inv :: "board \<Rightarrow> bool" where
  "board_inv b \<longleftrightarrow>
     (\<forall>i e. b_escs b i = Some e \<longrightarrow> esc_entry_ok b i e) \<and> ramps_unique (b_escs b) \<and>
     set (b_registry b) \<subseteq> dom (b_escs b) \<and> distinct (b_registry b) \<and> distinct (b_drivers b)"

definition committed :: "number \<Rightarrow> esc \<Rightarrow> bool" where
  "committed v e \<longleftrightarrow>
     esc_last_speed e = Some (constrain v (range_lo e) (range_hi e)) \<and>
     esc_value e = constrain v (range_lo e) (range_hi e)"

text \<open>
  The members of a group as \<open>speed\<close> first reaches them: every id once, at its first
  position (a repeated member receives a duplicate command the second time).
\<close>

fun first_occurrences :: "'a list \<Rightarrow> 'a list" where
  "first_occurrences [] = []"
| "first_occurrences (x # xs) = x # filter (\<lambda>y. y \<noteq> x) (first_occurrences xs)"

subsection \<open>Preservation of the invariant\<close>

lemma board_after_simps [simp]: "board_after (Inl (err, b)) = b" "board_after (Inr b) = b"
  by (simp_all add: board_after_def)

lemma esc_speed_frame [simp]:
  "esc_id (fst (esc_speed v e h)) = esc_id e"
  "esc_range (fst (esc_speed v e h)) = esc_range e"
  "esc_variant (fst (esc_speed v e h)) = esc_variant e"
  "esc_address (fst (esc_speed v e h)) = esc_address e"
  "esc_neutral (fst (esc_speed v e h)) = esc_neutral e"
  "esc_pin (fst (esc_speed v e h)) = esc_pin e"
  "esc_pwmRange (fst (esc_speed v e h)) = esc_pwmRange e"
  by (simp_all add: esc_speed_def Let_def)

lemma esc_speed_handle:
  "h \<le> fst (snd (esc_speed v e h)) \<and>
   (\<forall>k. esc_ramp (fst (esc_speed v e h)) = Some k \<longrightarrow>
      esc_ramp e = Some k \<or> (k = h \<and> fst (snd (esc_speed v e h)) = Suc h))"
  by (simp add: esc_speed_def Let_def)

lemma esc_tick_id [simp]: "esc_id (fst (esc_tick e)) = esc_id e"
  by (cases "esc_ramp e") (simp_all add: esc_tick_state)

lemma esc_tick_ramp: "esc_ramp (fst (esc_tick e)) = Some k \<Longrightarrow> esc_ramp e = Some k"
  by (cases "esc_ramp e") (auto simp: esc_tick_state split: if_splits)

lemma ramps_unique_update:
  assumes u: "ramps_unique m"
    and r: "\<forall>k. esc_ramp e' = Some k \<longrightarrow> (\<forall>j f. j \<noteq> i \<longrightarrow> m j = Some f \<longrightarrow> esc_ramp f \<noteq> Some k)"
  shows "ramps_unique (m(i \<mapsto> e'))"
  unfolding ramps_unique_def
proof (intro allI impI)
  fix j j' f f' h
  assume a: "(m(i \<mapsto> e')) j = Some f" "(m(i \<mapsto> e')) j' = Some f'" "esc_ramp f = Some h" "esc_ramp f' = Some h"
  show "j = j'"
  proof (cases "j = i"; cases "j' = i")
    assume "j = i" "j' \<noteq> i"
    then show ?thesis using a r by auto
  next
    assume "j \<noteq> i" "j' = i"
    then show ?thesis using a r by fastforce
  next
    assume "j \<noteq> i" "j' \<noteq> i"
    then show ?thesis using a u unfolding ramps_unique_def by auto
  qed simp
qed

lemma board_inv_update:
  assumes inv: "board_inv b" and old: "b_escs b i = Some e"
    and wf: "esc_wf e'" and id: "esc_id e' = esc_id e"
    and var: "esc_variant e' = esc_variant e" "esc_address e' = esc_address e"
      "esc_neutral e' = esc_neutral e"
    and ramp: "\<forall>k. esc_ramp e' = Some k \<longrightarrow> esc_ramp e = Some k \<or> (k = b_next_timer b \<and> b_next_timer b < t)"
    and t: "b_next_timer b \<le> t"
  shows "board_inv (b\<lparr>b_escs := (b_escs b)(i \<mapsto> e'), b_next_timer := t\<rparr>)"
proof -
  let ?b' = "b\<lparr>b_escs := (b_escs b)(i \<mapsto> e'), b_next_timer := t\<rparr>"
  have ok: "esc_entry_ok b i e" using inv old by (simp add: board_inv_def)
  have fresh: "\<forall>j f. b_escs b j = Some f \<longrightarrow> esc_ramp f \<noteq> Some (b_next_timer b)"
    using inv by (fastforce simp: board_inv_def esc_entry_ok_def)
  have entries: "\<forall>j f. ((b_escs b)(i \<mapsto> e')) j = Some f \<longrightarrow> esc_entry_ok ?b' j f"
  proof (intro allI impI)
    fix j f assume jf: "((b_escs b)(i \<mapsto> e')) j = Some f"
    show "esc_entry_ok ?b' j f"
    proof (cases "j = i")
      case True
      with jf have "f = e'" by simp
      then show ?thesis using True ok wf id var ramp t by (fastforce simp: esc_entry_ok_def)
    next
      case False
      with jf inv have "esc_entry_ok b j f" by (simp add: board_inv_def)
      then show ?thesis using t by (fastforce simp: esc_entry_ok_def)
    qed
  qed
  have "\<forall>k. esc_ramp e' = Some k \<longrightarrow> (\<forall>j f. j \<noteq> i \<longrightarrow> b_escs b j = Some f \<longrightarrow> esc_ramp f \<noteq> Some k)"
    using inv old ramp fresh unfolding board_inv_def ramps_unique_def by blast
  then have "ramps_unique ((b_escs b)(i \<mapsto> e'))"
    using inv by (intro ramps_unique_update) (auto simp: board_inv_def)
  then show ?thesis using entries inv old by (auto simp: board_inv_def)
qed

lemma board_inv_io [simp]: "board_inv (b\<lparr>b_io := io\<rparr>) = board_inv b"
  by (simp add: board_inv_def esc_entry_ok_def)

lemma board_speed_inv: "board_inv b \<Longrightarrow> board_inv (board_after (board_speed i v b))"
proof (cases "b_escs b i")
  case (Some e)
  assume inv: "board_inv b"
  have wf: "esc_wf e" using inv Some by (simp add: board_inv_def esc_entry_ok_def)
  have "board_inv (b\<lparr>b_escs := (b_escs b)(i \<mapsto> fst (esc_speed v e (b_next_timer b))),
                     b_next_timer := fst (snd (esc_speed v e (b_next_timer b)))\<rparr>)"
    using esc_speed_handle [of "b_next_timer b" v e]
    by (intro board_inv_update [OF inv Some esc_speed_wf [OF wf]]) auto
  then show ?thesis using Some by (simp add: board_speed_def with_esc_def board_after_def split_def Let_def)
qed (simp add: board_speed_def with_esc_def board_after_def)

lemma board_direction_inv: "board_inv b \<Longrightarrow> board_inv (board_after (board_direction fwd i s b))"
proof (cases "b_escs b i")
  case (Some e)
  assume inv: "board_inv b"
  have wf: "esc_wf e" using inv Some by (simp add: board_inv_def esc_entry_ok_def)
  show ?thesis
  proof (cases "direction_target fwd s e")
    case (Inl err)
    then show ?thesis using Some inv
      by (cases fwd) (simp_all add: board_direction_def with_esc_def board_after_def esc_forward_def esc_reverse_def)
  next
    case (Inr r)
    show ?thesis
    proof (cases r)
      case None
      then show ?thesis using Some Inr inv
        by (cases fwd) (simp_all add: board_direction_def with_esc_def esc_forward_def esc_reverse_def
            map_upd_triv)
    next
      case (Some t)
      have "board_inv (b\<lparr>b_escs := (b_escs b)(i \<mapsto> fst (esc_speed t e (b_next_timer b))),
                         b_next_timer := fst (snd (esc_speed t e (b_next_timer b)))\<rparr>)"
        using esc_speed_handle [of "b_next_timer b" t e]
        by (intro board_inv_update [OF inv \<open>b_escs b i = Some e\<close> esc_speed_wf [OF wf]]) auto
      then show ?thesis using \<open>b_escs b i = Some e\<close> Inr Some
        by (cases fwd) (simp_all add: board_direction_def with_esc_def esc_forward_def
            esc_reverse_def split_def)
    qed
  qed
qed (simp add: board_direction_def with_esc_def board_after_def)

lemma board_brake_inv: "board_inv b \<Longrightarrow> board_inv (board_after (board_brake i b))"
  by (simp add: board_brake_def with_esc_def board_after_def split: option.split)

lemma board_tick_inv: "board_inv b \<Longrightarrow> board_inv (board_after (board_tick i b))"
proof (cases "b_escs b i")
  case (Some e)
  assume inv: "board_inv b"
  have wf: "esc_wf e" using inv Some by (simp add: board_inv_def esc_entry_ok_def)
  have "board_inv (b\<lparr>b_escs := (b_escs b)(i \<mapsto> fst (esc_tick e)),
                     b_next_timer := b_next_timer b\<rparr>)"
    using esc_tick_ramp [of e]
    by (intro board_inv_update [OF inv Some esc_tick_wf [OF wf]]) auto
  then show ?thesis using Some by (simp add: board_tick_def with_esc_def board_after_def split_def Let_def)
qed (simp add: board_tick_def with_esc_def board_after_def)

lemma purge_inv: "board_inv b \<Longrightarrow> board_inv (purge b)"
  by (simp add: board_inv_def purge_def esc_entry_ok_def)

lemma group_apply_inv:
  assumes f: "\<And>i b. board_inv b \<Longrightarrow> board_inv (board_after (f i b))"
  shows "board_inv b \<Longrightarrow> board_inv (board_after (group_apply f is b))"
proof (induction "is" arbitrary: b)
  case Nil
  then show ?case by (simp add: board_after_def)
next
  case (Cons i "is")
  have fi: "board_inv (board_after (f i b))" using f [OF Cons.prems] .
  show ?case
  proof (cases "f i b")
    case (Inl err)
    then show ?thesis using fi by simp
  next
    case (Inr b')
    then show ?thesis using fi Cons.IH [of b'] by (simp add: board_after_def)
  qed
qed

lemma esc_of_options_wf: "esc_wf (esc_of_options i opts)"
  using constrain_in_range [of "fst (case o_range opts of None \<Rightarrow> (0, 100) | Some r \<Rightarrow> r)"
      "snd (case o_range opts of None \<Rightarrow> (0, 100) | Some r \<Rightarrow> r)" 0]
  by (simp add: esc_wf_def esc_of_options_def Let_def range_lo_def range_hi_def)

lemma esc_of_options_fields [simp]:
  "esc_id (esc_of_options i opts) = i"
  "esc_variant (esc_of_options i opts) = o_variant opts"
  "esc_neutral (esc_of_options i opts) = o_neutral opts"
  "esc_ramp (esc_of_options i opts) = None"
  "esc_last_speed (esc_of_options i opts) = None"
  by (simp_all add: esc_of_options_def Let_def)

lemma board_inv_fresh_id: "board_inv b \<Longrightarrow> b_escs b (b_next_id b) = None"
  by (cases "b_escs b (b_next_id b)") (auto simp: board_inv_def esc_entry_ok_def)

lemma board_inv_insert:
  assumes inv: "board_inv b"
    and wf: "esc_wf e'" and id: "esc_id e' = b_next_id b"
    and fr: "esc_variant e' = FORWARD_REVERSE \<longrightarrow> esc_neutral e' \<noteq> None"
    and pca: "esc_variant e' = PCA9685 \<longrightarrow> esc_address e' \<in> set ds"
    and ds: "distinct ds" "set (b_drivers b) \<subseteq> set ds"
    and ramp: "\<forall>k. esc_ramp e' = Some k \<longrightarrow> k = b_next_timer b \<and> b_next_timer b < t"
    and t: "b_next_timer b \<le> t"
  shows "board_inv (b\<lparr>b_escs := (b_escs b)(b_next_id b \<mapsto> e'), b_registry := b_registry b @ [b_next_id b],
                      b_drivers := ds, b_next_id := Suc (b_next_id b), b_next_timer := t\<rparr>)"
proof -
  let ?n = "b_next_id b"
  let ?b' = "b\<lparr>b_escs := (b_escs b)(?n \<mapsto> e'), b_registry := b_registry b @ [?n],
                b_drivers := ds, b_next_id := Suc ?n, b_next_timer := t\<rparr>"
  have none: "b_escs b ?n = None" using inv by (rule board_inv_fresh_id)
  have fresh: "\<forall>j f. b_escs b j = Some f \<longrightarrow> esc_ramp f \<noteq> Some (b_next_timer b)"
    using inv by (fastforce simp: board_inv_def esc_entry_ok_def)
  have entries: "\<forall>j f. ((b_escs b)(?n \<mapsto> e')) j = Some f \<longrightarrow> esc_entry_ok ?b' j f"
  proof (intro allI impI)
    fix j f assume jf: "((b_escs b)(?n \<mapsto> e')) j = Some f"
    show "esc_entry_ok ?b' j f"
    proof (cases "j = ?n")
      case True
      with jf have "f = e'" by simp
      then show ?thesis using True wf id fr pca ramp by (auto simp: esc_entry_ok_def)
    next
      case False
      with jf inv have "esc_entry_ok b j f" by (simp add: board_inv_def)
      then show ?thesis using t ds by (auto simp: esc_entry_ok_def)
    qed
  qed
  have u: "ramps_unique ((b_escs b)(?n \<mapsto> e'))"
    using inv ramp fresh by (intro ramps_unique_update) (auto simp: board_inv_def)
  have reg: "?n \<notin> set (b_registry b)" using inv none by (auto simp: board_inv_def)
  show ?thesis using entries u reg inv ds by (auto simp: board_inv_def)
qed

lemma new_esc_inv:
  assumes inv: "board_inv b"
  shows "board_inv (board_after (case new_esc opts b of Inl err \<Rightarrow> Inl err | Inr (_, b') \<Rightarrow> Inr b'))"
proof (cases "o_variant opts = FORWARD_REVERSE \<and> o_neutral opts = None")
  case True
  then show ?thesis using inv by (simp add: new_esc_def board_after_def)
next
  case False
  let ?e = "esc_of_options (b_next_id b) opts"
  let ?ds = "if o_variant opts = PCA9685 \<and> esc_address ?e \<notin> set (b_drivers b)
             then b_drivers b @ [esc_address ?e] else b_drivers b"
  have ds: "distinct ?ds" "set (b_drivers b) \<subseteq> set ?ds"
    "esc_variant ?e = PCA9685 \<longrightarrow> esc_address ?e \<in> set ?ds"
    using inv by (auto simp: board_inv_def)
  have fr: "esc_variant ?e = FORWARD_REVERSE \<longrightarrow> esc_neutral ?e \<noteq> None" using False by simp
  show ?thesis
  proof (cases "esc_startAt ?e")
    case None
    have "board_inv (b\<lparr>b_escs := (b_escs b)(b_next_id b \<mapsto> ?e), b_registry := b_registry b @ [b_next_id b],
                      b_drivers := ?ds, b_next_id := Suc (b_next_id b), b_next_timer := b_next_timer b\<rparr>)"
      using ds fr by (intro board_inv_insert [OF inv esc_of_options_wf]) simp_all
    then show ?thesis using False None inv by (simp add: new_esc_def Let_def)
  next
    case (Some st)
    let ?p = "esc_speed st ?e (b_next_timer b)"
    have "board_inv (b\<lparr>b_escs := (b_escs b)(b_next_id b \<mapsto> fst ?p), b_registry := b_registry b @ [b_next_id b],
                      b_drivers := ?ds, b_next_id := Suc (b_next_id b), b_next_timer := fst (snd ?p)\<rparr>)"
      using ds fr esc_speed_handle [of "b_next_timer b" st ?e]
      by (intro board_inv_insert [OF inv esc_speed_wf [OF esc_of_options_wf]]) auto
    then show ?thesis using False Some inv by (simp add: new_esc_def Let_def split_def)
  qed
qed

lemma with_group_inv:
  "board_inv b \<Longrightarrow> (\<And>is. board_inv (board_after (f is))) \<Longrightarrow> board_inv (board_after (with_group src b f))"
  by (cases "new_group src b") (simp_all add: with_group_def)

lemma board_apply_inv:
  assumes inv: "board_inv b"
  shows "board_inv (board_after (board_apply op b))"
proof (cases op)
  case (NewESC opts)
  then show ?thesis using inv by (simp add: new_esc_inv)
next
  case (GroupSpeed src v)
  then show ?thesis using inv
    by (auto intro!: with_group_inv group_apply_inv board_speed_inv simp: group_speed_def)
next
  case (GroupForward src s)
  then show ?thesis using inv
    by (auto intro!: with_group_inv group_apply_inv board_direction_inv simp: group_forward_def)
next
  case (GroupReverse src s)
  then show ?thesis using inv
    by (auto intro!: with_group_inv group_apply_inv board_direction_inv simp: group_reverse_def)
next
  case (GroupBrake src)
  then show ?thesis using inv
    by (auto intro!: with_group_inv group_apply_inv board_brake_inv simp: group_brake_def)
qed (use inv in \<open>simp_all add: board_speed_inv board_direction_inv board_brake_inv board_tick_inv purge_inv\<close>)

lemma empty_board_inv: "board_inv empty_board"
  by (simp add: board_inv_def empty_board_def ramps_unique_def)

lemma reachable_board_inv: "board_reachable b \<Longrightarrow> board_inv b"
  by (induction rule: board_reachable.induct) (simp_all add: empty_board_inv board_apply_inv)

lemma board_reachable_fold:
  "board_reachable b \<Longrightarrow> board_reachable (fold (\<lambda>x b. board_after (board_apply (g x) b)) xs b)"
  by (induction xs arbitrary: b) (simp_all add: board_reachable.step)

lemma test_array_board_reachable: "board_reachable test_array_board"
proof -
  have "board_reachable (purge empty_board)"
    using board_reachable.step [OF board_reachable.start, of Purge] by simp
  then show ?thesis unfolding test_array_board_def by (rule board_reachable_fold)
qed

lemma test_array_board_eval:
  "b_registry test_array_board = [0, 1, 2]"
  "b_escs test_array_board 0 = Some (esc_of_options 0 (test_esc_options\<lparr>o_pin := 3\<rparr>))"
  "b_escs test_array_board 1 = Some (esc_of_options 1 (test_esc_options\<lparr>o_pin := 6\<rparr>))"
  "b_escs test_array_board (Suc 0) = Some (esc_of_options 1 (test_esc_options\<lparr>o_pin := 6\<rparr>))"
  "b_escs test_array_board 2 = Some (esc_of_options 2 (test_esc_options\<lparr>o_pin := 9\<rparr>))"
  "b_io test_array_board = []"
  by (simp_all add: test_array_board_def new_esc_def empty_board_def purge_def test_esc_options_def
      esc_of_options_def Let_def)

subsection \<open>Group calls and purge\<close>

lemma board_speed_some:
  "b_escs b i = Some e \<Longrightarrow>
   board_speed i v b = Inr (b\<lparr>b_escs := (b_escs b)(i \<mapsto> fst (esc_speed v e (b_next_timer b))),
                             b_next_timer := fst (snd (esc_speed v e (b_next_timer b))),
                             b_io := b_io b @ snd (snd (esc_speed v e (b_next_timer b)))\<rparr>)"
  by (simp add: board_speed_def with_esc_def split_def Let_def)

lemma esc_speed_committed: "esc_wf e \<Longrightarrow> committed v (fst (esc_speed v e h))"
  by (auto simp: committed_def esc_speed_def Let_def esc_wf_def range_lo_def range_hi_def)

lemma esc_speed_io_handle: "snd (snd (esc_speed v e h)) = snd (snd (esc_speed v e h'))"
  by (simp add: esc_speed_def Let_def)

lemma esc_speed_again: "snd (snd (esc_speed v (fst (esc_speed v e h)) h')) = []"
  by (simp add: esc_speed_def Let_def range_lo_def range_hi_def)

lemma concat_map_filter_out:
  "(\<And>j. j \<noteq> i \<Longrightarrow> f j = g j) \<Longrightarrow> f i = [] \<Longrightarrow>
   concat (map f xs) = concat (map g (filter (\<lambda>y. y \<noteq> i) xs))"
  by (induction xs) auto

lemma group_speed_Cons:
  "group_speed (i # is) v b = (case board_speed i v b of Inl err \<Rightarrow> Inl err | Inr b1 \<Rightarrow> group_speed is v b1)"
  by (simp add: group_speed_def split: sum.split)

lemma group_speed_members:
  assumes "board_inv b" and "\<forall>i\<in>set is. b_escs b i \<noteq> None"
  shows "\<exists>b'. group_speed is v b = Inr b' \<and>
           (\<forall>i\<in>set is. \<exists>e. b_escs b' i = Some e \<and> committed v e \<and> esc_range e = esc_range (the (b_escs b i))) \<and>
           (\<forall>j. j \<notin> set is \<longrightarrow> b_escs b' j = b_escs b j) \<and>
           b_io b' = b_io b @ concat (map (\<lambda>i. snd (snd (esc_speed v (the (b_escs b i)) 0))) (first_occurrences is)) \<and>
           b_registry b' = b_registry b"
  using assms
proof (induction "is" arbitrary: b)
  case Nil
  then show ?case by (simp add: group_speed_def)
next
  case (Cons i "is")
  obtain e where e: "b_escs b i = Some e" using Cons.prems(2) by auto
  let ?b1 = "b\<lparr>b_escs := (b_escs b)(i \<mapsto> fst (esc_speed v e (b_next_timer b))),
                b_next_timer := fst (snd (esc_speed v e (b_next_timer b))),
                b_io := b_io b @ snd (snd (esc_speed v e (b_next_timer b)))\<rparr>"
  have sp: "board_speed i v b = Inr ?b1" using e by (rule board_speed_some)
  have inv1: "board_inv ?b1" using board_speed_inv [OF Cons.prems(1), of i v] sp by simp
  have wf: "esc_wf e" using Cons.prems(1) e by (simp add: board_inv_def esc_entry_ok_def)
  have pres: "\<forall>j\<in>set is. b_escs ?b1 j \<noteq> None" using Cons.prems(2) by auto
  obtain b' where b': "group_speed is v ?b1 = Inr b'"
    and mem: "\<forall>j\<in>set is. \<exists>f. b_escs b' j = Some f \<and> committed v f \<and> esc_range f = esc_range (the (b_escs ?b1 j))"
    and out: "\<forall>j. j \<notin> set is \<longrightarrow> b_escs b' j = b_escs ?b1 j"
    and io: "b_io b' = b_io ?b1 @ concat (map (\<lambda>j. snd (snd (esc_speed v (the (b_escs ?b1 j)) 0))) (first_occurrences is))"
    and reg: "b_registry b' = b_registry b"
    using Cons.IH [OF inv1 pres] by auto
  have head: "\<exists>f. b_escs b' i = Some f \<and> committed v f \<and> esc_range f = esc_range e"
  proof (cases "i \<in> set is")
    case True
    then show ?thesis using mem by auto
  next
    case False
    then show ?thesis using out esc_speed_committed [OF wf] by simp
  qed
  have "concat (map (\<lambda>j. snd (snd (esc_speed v (the (b_escs ?b1 j)) 0))) (first_occurrences is)) =
        concat (map (\<lambda>j. snd (snd (esc_speed v (the (b_escs b j)) 0))) (filter (\<lambda>y. y \<noteq> i) (first_occurrences is)))"
    by (rule concat_map_filter_out) (simp_all add: esc_speed_again)
  then have "b_io b' = b_io b @ concat (map (\<lambda>j. snd (snd (esc_speed v (the (b_escs b j)) 0))) (first_occurrences (i # is)))"
    using io e esc_speed_io_handle [of v e "b_next_timer b" 0] by simp
  moreover have "\<forall>j\<in>set (i # is). \<exists>f. b_escs b' j = Some f \<and> committed v f \<and> esc_range f = esc_range (the (b_escs b j))"
    using head mem e by auto
  moreover have "\<forall>j. j \<notin> set (i # is) \<longrightarrow> b_escs b' j = b_escs b j" using out by simp
  ultimately show ?case using b' reg sp by (simp add: group_speed_Cons)
qed

lemma group_brake_io:
  "\<forall>i\<in>set is. b_escs b i \<noteq> None \<Longrightarrow>
   group_brake is b = Inr (b\<lparr>b_io := b_io b @ concat (map (\<lambda>i. esc_brake (the (b_escs b i))) is)\<rparr>)"
proof (induction "is" arbitrary: b)
  case Nil
  then show ?case by (simp add: group_brake_def)
next
  case (Cons i "is")
  then obtain e where e: "b_escs b i = Some e" by auto
  have "group_brake is (b\<lparr>b_io := b_io b @ esc_brake e\<rparr>) =
        Inr (b\<lparr>b_io := b_io b @ esc_brake e @ concat (map (\<lambda>i. esc_brake (the (b_escs b i))) is)\<rparr>)"
    using Cons.IH [of "b\<lparr>b_io := b_io b @ esc_brake e\<rparr>"] Cons.prems by simp
  then show ?case using e by (simp add: group_brake_def board_brake_def with_esc_def)
qed

lemma board_speed_purge: "board_speed i v (purge b) = map_sum (apsnd purge) purge (board_speed i v b)"
  by (simp add: board_speed_def with_esc_def purge_def split_def Let_def split: option.split)

lemma board_brake_purge: "board_brake i (purge b) = map_sum (apsnd purge) purge (board_brake i b)"
  by (simp add: board_brake_def with_esc_def purge_def split: option.split)

lemma board_direction_purge:
  "board_direction fwd i s (purge b) = map_sum (apsnd purge) purge (board_direction fwd i s b)"
  by (simp add: board_direction_def with_esc_def purge_def split: option.split sum.split prod.split)

lemma group_apply_purge:
  assumes "\<And>i b. f i (purge b) = map_sum (apsnd purge) purge (f i b)"
  shows "group_apply f is (purge b) = map_sum (apsnd purge) purge (group_apply f is b)"
proof (induction "is" arbitrary: b)
  case Nil
  then show ?case by simp
next
  case (Cons i "is")
  then show ?case using assms [of i b] by (cases "f i b") simp_all
qed

lemma board_inv_neutral:
  "board_inv b \<Longrightarrow> b_escs b i = Some e \<Longrightarrow> esc_variant e = FORWARD_REVERSE \<Longrightarrow> esc_neutral e \<noteq> None"
  by (simp add: board_inv_def esc_entry_ok_def)

lemma test_fr_board_reachable: "board_reachable test_fr_board"
  unfolding test_fr_board_def by (intro board_reachable.step board_reachable.start)

lemma test_fr_board_esc:
  "b_escs test_fr_board 0 =
     Some ((esc_of_options 0 test_fr_options)\<lparr>esc_current := 50, esc_value := 101 / 2,
             esc_last_speed := Some (101 / 2), esc_last_value := Some 50, esc_ramp := Some 0\<rparr>)"
  "b_io test_fr_board = [ServoWrite (PinNum 11) 90]"
  by (simp_all add: test_fr_board_def new_esc_def empty_board_def board_direction_def with_esc_def
      esc_forward_def direction_target_def esc_speed_def esc_of_options_def test_fr_options_def
      constrain_def range_lo_def range_hi_def fscale_def esc_write_def pwm_value_def default_pwmRange_def Let_def)

subsection \<open>Properties of the board and the groups\<close>

text \<open>
  Claim C24. Every board reachable from the empty board by any sequence of
  operations (constructions, speed, forward, reverse, brake, interval firings, purge
  and group calls, returning or throwing) keeps \<open>board_inv\<close>: each stored ESC is
  well-formed and carries its own id, ramp handles are fresh and no two ESCs share
  one, a FORWARD_REVERSE ESC has a neutral point, a PCA9685 ESC has a driver for its
  address, the registry lists stored ESCs without repetition and there is at most one
  driver per address.
\<close>

theorem board_reachable_inv: "board_reachable b \<Longrightarrow> board_inv b"
  by (rule reachable_board_inv)

theorem board_reachable_inv_witness: "board_reachable test_array_board \<and> board_inv test_array_board"
  using board_reachable_inv [OF test_array_board_reachable] test_array_board_reachable by simp

text \<open>
  Claim C25. On a reachable board, a group \<open>speed(v)\<close> over members that exist
  returns, leaves every member with \<open>v\<close> clamped into its own range committed as its
  target and last speed, touches no ESC outside the group and leaves the registry
  alone. Synchronously it writes only the first commands: in the group's order, each
  member on its first occurrence writes what \<open>speed\<close> writes for it (its
  target, when it has never been commanded, and nothing otherwise); a repeated
  member's second command is a duplicate and writes nothing.
\<close>

theorem group_speed_each_member:
  assumes "board_reachable b" and "\<forall>i\<in>set is. b_escs b i \<noteq> None"
  shows "\<exists>b'. group_speed is v b = Inr b' \<and>
           (\<forall>i\<in>set is. \<exists>e. b_escs b' i = Some e \<and> committed v e \<and> esc_range e = esc_range (the (b_escs b i))) \<and>
           (\<forall>j. j \<notin> set is \<longrightarrow> b_escs b' j = b_escs b j) \<and>
           b_io b' = b_io b @ concat (map (\<lambda>i. snd (snd (esc_speed v (the (b_escs b i)) 0))) (first_occurrences is)) \<and>
           b_registry b' = b_registry b"
  using group_speed_members [OF reachable_board_inv [OF assms(1)] assms(2)] .

theorem group_speed_each_member_witness:
  "\<exists>b'. group_speed [0, 1, 0, 2] 100 test_array_board = Inr b' \<and>
      (\<forall>i\<in>set [0, 1, 0, 2]. \<exists>e. b_escs b' i = Some e \<and> committed 100 e \<and>
          esc_range e = esc_range (the (b_escs test_array_board i))) \<and>
      (\<forall>j. j \<notin> set [0, 1, 0, 2] \<longrightarrow> b_escs b' j = b_escs test_array_board j) \<and>
      b_io b' = [ServoWrite (PinNum 3) 180, ServoWrite (PinNum 6) 180, ServoWrite (PinNum 9) 180] \<and>
      b_registry b' = b_registry test_array_board"
  using group_speed_each_member [OF test_array_board_reachable, of "[0, 1, 0, 2]" 100]
  by (simp add: test_array_board_eval esc_speed_def esc_write_def pwm_value_def esc_of_options_def
      test_esc_options_def default_pwmRange_def constrain_def range_lo_def range_hi_def Let_def)

text \<open>
  Claim C26. A group \<open>brake()\<close> makes exactly the members' brake writes, one
  member after the other in the group's order, and changes nothing else.
\<close>

theorem group_brake_in_member_order:
  assumes "\<forall>i\<in>set is. b_escs b i \<noteq> None"
  shows "group_brake is b = Inr (b\<lparr>b_io := b_io b @ concat (map (\<lambda>i. esc_brake (the (b_escs b i))) is)\<rparr>)"
  using assms by (rule group_brake_io)

theorem group_brake_in_member_order_witness:
  "group_brake [0, 1, 2] test_array_board =
     Inr (test_array_board\<lparr>b_io := [ServoWrite (PinNum 3) 0, ServoWrite (PinNum 6) 0, ServoWrite (PinNum 9) 0]\<rparr>)"
  using group_brake_in_member_order [of "[0, 1, 2]" test_array_board]
  by (simp add: test_array_board_eval esc_brake_def esc_write_def pwm_value_def esc_of_options_def
      test_esc_options_def default_pwmRange_def Let_def)

text \<open>
  Claim C27. \<open>brake()\<close> on an ESC with a running ramp is one immediate write of
  the neutral value that bypasses the ramp: the ESC state, the ramp handle included,
  is unchanged, so the next firing of the interval writes the ramp's next step right
  after the brake.
\<close>

theorem brake_bypasses_ramp:
  assumes "b_escs b i = Some e" and "esc_ramp e = Some h"
  shows "board_brake i b = Inr (b\<lparr>b_io := b_io b @ esc_brake e\<rparr>) \<and> length (esc_brake e) = 1 \<and>
         b_io (board_after (board_tick i (board_after (board_brake i b)))) =
           b_io b @ esc_brake e @ esc_write e (step_toward (esc_current e) (esc_value e))"
  using assms by (simp add: board_brake_def board_tick_def with_esc_def esc_brake_def esc_tick_def Let_def)

theorem brake_bypasses_ramp_witness:
  "b_io (board_after (board_tick 0 (board_after (board_brake 0 test_fr_board)))) =
     [ServoWrite (PinNum 11) 90, ServoWrite (PinNum 11) 90, ServoWrite (PinNum 11) (909 / 10)]"
proof -
  let ?e = "(esc_of_options 0 test_fr_options)\<lparr>esc_current := 50, esc_value := 101 / 2,
             esc_last_speed := Some (101 / 2), esc_last_value := Some 50, esc_ramp := Some 0\<rparr>"
  have "b_io (board_after (board_tick 0 (board_after (board_brake 0 test_fr_board)))) =
        b_io test_fr_board @ esc_brake ?e @ esc_write ?e (step_toward (esc_current ?e) (esc_value ?e))"
  proof -
    have r: "esc_ramp ?e = Some 0" by simp
    show ?thesis using brake_bypasses_ramp [OF test_fr_board_esc(1) r] by (elim conjE)
  qed
  then show ?thesis
    by (simp add: test_fr_board_esc(2) esc_brake_def esc_write_def pwm_value_def step_toward_def
        esc_of_options_def test_fr_options_def default_pwmRange_def constrain_def Let_def)
qed

text \<open>
  Claim C28. A successful construction takes the next id, appends it to the
  registry, leaves every other ESC untouched, stores an ESC on the requested pin whose
  target is its start value clamped into the range (or its initial value when it has
  none), and shares the PCA9685 driver of an address that already has one.
\<close>

theorem new_esc_registers:
  assumes "new_esc opts b = Inr (i, b')"
  shows "i = b_next_id b \<and> b_registry b' = b_registry b @ [i] \<and>
         (\<forall>j. j \<noteq> i \<longrightarrow> b_escs b' j = b_escs b j) \<and>
         (\<exists>e. b_escs b' i = Some e \<and> esc_id e = i \<and> esc_pin e = o_pin opts \<and>
              esc_value e = (case esc_startAt e of None \<Rightarrow> esc_current e
                             | Some st \<Rightarrow> constrain st (range_lo e) (range_hi e)) \<and>
              (esc_variant e = PCA9685 \<longrightarrow> esc_address e \<in> set (b_drivers b') \<and>
                 (esc_address e \<in> set (b_drivers b) \<longrightarrow> b_drivers b' = b_drivers b)))"
proof -
  have ok: "\<not> (o_variant opts = FORWARD_REVERSE \<and> o_neutral opts = None)"
    using assms by (auto simp: new_esc_def split: if_splits)
  let ?e = "esc_of_options (b_next_id b) opts"
  show ?thesis
  proof (cases "esc_startAt ?e")
    case None
    then show ?thesis using assms ok
      by (auto simp: new_esc_def Let_def esc_of_options_def)
  next
    case (Some st)
    then show ?thesis using assms ok
      by (auto simp: new_esc_def Let_def esc_speed_def range_lo_def range_hi_def
          esc_of_options_def split: if_splits)
  qed
qed

theorem new_esc_registers_witness:
  "new_esc test_fr_options empty_board = Inr (0, board_after (board_apply (NewESC test_fr_options) empty_board)) \<and>
   b_registry (board_after (board_apply (NewESC test_fr_options) empty_board)) = [0] \<and>
   esc_value (the (b_escs (board_after (board_apply (NewESC test_fr_options) empty_board)) 0)) = 50"
proof -
  let ?b' = "board_after (board_apply (NewESC test_fr_options) empty_board)"
  have n: "new_esc test_fr_options empty_board = Inr (0, ?b')"
    by (simp add: new_esc_def empty_board_def test_fr_options_def Let_def split_def)
  have st: "esc_startAt (esc_of_options 0 test_fr_options) = Some 50"
    by (simp add: esc_of_options_def test_fr_options_def Let_def)
  obtain e where e: "b_escs ?b' 0 = Some e"
    and v: "esc_value e = (case esc_startAt e of None \<Rightarrow> esc_current e
                           | Some st \<Rightarrow> constrain st (range_lo e) (range_hi e))"
    and reg: "b_registry ?b' = b_registry empty_board @ [0]"
    using new_esc_registers [OF n] by auto
  have "e = fst (esc_speed 50 (esc_of_options 0 test_fr_options) 0)"
    using e st by (simp add: new_esc_def empty_board_def test_fr_options_def Let_def split_def)
  then have "esc_startAt e = Some 50" "esc_range e = (0, 100)"
    by (simp_all add: esc_speed_def esc_of_options_def test_fr_options_def Let_def)
  then have "esc_value e = 50" using v by (simp add: constrain_def range_lo_def range_hi_def)
  then show ?thesis using n e reg by (simp add: empty_board_def)
qed

text \<open>
  Claim C29. On a reachable board \<open>forward\<close> and \<open>reverse\<close> of a FORWARD_REVERSE ESC
  never throw: the constructor's configuration check guarantees the neutral point
  the directional wrapper needs.
\<close>

theorem forward_reverse_never_unconfigured:
  assumes "board_reachable b" and "b_escs b i = Some e" and "esc_variant e = FORWARD_REVERSE"
  shows "\<exists>b'. board_direction fwd i s b = Inr b'"
proof -
  obtain n where "esc_neutral e = Some n"
    using board_inv_neutral [OF reachable_board_inv [OF assms(1)] assms(2,3)] by auto
  then show ?thesis using assms(2,3)
    by (cases fwd) (simp_all add: board_direction_def with_esc_def esc_forward_def esc_reverse_def
        direction_target_def split_def)
qed

theorem forward_reverse_never_unconfigured_witness:
  "\<exists>b'. board_direction True 0 100 test_fr_board = Inr b'"
  using forward_reverse_never_unconfigured [OF test_fr_board_reachable test_fr_board_esc(1)]
  by (simp add: esc_of_options_def test_fr_options_def Let_def)

text \<open>
  Claim C30. \<open>purge()\<close> empties the registry, so that a group built from it
  afterwards is empty, but keeps every ESC object, and a group built before the purge
  acts on its members exactly as without the purge: speed, forward, reverse and brake
  return the same results, up to the emptied registry.
\<close>

theorem purge_keeps_escs:
  "b_escs (purge b) = b_escs b \<and> new_group AllESCs (purge b) = Inr [] \<and>
   group_speed is v (purge b) = map_sum (apsnd purge) purge (group_speed is v b) \<and>
   group_forward is s (purge b) = map_sum (apsnd purge) purge (group_forward is s b) \<and>
   group_reverse is s (purge b) = map_sum (apsnd purge) purge (group_reverse is s b) \<and>
   group_brake is (purge b) = map_sum (apsnd purge) purge (group_brake is b)"
proof -
  have "group_forward is s (purge b) = map_sum (apsnd purge) purge (group_forward is s b)"
    unfolding group_forward_def by (rule group_apply_purge) (rule board_direction_purge)
  moreover have "group_reverse is s (purge b) = map_sum (apsnd purge) purge (group_reverse is s b)"
    unfolding group_reverse_def by (rule group_apply_purge) (rule board_direction_purge)
  moreover have "group_speed is v (purge b) = map_sum (apsnd purge) purge (group_speed is v b)"
    unfolding group_speed_def by (rule group_apply_purge) (rule board_speed_purge)
  moreover have "group_brake is (purge b) = map_sum (apsnd purge) purge (group_brake is b)"
    unfolding group_brake_def by (rule group_apply_purge) (rule board_brake_purge)
  ultimately show ?thesis by (simp add: purge_def new_group_def)
qed

end
