(* ===== verification/Spec2Isabelle.thy ===== *)
theory Spec2Isabelle
  imports Joystick ESC_Group
begin

text \<open>
  \<^bold>\<open>A verification development of the johnny-five joystick and ESC cores.\<close>

  The program has two subsystems that share the hardware-capability object \<open>io\<close>.
  The acquisition side (\<open>src/lib/joystick.js\<close>) is a \<open>Multiplexer\<close> that routes one
  analog pin to one of 16 channels by four digital lines, two controllers (ANALOG:
  two pins read independently; ESPLORA: one pin behind the multiplexer) that combine
  readings into samples \<open>{x, y}\<close>, and the \<open>Joystick\<close> constructor whose data handler
  keeps per-axis caches and emits "data" and "change". The actuation side
  (\<open>lib/esc.js\<close>, not among the sources under \<open>src/\<close>, modelled from the spec and
  \<open>src/test/esc.js\<close>) is the ESC: a ramped speed controller with two output drivers
  (direct servo write, PCA9685 over I2C), a directional wrapper around a neutral
  point, and \<open>ESC.Array\<close>, a group over a process-wide registry.

  \<^bold>\<open>Theories and the code they model.\<close>
  \<^item> \<open>J5_Prelude\<close>: JavaScript numbers as \<open>real\<close>, pins, the \<open>io\<close> calls as a log of
    \<open>io_event\<close>s, plain objects as association lists (\<open>js_set\<close> keeps the insertion
    order of \<open>Object.keys\<close>), and \<open>fscale\<close> (\<open>lib/fn.js\<close>) and \<open>constrain\<close>
    (\<open>lib/board.js\<close>), modelled from their documented formulas.
  \<^item> \<open>Multiplexer\<close>: \<open>Multiplexer\<close> and \<open>select\<close> (joystick.js lines 8-24), each a
    list of io calls; \<open>mux_channel\<close> reads the routed channel off the levels the
    four control pins last received in an io log.
  \<^item> \<open>Joystick_Controllers\<close>: the \<open>initialize\<close> closures of ANALOG (lines 27-55) and
    ESPLORA (lines 56-112). Closure variables are records (\<open>analog_state\<close>,
    \<open>esplora_state\<close>); each callback is a step function returning the new state, the
    emitted sample (an option) and its io calls; \<open>analog_run\<close> and \<open>esplora_run\<close> run
    a sequence of callbacks. The ESPLORA listener and the pending \<open>setTimeout\<close> are
    the phases \<open>Reading\<close> and \<open>Settling\<close>: a report is only delivered to a registered
    listener and a timeout only fires when pending, so every interleaving of the two
    event kinds is an input list.
  \<^item> \<open>Joystick\<close>: the constructor (lines 130-226): controller resolution
    (\<open>resolve_controller\<close>, \<open>controller_table\<close> after \<open>toUpperCase\<close>), \<open>toAxis\<close>
    resolution, the private state of two sensors, and the data handler
    \<open>on_data\<close> = \<open>handle_axes\<close> (the \<open>Object.keys(data).forEach\<close> loop over
    \<open>update_axis\<close>) followed by the emissions. Reading \<open>state[axis]\<close> for an axis
    without a sensor throws; this is \<open>Inl (TypeError, state)\<close> with the state as
    the loop left it. \<open>joystick_step\<close> delivers a controller callback and its sample to
    the handler.
  \<^item> \<open>ESC\<close>: one ESC as a record; \<open>esc_speed\<close> (clamp, duplicate guard, cancel of
    the running ramp; the first command of an ESC is written at once, every later
    one restarts the ramp with a fresh interval handle), \<open>esc_tick\<close> (one firing of
    the ramp interval: one unit toward the target, one write), the output drivers
    (\<open>esc_write\<close>, \<open>pca9685_frame\<close> as \<open>8 word\<close> bytes, with \<open>pca9685_decode\<close> reading
    a frame back as the device does), \<open>direction_target\<close> with \<open>esc_forward\<close> and
    \<open>esc_reverse\<close>, \<open>esc_brake\<close> and the constructor \<open>esc_of_options\<close>.
  \<^item> \<open>ESC_Group\<close>: the board context of spec section 9: the ESC store, the registry
    (creation order), the PCA9685 driver table (one per address), id and handle
    counters and the io log; \<open>new_esc\<close> (with its configuration error), the
    per-ESC calls, \<open>new_group\<close> (all registered ESCs, pins resolved against the
    registry, or ids), the group calls (\<open>group_apply\<close>: every member in order,
    stopping at a throw), \<open>purge\<close>; \<open>board_apply\<close> is one public call and
    \<open>board_reachable\<close> the boards reachable by any sequence of calls.

  \<^bold>\<open>What is proved.\<close>
  \<^item> Change detection (\<open>Joystick\<close>): the closed form of the handler on a sample
    \<open>{x, y}\<close>; "change" is emitted exactly when the transformed pair differs from the
    stored one or the y cached by the x sensor is stale, so an identical sample after
    a y change still reports a change; "data" carries the untransformed values; a
    third pin throws; built-in controllers ignore \<open>opts.toAxis\<close>; the controller
    name fallbacks; the range of the built-in \<open>toAxis\<close>.
  \<^item> Acquisition (\<open>Joystick_Controllers\<close>): ANALOG emits one sample per two
    readings and combines a round of both pins; the ESPLORA closure invariant holds
    in every reachable state; whenever the handler waits, the multiplexer is set to
    the channel of the axis it will write; n report/settle rounds emit exactly the n
    samples \<open>{x: a, y: b}\<close>. \<open>Multiplexer\<close>: on four distinct pins, the
    levels that \<open>select\<close> leaves on the control lines decode to the selected channel,
    whatever was written before, for every channel in [0, 15].
  \<^item> Ramp (\<open>ESC\<close>): from any well-formed ESC the ramp ends after exactly
    \<open>ramp_steps\<close> firings (the distance to the target rounded up: each firing takes
    one unit off it, so no fuel is needed and none is assumed); the writes of a ramp
    over an integral distance are the unit steps in order; the first command writes
    its target at once and starts no ramp; duplicate requests keep the ramp, new
    requests replace it; targets are clamped; a PCA9685 write decodes, register by
    register, to the pin, an on count 0 and the 12-bit off count of the pulse; the
    directional mapping, and the error of a FORWARD_REVERSE ESC without neutral.
  \<^item> Board (\<open>ESC_Group\<close>): \<open>board_inv\<close> holds on every reachable board (rule
    induction over \<open>board_reachable\<close>, one preservation lemma per call); group
    speed commits on every member and nothing else; group brake writes in member
    order; group speed writes exactly the first commands of its members, each member
    once; brake bypasses a running ramp; construction registers in order and shares
    drivers; forward and reverse never fail on a reachable FORWARD_REVERSE ESC;
    purge empties the registry and keeps the ESCs.
  \<^item> Across components (this theory): the joystick pipeline of each built-in
    controller refines "controller, then change detector" (\<open>handler_run\<close> over the
    samples of \<open>analog_run\<close> or \<open>esplora_run\<close>); and a joystick built by the
    constructor and fed any sequence of report pairs emits exactly the events of
    \<open>detector\<close>, a small reference change detector over the pairs, with the getters
    reading the last pair (the "change" tests of \<open>src/test/joystick.js\<close> are its
    witnesses).
  Each property is illustrated on the setups of \<open>src/test/joystick.js\<close> and
  \<open>src/test/esc.js\<close> (\<open>test_esc_options\<close>, \<open>test_array_board\<close>, ...).

  \<^bold>\<open>Modelling choices.\<close> Numbers are exact reals, so IEEE rounding is not
  modelled; bytes are taken modulo 256 as the bus does. Time is abstracted to the
  order of callbacks: an interval firing or a timeout is an input event, and the
  step period (10 ms in the spec, 1 ms in the tests) plays no role. The ESC's
  initial value is \<open>constrain(0, range)\<close>; device ranges default to [0, 180] for the
  servo driver and [544, 2400] microseconds for the PCA9685 at 4 microseconds per
  count, which reproduce the tests' expected writes. Spec section 4.1 says every
  speed request ramps; \<open>src/test/esc.js\<close> expects the first request of an ESC to
  be written directly (one write of 9/5 for speed 1, a first PCA9685 frame of 182
  counts for 50), and the model follows the tests. \<open>forward\<close> and \<open>reverse\<close> on
  an ESC that is not FORWARD_REVERSE change nothing (the spec does not say), and
  \<open>brake\<close> without a neutral writes 0, the bottom of the ESC's scale.

  \<^bold>\<open>Not modelled.\<close> Board bootstrap and connection, \<open>Board.Component\<close> and
  \<open>Board.Options\<close> (the joystick's \<open>board\<close> and \<open>io\<close> come from them), the
  EventEmitter machinery beyond the list of emitted events, the REPL, the transport
  of io calls, and the \<open>instanceof\<close> guard of the constructor (lines 131-133, which
  only re-invokes the constructor with \<open>new\<close>).
\<close>

section \<open>Properties spanning the components\<close>

subsection \<open>The change detector as a function of the controller's samples\<close>

text \<open>
  \<open>handler_run\<close> feeds a list of samples to the data handler of \<open>Joystick\<close> one
  after the other, collecting the events and stopping at a throw; it is the
  specification against which the composed pipeline of a joystick (controller
  callbacks routed through \<open>deliver\<close>) is compared. \<open>xy_object\<close> says that a sample
  has exactly the properties x and y, in this order.
\<close>

fun handler_run ::
  "(number \<Rightarrow> number) \<Rightarrow> js_object list \<Rightarrow> joystick_state \<Rightarrow>
   (js_error \<times> joystick_state) + (joystick_state \<times> joystick_event list)" where
  "handler_run T [] st = Inr (st, [])"
| "handler_run T (d # ds) st =
     (case on_data T d st of
        Inl err \<Rightarrow> Inl err
      | Inr (st1, evs1) \<Rightarrow>
          (case handler_run T ds st1 of
             Inl err \<Rightarrow> Inl err
           | Inr (st2, evs2) \<Rightarrow> Inr (st2, evs1 @ evs2)))"

definition xy_object :: "js_object \<Rightarrow> bool" where
  "xy_object d \<longleftrightarrow> js_keys d = [''x'', ''y'']"

text \<open>
  The setups of \<open>src/test/joystick.js\<close>: \<open>new Joystick({pins: ["A0", "A1"]})\<close> and
  \<open>new Joystick({controller: "ESPLORA"})\<close>; a pair of reports as the tests deliver
  them (x then y; for ESPLORA each report followed by the settle timeout).
\<close>

definition analog_test_options :: joystick_options where
  "analog_test_options = \<lparr>opt_pins = [PinName ''A0'', PinName ''A1''], opt_controller = None, opt_toAxis = None\<rparr>"

definition esplora_test_options :: joystick_options where
  "esplora_test_options = \<lparr>opt_pins = [], opt_controller = Some (ControllerName ''ESPLORA''), opt_toAxis = None\<rparr>"

definition analog_report_pair :: "number \<Rightarrow> number \<Rightarrow> joystick_input list" where
  "analog_report_pair a b = [PinReport 0 a, PinReport 1 b]"

definition esplora_report_pair :: "number \<Rightarrow> number \<Rightarrow> joystick_input list" where
  "esplora_report_pair a b = map EsploraEvent (esplora_round a b)"

text \<open>
  The reference change detector. Its state is the previous sample and the y value
  before it (\<open>None\<close> before the first sample); \<open>detect_step\<close> emits "data" for
  every sample and "change" on the first sample and whenever the transformed x
  changed, the transformed y changed, or the x sensor's cached y (the y before the
  previous sample) differs from the previous y. \<open>detector_state\<close> is the handler
  state that such a detector state stands for, and \<open>xy_sample\<close> the object
  \<open>{x: a, y: b}\<close> a controller emits.
\<close>

type_synonym detector = "(number \<times> number \<times> number) option"

definition detect_step :: "(number \<Rightarrow> number) \<Rightarrow> detector \<Rightarrow> number \<times> number \<Rightarrow> detector \<times> joystick_event list" where
  "detect_step T p s =
     (case s of (a, b) \<Rightarrow>
        (case p of
           None \<Rightarrow> (Some (a, b, 0), [DataEvent a b, ChangeEvent a b])
         | Some (pa, pb, y0) \<Rightarrow>
             (Some (a, b, pb),
              DataEvent a b # (if T pa \<noteq> T a \<or> T y0 \<noteq> T pb \<or> T pb \<noteq> T b then [ChangeEvent a b] else []))))"

fun detector :: "(number \<Rightarrow> number) \<Rightarrow> detector \<Rightarrow> (number \<times> number) list \<Rightarrow> detector \<times> joystick_event list" where
  "detector T p [] = (p, [])"
| "detector T p (s # ps) =
     (let (p1, evs1) = detect_step T p s; (p2, evs2) = detector T p1 ps in (p2, evs1 @ evs2))"

definition detector_state :: "(number \<Rightarrow> number) \<Rightarrow> detector \<Rightarrow> joystick_state" where
  "detector_state T p =
     (case p of
        None \<Rightarrow> initial_state
      | Some (a, b, y0) \<Rightarrow>
          \<lparr>st_x = initial_sensor\<lparr>s_value := a, s_x := Some (T a), s_y := Some (T y0)\<rparr>,
           st_y = initial_sensor\<lparr>s_value := b, s_x := Some (T a), s_y := Some (T b)\<rparr>\<rparr>)"

definition xy_sample :: "number \<times> number \<Rightarrow> js_object" where
  "xy_sample s = (case s of (a, b) \<Rightarrow> [(''x'', a), (''y'', b)])"

subsection \<open>Lemmas\<close>

lemma on_data_xy_Inr: "xy_object d \<Longrightarrow> \<exists>st' evs. on_data T d st = Inr (st', evs)"
  by (auto simp: xy_object_def on_data_xy Let_def dest!: js_keys_two)

lemma handler_run_append:
  "handler_run T (ds1 @ ds2) st =
     (case handler_run T ds1 st of
        Inl err \<Rightarrow> Inl err
      | Inr (st1, evs1) \<Rightarrow>
          (case handler_run T ds2 st1 of
             Inl err \<Rightarrow> Inl err
           | Inr (st2, evs2) \<Rightarrow> Inr (st2, evs1 @ evs2)))"
  by (induction ds1 arbitrary: st) (auto split: sum.split prod.split)

lemma handler_run_xy:
  "\<forall>d\<in>set ds. xy_object d \<Longrightarrow> \<exists>st' evs. handler_run T ds st = Inr (st', evs)"
proof (induction ds arbitrary: st)
  case Nil
  then show ?case by simp
next
  case (Cons d ds)
  have "xy_object d" using Cons.prems by simp
  then obtain st1 evs1 where "on_data T d st = Inr (st1, evs1)" using on_data_xy_Inr by blast
  moreover obtain st2 evs2 where "handler_run T ds st1 = Inr (st2, evs2)"
    using Cons.IH [of st1] Cons.prems by auto
  ultimately show ?case by simp
qed

lemma analog_on_read_xy:
  assumes "xy_object (a_points a)" and "i < 2"
  shows "xy_object (a_points (fst (analog_on_read i v a))) \<and>
         (\<forall>d. snd (analog_on_read i v a) = Some d \<longrightarrow> xy_object d)"
proof -
  have "axis_key i \<in> set (js_keys (a_points a))"
    using assms by (auto simp: xy_object_def axis_key_def axes_def less_2_cases_iff)
  then have "xy_object (js_set (axis_key i) v (a_points a))"
    using assms(1) by (simp add: xy_object_def js_set_keys_present)
  then show ?thesis by (simp add: analog_on_read_def Let_def)
qed

lemma deliver_handler:
  "deliver j e =
     (case handler_run (j_toAxis j) (emitted e) (j_state j) of
        Inl (err, st) \<Rightarrow> Inl (err, j\<lparr>j_state := st\<rparr>)
      | Inr (st, evs) \<Rightarrow> Inr (j\<lparr>j_state := st\<rparr>, evs))"
  by (cases e) (auto simp: deliver_def split: sum.split prod.split)

lemma esplora_step_xy:
  assumes "esplora_inv s"
  shows "\<forall>d\<in>set (emitted (fst (snd (esplora_step inp s)))). xy_object d"
proof (cases inp)
  case (ReadReport v)
  from assms have "e_index s = 0 \<or> e_index s = 1" and k: "js_keys (e_points s) = [''x'', ''y'']"
    by (auto simp: esplora_inv_def)
  then have "axis_key (e_index s) \<in> set (js_keys (e_points s))" by auto
  then have "xy_object (js_set (axis_key (e_index s)) v (e_points s))"
    using k by (simp add: xy_object_def js_set_keys_present)
  then show ?thesis using ReadReport by (simp add: esplora_on_read_def Let_def)
next
  case SettleTimeout
  then show ?thesis by (simp add: split_def Let_def)
qed

lemma analog_test_joystick:
  "new_joystick analog_test_options =
     (\<lparr>j_controller = Analog, j_pins = [PinName ''A0'', PinName ''A1''], j_toAxis = default_toAxis,
       j_state = initial_state, j_pipe = AnalogPipe analog_initial\<rparr>,
      [PinMode (PinName ''A0'') ANALOG, AnalogRead (PinName ''A0''), PinMode (PinName ''A1'') ANALOG,
       AnalogRead (PinName ''A1'')])"
  by (simp add: new_joystick_analog analog_test_options_def analog_initialize_def)

lemma esplora_test_joystick:
  "new_joystick esplora_test_options =
     (\<lparr>j_controller = Esplora, j_pins = [], j_toAxis = default_toAxis,
       j_state = initial_state, j_pipe = EsploraPipe (fst esplora_initialize)\<rparr>, snd esplora_initialize)"
  by (simp add: new_joystick_def esplora_test_options_def resolve_controller_def controller_table_def
      js_upper_def js_upper_char_def resolve_toAxis_def)

lemma analog_pipeline:
  assumes "j_pipe j = AnalogPipe a" and "xy_object (a_points a)"
    and "\<forall>(i, v)\<in>set rs. i < 2 \<and> i < length (j_pins j)"
  shows "\<exists>st evs. handler_run (j_toAxis j) (snd (analog_run rs a)) (j_state j) = Inr (st, evs) \<and>
           joystick_run (map (\<lambda>(i, v). PinReport i v) rs) j =
             Inr (j\<lparr>j_state := st, j_pipe := AnalogPipe (fst (analog_run rs a))\<rparr>, evs, [])"
  using assms
proof (induction rs arbitrary: j a)
  case Nil
  then show ?case by simp
next
  case (Cons r rs)
  obtain i v where r: "r = (i, v)" by (cases r)
  have i: "i < 2" "i < length (j_pins j)" using Cons.prems(3) r by auto
  let ?a1 = "fst (analog_on_read i v a)" and ?e = "snd (analog_on_read i v a)"
  have xy: "xy_object (a_points ?a1)" "\<forall>d\<in>set (emitted ?e). xy_object d"
    using analog_on_read_xy [OF Cons.prems(2) i(1), of v] by (auto simp: emitted_def split: option.split)
  obtain st1 evs1 where h1: "handler_run (j_toAxis j) (emitted ?e) (j_state j) = Inr (st1, evs1)"
    using handler_run_xy [OF xy(2)] by blast
  let ?j1 = "j\<lparr>j_pipe := AnalogPipe ?a1, j_state := st1\<rparr>"
  have step: "joystick_step (PinReport i v) j = Inr (?j1, evs1, [])"
    using Cons.prems(1) i h1 by (simp add: deliver_handler split_def)
  obtain st2 evs2 where h2: "handler_run (j_toAxis j) (snd (analog_run rs ?a1)) st1 = Inr (st2, evs2)"
    and run: "joystick_run (map (\<lambda>(i, v). PinReport i v) rs) ?j1 =
                Inr (?j1\<lparr>j_state := st2, j_pipe := AnalogPipe (fst (analog_run rs ?a1))\<rparr>, evs2, [])"
    using Cons.IH [of ?j1 ?a1] xy(1) Cons.prems(3) by auto
  show ?case using step run h1 h2 r by (simp add: handler_run_append)
qed

lemma esplora_pipeline:
  assumes "j_pipe j = EsploraPipe s" and "esplora_inv s"
  shows "\<exists>st evs. handler_run (j_toAxis j) (fst (snd (esplora_run is s))) (j_state j) = Inr (st, evs) \<and>
           joystick_run (map EsploraEvent is) j =
             Inr (j\<lparr>j_state := st, j_pipe := EsploraPipe (fst (esplora_run is s))\<rparr>, evs,
                  snd (snd (esplora_run is s)))"
  using assms
proof (induction "is" arbitrary: j s)
  case Nil
  then show ?case by simp
next
  case (Cons inp "is")
  obtain s1 e io1 where st: "esplora_step inp s = (s1, e, io1)" by (cases "esplora_step inp s") auto
  have inv1: "esplora_inv s1" using esplora_step_inv [OF Cons.prems(2), of inp] st by simp
  have xy: "\<forall>d\<in>set (emitted e). xy_object d" using esplora_step_xy [OF Cons.prems(2), of inp] st by simp
  obtain st1 evs1 where h1: "handler_run (j_toAxis j) (emitted e) (j_state j) = Inr (st1, evs1)"
    using handler_run_xy [OF xy] by blast
  let ?j1 = "j\<lparr>j_pipe := EsploraPipe s1, j_state := st1\<rparr>"
  have step: "joystick_step (EsploraEvent inp) j = Inr (?j1, evs1, io1)"
    using Cons.prems(1) st h1 by (simp add: deliver_handler)
  obtain st2 evs2 where h2: "handler_run (j_toAxis j) (fst (snd (esplora_run is s1))) st1 = Inr (st2, evs2)"
    and run: "joystick_run (map EsploraEvent is) ?j1 =
                Inr (?j1\<lparr>j_state := st2, j_pipe := EsploraPipe (fst (esplora_run is s1))\<rparr>, evs2,
                     snd (snd (esplora_run is s1)))"
    using Cons.IH [of ?j1 s1] inv1 by auto
  show ?case using step run h1 h2 st by (simp add: handler_run_append)
qed

lemma on_data_detector:
  "on_data T (xy_sample s) (detector_state T p) =
     Inr (detector_state T (fst (detect_step T p s)), snd (detect_step T p s))"
  by (cases s; cases p)
    (auto simp: xy_sample_def on_data_xy detector_state_def detect_step_def initial_state_def
      initial_sensor_def zero_offset_def Let_def)

lemma handler_run_detector:
  "handler_run T (map xy_sample ps) (detector_state T p) =
     Inr (detector_state T (fst (detector T p ps)), snd (detector T p ps))"
  by (induction ps arbitrary: p) (simp_all add: on_data_detector split_def Let_def)

lemma detector_last:
  "ps \<noteq> [] \<Longrightarrow> \<exists>y0. fst (detector T p ps) = Some (fst (last ps), snd (last ps), y0)"
  by (induction ps arbitrary: p rule: list_nonempty_induct)
    (auto simp: detect_step_def split_def Let_def split: option.split)

lemma detector_state_getters:
  "ps \<noteq> [] \<Longrightarrow>
   T (s_value (st_x (detector_state T (fst (detector T p ps))))) = T (fst (last ps)) \<and>
   T (s_value (st_y (detector_state T (fst (detector T p ps))))) = T (snd (last ps))"
  by (auto simp: detector_state_def dest!: detector_last [of ps T p])

lemma analog_run_append:
  "analog_run (rs1 @ rs2) a =
     (fst (analog_run rs2 (fst (analog_run rs1 a))), snd (analog_run rs1 a) @ snd (analog_run rs2 (fst (analog_run rs1 a))))"
proof (induction rs1 arbitrary: a)
  case Nil
  then show ?case by simp
next
  case (Cons r rs1)
  then show ?case by (cases r) simp
qed

lemma analog_rounds_run:
  assumes "a_count a = 0" and "js_keys (a_points a) = [''x'', ''y'']"
  shows "snd (analog_run (concat (map (\<lambda>(x, y). [(0, x), (1, y)]) ps)) a) = map xy_sample ps"
  using assms
proof (induction ps arbitrary: a)
  case Nil
  then show ?case by simp
next
  case (Cons s ps)
  obtain x y where s: "s = (x, y)" by (cases s)
  obtain p q where pts: "a_points a = [(''x'', p), (''y'', q)]" using Cons.prems(2) by (auto dest: js_keys_two)
  let ?a2 = "\<lparr>a_count = 0, a_points = [(''x'', x), (''y'', y)]\<rparr>"
  have "snd (analog_run [(0, x), (1, y)] a) = [xy_sample s]"
    "fst (analog_run [(0, x), (1, y)] a) = ?a2"
    using Cons.prems(1) pts s by (simp_all add: analog_on_read_def xy_sample_def Let_def)
  moreover have "snd (analog_run (concat (map (\<lambda>(x, y). [(0, x), (1, y)]) ps)) ?a2) = map xy_sample ps"
    by (rule Cons.IH) (simp_all add: js_keys_def)
  ultimately show ?case by (simp add: s analog_run_append)
qed

subsection \<open>Refinement of the joystick pipelines\<close>

text \<open>
  Claim C31. An ANALOG joystick whose two pins report (positions below 2 and
  within its pins) behaves as the ANALOG controller followed by the change detector:
  the run of the joystick never throws, its events are those of the data handler
  on the samples \<open>analog_run\<close> emits, its controller state is the one
  \<open>analog_run\<close> reaches, and it makes no io call.
\<close>

theorem analog_joystick_refines:
  assumes "j_pipe j = AnalogPipe a" and "xy_object (a_points a)"
    and "\<forall>(i, v)\<in>set rs. i < 2 \<and> i < length (j_pins j)"
  shows "\<exists>st evs. handler_run (j_toAxis j) (snd (analog_run rs a)) (j_state j) = Inr (st, evs) \<and>
           joystick_run (map (\<lambda>(i, v). PinReport i v) rs) j =
             Inr (j\<lparr>j_state := st, j_pipe := AnalogPipe (fst (analog_run rs a))\<rparr>, evs, [])"
  using assms by (rule analog_pipeline)

theorem analog_joystick_refines_witness:
  "\<exists>st evs. handler_run default_toAxis (snd (analog_run [(0, 512), (1, 560)] analog_initial)) initial_state = Inr (st, evs) \<and>
     joystick_run (map (\<lambda>(i, v). PinReport i v) [(0, 512), (1, 560)]) (fst (new_joystick analog_test_options)) =
       Inr ((fst (new_joystick analog_test_options))\<lparr>j_state := st,
              j_pipe := AnalogPipe (fst (analog_run [(0, 512), (1, 560)] analog_initial))\<rparr>, evs, [])"
proof -
  have p: "j_pipe (fst (new_joystick analog_test_options)) = AnalogPipe analog_initial"
    "xy_object (a_points analog_initial)"
    "\<forall>(i, v)\<in>set [(0::nat, 512::real), (1, 560)]. i < 2 \<and> i < length (j_pins (fst (new_joystick analog_test_options)))"
    by (simp_all add: analog_test_joystick xy_object_def analog_initial_def initial_points_def js_keys_def)
  show ?thesis
    using analog_joystick_refines [OF p] by (simp add: analog_test_joystick)
qed

text \<open>
  Claim C32. An ESPLORA joystick, from any state satisfying the closure invariant
  and under any interleaving of reports and settle timeouts, behaves as the ESPLORA
  controller followed by the change detector: it never throws, its events are
  those of the data handler on the samples \<open>esplora_run\<close> emits, and its io calls
  are the controller's.
\<close>

theorem esplora_joystick_refines:
  assumes "j_pipe j = EsploraPipe s" and "esplora_inv s"
  shows "\<exists>st evs. handler_run (j_toAxis j) (fst (snd (esplora_run is s))) (j_state j) = Inr (st, evs) \<and>
           joystick_run (map EsploraEvent is) j =
             Inr (j\<lparr>j_state := st, j_pipe := EsploraPipe (fst (esplora_run is s))\<rparr>, evs,
                  snd (snd (esplora_run is s)))"
  using assms by (rule esplora_pipeline)

theorem esplora_joystick_refines_witness:
  "\<exists>st evs. handler_run default_toAxis (fst (snd (esplora_run (esplora_round 1023 1023) (fst esplora_initialize)))) initial_state = Inr (st, evs) \<and>
     joystick_run (map EsploraEvent (esplora_round 1023 1023)) (fst (new_joystick esplora_test_options)) =
       Inr ((fst (new_joystick esplora_test_options))\<lparr>j_state := st,
              j_pipe := EsploraPipe (fst (esplora_run (esplora_round 1023 1023) (fst esplora_initialize)))\<rparr>, evs,
            snd (snd (esplora_run (esplora_round 1023 1023) (fst esplora_initialize))))"
proof -
  have p: "j_pipe (fst (new_joystick esplora_test_options)) = EsploraPipe (fst esplora_initialize)"
    "esplora_inv (fst esplora_initialize)"
    by (simp_all add: esplora_test_joystick esplora_initialize_inv)
  show ?thesis
    using esplora_joystick_refines [OF p] by (simp add: esplora_test_joystick)
qed

subsection \<open>The joystick against the reference detector\<close>

text \<open>
  Claim C33. An ANALOG joystick, constructed by \<open>new Joystick\<close> with two or more
  pins, whose first two pins report in turn the pairs of any sequence \<open>ps\<close> (x on
  the first pin, then y on the second), emits exactly the events of the reference
  detector on \<open>ps\<close>, makes no io call, ends in the handler state the detector's
  final state stands for, and its getters x and y read the transformed last pair.
\<close>

theorem analog_detector_refines:
  assumes "resolve_controller (opt_controller opts) = Analog" and "2 \<le> length (opt_pins opts)"
  shows "\<exists>j'. joystick_run (concat (map (\<lambda>(a, b). analog_report_pair a b) ps)) (fst (new_joystick opts)) =
                Inr (j', snd (detector default_toAxis None ps), []) \<and>
              j_state j' = detector_state default_toAxis (fst (detector default_toAxis None ps)) \<and>
              (ps \<noteq> [] \<longrightarrow> joystick_x j' = default_toAxis (fst (last ps)) \<and>
                            joystick_y j' = default_toAxis (snd (last ps)))"
proof -
  let ?j = "fst (new_joystick opts)" and ?rs = "concat (map (\<lambda>(x, y). [(0::nat, x), (1::nat, y)]) ps)"
  have j: "j_pipe ?j = AnalogPipe analog_initial" "j_toAxis ?j = default_toAxis" "j_state ?j = initial_state"
    "j_pins ?j = opt_pins opts"
    using assms(1) by (simp_all add: new_joystick_def resolve_toAxis_def)
  have xy: "xy_object (a_points analog_initial)"
    by (simp add: xy_object_def analog_initial_def initial_points_def js_keys_def)
  have rs: "\<forall>(i, v)\<in>set ?rs. i < 2 \<and> i < length (j_pins ?j)" using assms(2) j(4) by auto
  have inp: "concat (map (\<lambda>(a, b). analog_report_pair a b) ps) = map (\<lambda>(i, v). PinReport i v) ?rs"
    by (induction ps) (auto simp: analog_report_pair_def)
  have em: "snd (analog_run ?rs analog_initial) = map xy_sample ps"
    by (rule analog_rounds_run) (simp_all add: analog_initial_def initial_points_def js_keys_def)
  have init: "initial_state = detector_state default_toAxis None" by (simp add: detector_state_def)
  obtain st evs where h: "handler_run default_toAxis (snd (analog_run ?rs analog_initial)) initial_state = Inr (st, evs)"
    and run: "joystick_run (map (\<lambda>(i, v). PinReport i v) ?rs) ?j =
                Inr (?j\<lparr>j_state := st, j_pipe := AnalogPipe (fst (analog_run ?rs analog_initial))\<rparr>, evs, [])"
    using analog_pipeline [OF j(1) xy rs] j(2,3) by auto
  have st: "st = detector_state default_toAxis (fst (detector default_toAxis None ps))"
    and evs: "evs = snd (detector default_toAxis None ps)"
    using h unfolding em init handler_run_detector by simp_all
  show ?thesis
    using run detector_state_getters [of ps default_toAxis None] j(2)
    unfolding inp st evs by (simp add: joystick_x_def joystick_y_def)
qed

theorem analog_detector_refines_witness:
  "\<exists>j'. joystick_run (concat (map (\<lambda>(a, b). analog_report_pair a b) [(1023, 1023), (512, 512), (0, 0)]))
          (fst (new_joystick analog_test_options)) =
          Inr (j', [DataEvent 1023 1023, ChangeEvent 1023 1023, DataEvent 512 512, ChangeEvent 512 512,
                    DataEvent 0 0, ChangeEvent 0 0], []) \<and>
        round (joystick_x j') = -1 \<and> round (joystick_y j') = -1"
proof -
  have a: "resolve_controller (opt_controller analog_test_options) = Analog"
    "2 \<le> length (opt_pins analog_test_options)"
    by (simp_all add: analog_test_options_def resolve_controller_def)
  show ?thesis
    using analog_detector_refines [OF a, of "[(1023, 1023), (512, 512), (0, 0)]"]
    by (auto simp: detect_step_def default_toAxis_eq round_def Let_def)
qed

text \<open>
  Claim C34. An ESPLORA joystick (a controller name that upper-cases to ESPLORA),
  given the rounds report x, settle, report y, settle for the pairs of any sequence
  \<open>ps\<close>, emits exactly the events of the reference detector on \<open>ps\<close>, makes the io
  calls of the ESPLORA controller, ends in the handler state the detector's final
  state stands for, and its getters read the transformed last pair.
\<close>

theorem esplora_detector_refines:
  assumes "resolve_controller (opt_controller opts) = Esplora"
  shows "\<exists>j'. joystick_run (concat (map (\<lambda>(a, b). esplora_report_pair a b) ps)) (fst (new_joystick opts)) =
                Inr (j', snd (detector default_toAxis None ps),
                     snd (snd (esplora_run (concat (map (\<lambda>(a, b). esplora_round a b) ps)) (fst esplora_initialize)))) \<and>
              j_state j' = detector_state default_toAxis (fst (detector default_toAxis None ps)) \<and>
              (ps \<noteq> [] \<longrightarrow> joystick_x j' = default_toAxis (fst (last ps)) \<and>
                            joystick_y j' = default_toAxis (snd (last ps)))"
proof -
  let ?j = "fst (new_joystick opts)" and ?is = "concat (map (\<lambda>(a, b). esplora_round a b) ps)"
  have j: "j_pipe ?j = EsploraPipe (fst esplora_initialize)" "j_toAxis ?j = default_toAxis"
    "j_state ?j = initial_state"
    using assms by (simp_all add: new_joystick_def resolve_toAxis_def)
  have inp: "concat (map (\<lambda>(a, b). esplora_report_pair a b) ps) = map EsploraEvent ?is"
    by (induction ps) (auto simp: esplora_report_pair_def)
  have rs: "round_start (fst esplora_initialize)"
    by (simp add: round_start_def esplora_initialize_state initial_points_def js_keys_def)
  have em: "fst (snd (esplora_run ?is (fst esplora_initialize))) = map xy_sample ps"
    using esplora_rounds_run [OF rs, of ps] by (simp add: xy_sample_def [abs_def])
  have init: "initial_state = detector_state default_toAxis None" by (simp add: detector_state_def)
  obtain st evs where h: "handler_run default_toAxis (fst (snd (esplora_run ?is (fst esplora_initialize)))) initial_state = Inr (st, evs)"
    and run: "joystick_run (map EsploraEvent ?is) ?j =
                Inr (?j\<lparr>j_state := st, j_pipe := EsploraPipe (fst (esplora_run ?is (fst esplora_initialize)))\<rparr>, evs,
                     snd (snd (esplora_run ?is (fst esplora_initialize))))"
    using esplora_pipeline [of ?j "fst esplora_initialize" ?is, OF j(1) esplora_initialize_inv] j(2,3) by auto
  have st: "st = detector_state default_toAxis (fst (detector default_toAxis None ps))"
    and evs: "evs = snd (detector default_toAxis None ps)"
    using h unfolding em init handler_run_detector by simp_all
  show ?thesis
    using run detector_state_getters [of ps default_toAxis None] j(2)
    unfolding inp st evs by (simp add: joystick_x_def joystick_y_def)
qed

theorem esplora_detector_refines_witness:
  "\<exists>j'. joystick_run (concat (map (\<lambda>(a, b). esplora_report_pair a b) [(1023, 1023), (512, 512), (0, 0)]))
          (fst (new_joystick esplora_test_options)) =
          Inr (j', [DataEvent 1023 1023, ChangeEvent 1023 1023, DataEvent 512 512, ChangeEvent 512 512,
                    DataEvent 0 0, ChangeEvent 0 0],
               snd (snd (esplora_run (concat (map (\<lambda>(a, b). esplora_round a b) [(1023, 1023), (512, 512), (0, 0)]))
                    (fst esplora_initialize)))) \<and>
        round (joystick_x j') = -1 \<and> round (joystick_y j') = -1"
proof -
  have a: "resolve_controller (opt_controller esplora_test_options) = Esplora"
    by (simp add: esplora_test_options_def resolve_controller_def controller_table_def js_upper_def js_upper_char_def)
  show ?thesis
    using esplora_detector_refines [OF a, of "[(1023, 1023), (512, 512), (0, 0)]"]
    by (auto simp: detect_step_def default_toAxis_eq round_def Let_def)
qed

end
